(* ===== verification/Gole_Prelude.thy ===== *)
theory Gole_Prelude
  imports Main "HOL-Library.Word" "HOL-Library.AList"
begin

text \<open>
  Shared vocabulary of the development: Go's fixed-width integers, byte slices and strings,
  Go maps (as association lists, with the laws clients rely on stated once as a locale),
  decimal formatting (the verb \<open>%d\<close>), little- and big-endian integers, and the interface of
  a self-delimiting binary encoding. Nothing here is specific to one component.
\<close>

unbundle bit_operations_syntax

section \<open>Basic types\<close>

type_synonym byte = "8 word"
type_synonym u16 = "16 word"
type_synonym u32 = "32 word"
type_synonym bytes = "byte list"

text \<open>An instant or a duration in nanoseconds (Go's \<open>time.Time\<close> and \<open>time.Duration\<close>).\<close>
type_synonym time = int
type_synonym duration = int

text \<open>
  Go's \<open>int64\<close> arithmetic wraps silently; durations are \<open>int64\<close>. \<open>wrap64\<close> is the value an
  \<open>int64\<close> holds after an operation whose exact result is the argument.
\<close>
definition wrap64 :: "int \<Rightarrow> int" where
  "wrap64 x = (x + 2 ^ 63) mod 2 ^ 64 - 2 ^ 63"

lemma wrap64_id: "- (2 ^ 63) \<le> x \<Longrightarrow> x < 2 ^ 63 \<Longrightarrow> wrap64 x = x"
  by (simp add: wrap64_def)

lemma wrap64_range: "- (2 ^ 63) \<le> wrap64 x" "wrap64 x < 2 ^ 63"
  by (simp_all add: wrap64_def)

section \<open>Go maps\<close>

text \<open>
  A Go map is an association list with distinct keys. Only lookup, insertion, deletion, length
  and iteration are used on it. Go leaves the iteration order unspecified; the list order is
  one of the orders the run-time may choose.
\<close>

type_synonym ('k, 'v) gomap = "('k \<times> 'v) list"

definition gm_get :: "('k, 'v) gomap \<Rightarrow> 'k \<Rightarrow> 'v option" where
  "gm_get m k = map_of m k"

definition gm_put :: "'k \<Rightarrow> 'v \<Rightarrow> ('k, 'v) gomap \<Rightarrow> ('k, 'v) gomap" where
  "gm_put k v m = AList.update k v m"

definition gm_del :: "'k \<Rightarrow> ('k, 'v) gomap \<Rightarrow> ('k, 'v) gomap" where
  "gm_del k m = AList.delete k m"

definition gm_len :: "('k, 'v) gomap \<Rightarrow> nat" where
  "gm_len m = length m"

definition gm_vals :: "('k, 'v) gomap \<Rightarrow> 'v list" where
  "gm_vals m = map snd m"

definition gm_wf :: "('k, 'v) gomap \<Rightarrow> bool" where
  "gm_wf m \<longleftrightarrow> distinct (map fst m)"

text \<open>The contract of a Go map, and what its clients need, proved once from the contract.\<close>

locale go_map =
  fixes get :: "'m \<Rightarrow> 'k \<Rightarrow> 'v option"
    and put :: "'k \<Rightarrow> 'v \<Rightarrow> 'm \<Rightarrow> 'm"
    and del :: "'k \<Rightarrow> 'm \<Rightarrow> 'm"
    and len :: "'m \<Rightarrow> nat"
    and vals :: "'m \<Rightarrow> 'v list"
    and wf :: "'m \<Rightarrow> bool"
    and empty :: "'m"
  assumes get_empty: "get empty = Map.empty"
    and get_put: "get (put k v m) = (get m)(k \<mapsto> v)"
    and get_del: "get (del k m) = (get m)(k := None)"
    and finite_keys: "finite (dom (get m))"
    and len_keys: "wf m \<Longrightarrow> len m = card (dom (get m))"
    and set_vals: "wf m \<Longrightarrow> set (vals m) = ran (get m)"
    and wf_empty: "wf empty"
    and wf_put: "wf m \<Longrightarrow> wf (put k v m)"
    and wf_del: "wf m \<Longrightarrow> wf (del k m)"
begin

lemma len_put_new:
  assumes "wf m" "get m k = None"
  shows "len (put k v m) = Suc (len m)"
  using assms by (simp add: len_keys wf_put get_put finite_keys domIff)

lemma len_put_old:
  assumes "wf m" "get m k = Some w"
  shows "len (put k v m) = len m"
  using assms by (simp add: len_keys wf_put get_put insert_absorb domI)

lemma in_vals: "wf m \<Longrightarrow> v \<in> set (vals m) \<longleftrightarrow> (\<exists>k. get m k = Some v)"
  by (simp add: set_vals ran_def)

lemma get_none_of_len_0: "wf m \<Longrightarrow> len m = 0 \<Longrightarrow> get m = Map.empty"
  by (simp add: len_keys finite_keys)

end

interpretation gm: go_map gm_get gm_put gm_del gm_len gm_vals gm_wf "[]"
proof (unfold_locales, goal_cases)
  case (4 m)
  show ?case by (simp add: gm_get_def [abs_def] finite_dom_map_of)
next
  case (5 m)
  then show ?case
    by (metis distinct_card dom_map_of_conv_image_fst ext gm_get_def gm_len_def gm_wf_def
        image_set length_map)
next
  case (6 m)
  then show ?case
    by (simp add: gm_get_def [abs_def] gm_vals_def gm_wf_def ran_distinct)
qed (auto simp: gm_get_def [abs_def] gm_put_def gm_del_def gm_wf_def update_conv' delete_conv'
    distinct_update distinct_delete)

declare gm.get_empty [simp] gm.get_put [simp] gm.get_del [simp] gm.wf_empty [simp]
  gm.wf_put [simp, intro] gm.wf_del [simp, intro]

text \<open>
  A two-level map (Go: \<open>map[K1]map[K2]V\<close>) is read with both keys present, and written after
  creating the inner map when it is missing.
\<close>

definition gm_sub :: "('k, ('l, 'v) gomap) gomap \<Rightarrow> 'k \<Rightarrow> ('l, 'v) gomap" where
  "gm_sub m k = (case gm_get m k of Some s \<Rightarrow> s | None \<Rightarrow> [])"

lemma gm_sub_put [simp]: "gm_sub (gm_put k s m) k' = (if k' = k then s else gm_sub m k')"
  by (simp add: gm_sub_def)

lemma gm_sub_empty [simp]: "gm_sub [] k = []"
  by (simp add: gm_sub_def)

section \<open>Strings and bytes\<close>

definition byte_of_char :: "char \<Rightarrow> byte" where
  "byte_of_char c = word_of_nat (of_char c)"

definition char_of_byte :: "byte \<Rightarrow> char" where
  "char_of_byte b = char_of (unat b)"

text \<open>Go's conversions \<open>[]byte(s)\<close> and \<open>string(b)\<close>: a Go string is a byte sequence.\<close>

definition bytes_of_string :: "string \<Rightarrow> bytes" where
  "bytes_of_string s = map byte_of_char s"

definition string_of_bytes :: "bytes \<Rightarrow> string" where
  "string_of_bytes b = map char_of_byte b"

lemma char_of_byte_of_char [simp]: "char_of_byte (byte_of_char c) = c"
  by (simp add: char_of_byte_def byte_of_char_def unat_of_nat take_bit_eq_mod)

lemma byte_of_char_of_byte [simp]: "byte_of_char (char_of_byte b) = b"
proof -
  have "unat b < 256" using unsigned_less [of b] by simp
  then show ?thesis
    by (simp add: char_of_byte_def byte_of_char_def of_char_of)
qed

lemma string_of_bytes_of_string [simp]: "string_of_bytes (bytes_of_string s) = s"
  by (simp add: bytes_of_string_def string_of_bytes_def comp_def)

lemma bytes_of_string_of_bytes [simp]: "bytes_of_string (string_of_bytes b) = b"
  by (simp add: bytes_of_string_def string_of_bytes_def comp_def)

lemma length_bytes_of_string [simp]: "length (bytes_of_string s) = length s"
  by (simp add: bytes_of_string_def)

lemma bytes_of_string_append [simp]:
  "bytes_of_string (s @ t) = bytes_of_string s @ bytes_of_string t"
  by (simp add: bytes_of_string_def)

lemma bytes_of_string_inject [simp]: "bytes_of_string s = bytes_of_string t \<longleftrightarrow> s = t"
  by (metis string_of_bytes_of_string)

section \<open>Decimal formatting\<close>

text \<open>The verb \<open>%d\<close> on a non-negative integer.\<close>

definition digit_char :: "nat \<Rightarrow> char" where
  "digit_char d = char_of (48 + d)"

fun show_nat :: "nat \<Rightarrow> string" where
  "show_nat n = (if n < 10 then [digit_char n] else show_nat (n div 10) @ [digit_char (n mod 10)])"

declare show_nat.simps [simp del]

definition char_digit :: "char \<Rightarrow> nat" where
  "char_digit c = of_char c - 48"

definition read_nat :: "string \<Rightarrow> nat" where
  "read_nat s = foldl (\<lambda>a c. 10 * a + char_digit c) 0 s"

lemma char_digit_digit [simp]: "d < 10 \<Longrightarrow> char_digit (digit_char d) = d"
  by (simp add: char_digit_def digit_char_def of_char_of)

lemma read_show_nat [simp]: "read_nat (show_nat n) = n"
proof (induction n rule: show_nat.induct)
  case (1 n)
  then show ?case
    by (subst show_nat.simps) (simp add: read_nat_def)
qed

lemma show_nat_inject [simp]: "show_nat m = show_nat n \<longleftrightarrow> m = n"
  by (metis read_show_nat)

lemma show_nat_digits: "c \<in> set (show_nat n) \<Longrightarrow> \<exists>d < 10. c = digit_char d"
proof (induction n rule: show_nat.induct)
  case (1 n)
  show ?case
  proof (cases "n < 10")
    case True
    with "1.prems" show ?thesis by (auto simp: show_nat.simps [of n])
  next
    case False
    with "1.prems" consider "c \<in> set (show_nat (n div 10))" | "c = digit_char (n mod 10)"
      by (auto simp: show_nat.simps [of n])
    then show ?thesis
    proof cases
      case 2
      moreover have "n mod 10 < 10" by simp
      ultimately show ?thesis by blast
    qed (use "1.IH" [OF False] in blast)
  qed
qed

lemma digit_char_code: "d < 10 \<Longrightarrow> of_char (digit_char d) = (48 + d :: nat)"
  by (simp add: digit_char_def of_char_of)

lemma show_nat_code: "c \<in> set (show_nat n) \<Longrightarrow> 48 \<le> (of_char c :: nat) \<and> (of_char c :: nat) < 58"
  using show_nat_digits digit_char_code by fastforce

lemma show_nat_nonempty [simp]: "show_nat n \<noteq> []"
  by (subst show_nat.simps) simp

lemma dot_not_in_show_nat [simp]: "CHR ''.'' \<notin> set (show_nat n)"
proof
  assume "CHR ''.'' \<in> set (show_nat n)"
  from show_nat_code [OF this] show False by simp
qed

text \<open>A separator that occurs in neither prefix splits a string in one way only.\<close>

lemma append_sep_inject:
  assumes "c \<notin> set xs" "c \<notin> set xs'"
  shows "xs @ c # ys = xs' @ c # ys' \<longleftrightarrow> xs = xs' \<and> ys = ys'"
  using assms
proof (induction xs arbitrary: xs')
  case Nil
  then show ?case by (cases xs') auto
next
  case (Cons x xs)
  then show ?case by (cases xs') auto
qed

lemma append_sep_inject_last:
  assumes "c \<notin> set ys" "c \<notin> set ys'"
  shows "xs @ c # ys = xs' @ c # ys' \<longleftrightarrow> xs = xs' \<and> ys = ys'"
proof -
  have "xs @ c # ys = xs' @ c # ys' \<longleftrightarrow> rev ys @ c # rev xs = rev ys' @ c # rev xs'"
    by (metis append.assoc append_Cons append_Nil rev.simps(2) rev_append rev_rev_ident)
  then show ?thesis using assms by (auto simp: append_sep_inject)
qed

section \<open>Integers in bytes\<close>

text \<open>\<open>encoding/binary\<close>: \<open>le_put n v\<close> is \<open>v\<close> in \<open>n\<close> little-endian bytes.\<close>

fun le_put :: "nat \<Rightarrow> nat \<Rightarrow> bytes" where
  "le_put 0 v = []"
| "le_put (Suc n) v = word_of_nat (v mod 256) # le_put n (v div 256)"

fun le_get :: "bytes \<Rightarrow> nat" where
  "le_get [] = 0"
| "le_get (b # bs) = unat b + 256 * le_get bs"

definition be_get :: "bytes \<Rightarrow> nat" where
  "be_get bs = le_get (rev bs)"

lemma length_le_put [simp]: "length (le_put n v) = n"
  by (induction n arbitrary: v) auto

lemma le_get_put: "v < 256 ^ n \<Longrightarrow> le_get (le_put n v) = v"
proof (induction n arbitrary: v)
  case 0
  then show ?case by simp
next
  case (Suc n)
  then have "v div 256 < 256 ^ n" by (simp add: less_mult_imp_div_less mult.commute)
  with Suc.IH show ?case
    by (simp add: unat_of_nat take_bit_eq_mod)
qed

lemma le_get_bound: "le_get bs < 256 ^ length bs"
proof (induction bs)
  case (Cons b bs)
  have "unat b < 256" using unsigned_less [of b] by simp
  with Cons show ?case by simp
qed simp

lemma le_put_get: "le_put (length bs) (le_get bs) = bs"
proof (induction bs)
  case (Cons b bs)
  have "unat b < 256" using unsigned_less [of b] by simp
  then have "(unat b + 256 * le_get bs) mod 256 = unat b"
    and "(unat b + 256 * le_get bs) div 256 = le_get bs" by auto
  with Cons show ?case by simp
qed simp

section \<open>Self-delimiting encodings\<close>

text \<open>
  The interface of a wire format: \<open>enc\<close> writes a value, \<open>dec\<close> reads one value off the front
  of a byte stream and returns what follows. The one law is the round trip, for the values the
  format can carry; unique decodability and the decoding of whole streams follow from it.
\<close>

fun decode_many :: "(bytes \<Rightarrow> ('a \<times> bytes) option) \<Rightarrow> nat \<Rightarrow> bytes \<Rightarrow> ('a list \<times> bytes) option" where
  "decode_many dec 0 bs = Some ([], bs)"
| "decode_many dec (Suc n) bs =
     (case dec bs of
        None \<Rightarrow> None
      | Some (x, bs') \<Rightarrow>
          (case decode_many dec n bs' of None \<Rightarrow> None | Some (xs, r) \<Rightarrow> Some (x # xs, r)))"

locale codec =
  fixes enc :: "'a \<Rightarrow> bytes"
    and dec :: "bytes \<Rightarrow> ('a \<times> bytes) option"
    and valid :: "'a \<Rightarrow> bool"
  assumes dec_enc: "valid x \<Longrightarrow> dec (enc x @ rest) = Some (x, rest)"
begin

lemma enc_prefix_free:
  assumes "valid x" "valid y" "enc x @ r = enc y @ s"
  shows "x = y \<and> r = s"
  using dec_enc [OF assms(1), of r] dec_enc [OF assms(2), of s] unfolding assms(3) by simp

lemma decode_concat:
  "list_all valid xs \<Longrightarrow> decode_many dec (length xs) (concat (map enc xs) @ r) = Some (xs, r)"
  by (induction xs) (auto simp: dec_enc)

lemma concat_enc_inject:
  assumes "list_all valid xs" "list_all valid ys" "length xs = length ys"
    and "concat (map enc xs) @ r = concat (map enc ys) @ s"
  shows "xs = ys \<and> r = s"
  using decode_concat [OF assms(1), of r] decode_concat [OF assms(2), of s]
  unfolding assms(3,4) by simp

end

interpretation le64_codec: codec "\<lambda>n. le_put 8 n"
  "\<lambda>bs. if length bs < 8 then None else Some (le_get (take 8 bs), drop 8 bs)" "\<lambda>n. n < 2 ^ 64"
  by unfold_locales (simp add: le_get_put)

section \<open>Systems of operations\<close>

text \<open>
  A component whose operations are executed one at a time: \<open>run_ops\<close> executes a sequence,
  \<open>legal_ops\<close> says that each operation's guard holds where it is executed. What every
  operation keeps, every sequence keeps; a relation between before and after that every
  operation respects, every sequence respects.
\<close>

fun run_ops :: "('o \<Rightarrow> 's \<Rightarrow> 's) \<Rightarrow> 'o list \<Rightarrow> 's \<Rightarrow> 's" where
  "run_ops exec [] s = s"
| "run_ops exec (x # xs) s = run_ops exec xs (exec x s)"

fun legal_ops :: "('o \<Rightarrow> 's \<Rightarrow> bool) \<Rightarrow> ('o \<Rightarrow> 's \<Rightarrow> 's) \<Rightarrow> 'o list \<Rightarrow> 's \<Rightarrow> bool" where
  "legal_ops guard exec [] s \<longleftrightarrow> True"
| "legal_ops guard exec (x # xs) s \<longleftrightarrow> guard x s \<and> legal_ops guard exec xs (exec x s)"

lemma run_ops_append: "run_ops exec (xs @ ys) s = run_ops exec ys (run_ops exec xs s)"
  by (induction xs arbitrary: s) auto

locale guarded_system =
  fixes guard :: "'o \<Rightarrow> 's \<Rightarrow> bool"
    and exec :: "'o \<Rightarrow> 's \<Rightarrow> 's"
    and inv :: "'s \<Rightarrow> bool"
  assumes exec_inv: "inv s \<Longrightarrow> guard x s \<Longrightarrow> inv (exec x s)"
begin

lemma run_inv: "inv s \<Longrightarrow> legal_ops guard exec xs s \<Longrightarrow> inv (run_ops exec xs s)"
  by (induction xs arbitrary: s) (auto intro: exec_inv)

end

locale progress_system = guarded_system +
  fixes rel :: "'s \<Rightarrow> 's \<Rightarrow> bool"
  assumes rel_refl: "rel s s"
    and rel_trans: "rel s t \<Longrightarrow> rel t u \<Longrightarrow> rel s u"
    and exec_rel: "inv s \<Longrightarrow> guard x s \<Longrightarrow> rel s (exec x s)"
begin

lemma run_rel: "inv s \<Longrightarrow> legal_ops guard exec xs s \<Longrightarrow> rel s (run_ops exec xs s)"
  by (induction xs arbitrary: s) (auto intro: rel_refl rel_trans exec_inv exec_rel)

end

text \<open>
  Facts about the whole history of a run: \<open>hist xs s\<close> relates the operations executed so far to
  the state they led to.
\<close>

lemma legal_ops_append:
  "legal_ops guard exec (xs @ ys) s
     \<longleftrightarrow> legal_ops guard exec xs s \<and> legal_ops guard exec ys (run_ops exec xs s)"
  by (induction xs arbitrary: s) auto

locale history_system = guarded_system +
  fixes hist :: "'o list \<Rightarrow> 's \<Rightarrow> bool"
  assumes hist_step: "inv s \<Longrightarrow> hist xs s \<Longrightarrow> guard x s \<Longrightarrow> hist (xs @ [x]) (exec x s)"
begin

lemma run_hist:
  assumes "inv s" "hist [] s" "legal_ops guard exec xs s"
  shows "hist xs (run_ops exec xs s)"
  using assms(3)
proof (induction xs rule: rev_induct)
  case Nil
  with assms(2) show ?case by simp
next
  case (snoc x xs)
  then have "legal_ops guard exec xs s" "guard x (run_ops exec xs s)"
    by (simp_all add: legal_ops_append)
  with snoc.IH run_inv [OF assms(1)] show ?case
    by (simp add: run_ops_append hist_step)
qed

end

text \<open>
  A system simulates an abstract step relation through a function on its states when every
  operation is a step or leaves the abstract state alone.
\<close>

locale simulation = guarded_system +
  fixes abs :: "'s \<Rightarrow> 'a" and step :: "'a \<Rightarrow> 'a \<Rightarrow> bool"
  assumes simulates: "inv s \<Longrightarrow> guard x s \<Longrightarrow> abs (exec x s) = abs s \<or> step (abs s) (abs (exec x s))"
begin

lemma run_simulates:
  "inv s \<Longrightarrow> legal_ops guard exec xs s \<Longrightarrow> step\<^sup>*\<^sup>* (abs s) (abs (run_ops exec xs s))"
proof (induction xs arbitrary: s)
  case (Cons x xs)
  then have "step\<^sup>*\<^sup>* (abs s) (abs (exec x s))" using simulates [of s x] by auto
  moreover have "step\<^sup>*\<^sup>* (abs (exec x s)) (abs (run_ops exec xs (exec x s)))"
    using Cons by (simp add: exec_inv)
  ultimately show ?case by simp
qed simp

end

text \<open>
  A system that comes to an end: once it is ending it stays so, each of its own steps uses up some
  of what is left to do, the steps of others add nothing to it, and as long as something is left
  one of its own steps is due. So it takes at most as many steps of its own as were left, and it
  is never stuck before.
\<close>

locale draining = guarded_system +
  fixes own :: "'o \<Rightarrow> bool" and due :: "'o \<Rightarrow> 's \<Rightarrow> bool"
    and ending :: "'s \<Rightarrow> bool" and left :: "'s \<Rightarrow> nat"
  assumes ending_stays: "inv s \<Longrightarrow> ending s \<Longrightarrow> guard x s \<Longrightarrow> ending (exec x s)"
    and own_drains: "inv s \<Longrightarrow> ending s \<Longrightarrow> guard x s \<Longrightarrow> own x \<Longrightarrow> left (exec x s) < left s"
    and others_keep: "inv s \<Longrightarrow> ending s \<Longrightarrow> guard x s \<Longrightarrow> \<not> own x \<Longrightarrow> left (exec x s) \<le> left s"
    and something_due: "inv s \<Longrightarrow> ending s \<Longrightarrow> left s \<noteq> 0 \<Longrightarrow> \<exists>x. own x \<and> guard x s \<and> due x s"
begin

lemma run_drains:
  "inv s \<Longrightarrow> ending s \<Longrightarrow> legal_ops guard exec xs s \<Longrightarrow>
     left (run_ops exec xs s) + length (filter own xs) \<le> left s \<and> ending (run_ops exec xs s)"
proof (induction xs arbitrary: s)
  case (Cons x xs)
  then have "left (run_ops exec xs (exec x s)) + length (filter own xs) \<le> left (exec x s) \<and>
      ending (run_ops exec xs (exec x s))"
    by (simp add: exec_inv ending_stays)
  with Cons.prems own_drains [of s x] others_keep [of s x] show ?case by auto
qed simp

lemma finishes:
  assumes "inv s" "ending s" "legal_ops guard exec xs s" "s' = run_ops exec xs s"
  shows "length (filter own xs) \<le> left s \<and>
    (left s' \<noteq> 0 \<longrightarrow> (\<exists>x. own x \<and> guard x s' \<and> due x s'))"
  using run_drains [OF assms(1-3)] something_due run_inv [OF assms(1,3)] assms(4) by auto

end

end
