(* ===== verification/Swarm_Types.thy ===== *)
theory Swarm_Types
  imports Gole_Prelude
begin

text \<open>
  The data model of \<^verbatim>\<open>swarm/types.go\<close>: registration states, roles and flags in one byte,
  swarm addresses, the enrollment messages, transport configuration and decisions, the relay
  frame header and reachability records. The lemmas show that an address key determines the
  address it was built from, and that roles and flags share the byte without disturbing each
  other.
\<close>

section \<open>Registration states\<close>

abbreviation (input) StateUnregistered :: byte where "StateUnregistered \<equiv> 0x00"
abbreviation (input) StateRequesting :: byte where "StateRequesting \<equiv> 0x01"
abbreviation (input) StateChallengeIssued :: byte where "StateChallengeIssued \<equiv> 0x02"
abbreviation (input) StateChallengeResponse :: byte where "StateChallengeResponse \<equiv> 0x03"
abbreviation (input) StateRegistered :: byte where "StateRegistered \<equiv> 0x04"
abbreviation (input) StateActive :: byte where "StateActive \<equiv> 0x05"
abbreviation (input) StatePending :: byte where "StatePending \<equiv> 0x06"
abbreviation (input) StateDenied :: byte where "StateDenied \<equiv> 0x07"
abbreviation (input) StateRevoked :: byte where "StateRevoked \<equiv> 0xFF"

section \<open>Roles and flags\<close>

abbreviation (input) RoleClient :: byte where "RoleClient \<equiv> 0x01"
abbreviation (input) RoleAgent :: byte where "RoleAgent \<equiv> 0x02"
abbreviation (input) RoleRelay :: byte where "RoleRelay \<equiv> 0x03"
abbreviation (input) RoleMask :: byte where "RoleMask \<equiv> 0x03"

abbreviation (input) FlagRelayEligible :: byte where "FlagRelayEligible \<equiv> 0x04"
abbreviation (input) FlagPriority :: byte where "FlagPriority \<equiv> 0x08"

definition RoleOf :: "byte \<Rightarrow> byte" where
  "RoleOf flags = flags AND RoleMask"

definition HasFlag :: "byte \<Rightarrow> byte \<Rightarrow> bool" where
  "HasFlag flags flag \<longleftrightarrow> flags AND flag \<noteq> 0"

definition MakeRoleFlags :: "byte \<Rightarrow> byte \<Rightarrow> byte" where
  "MakeRoleFlags role flags = (role AND RoleMask) OR (flags AND NOT RoleMask)"

section \<open>Addresses\<close>

type_synonym EndpointID = u16
type_synonym DomainID = byte
type_synonym GroupID = byte

record EndpointAddr =
  ea_Domain :: DomainID
  ea_Group :: GroupID
  ea_Endpoint :: EndpointID
  ea_RoleFlags :: byte

text \<open>The zero value \<open>EndpointAddr{}\<close>.\<close>
definition zero_addr :: EndpointAddr where
  "zero_addr = \<lparr>ea_Domain = 0, ea_Group = 0, ea_Endpoint = 0, ea_RoleFlags = 0\<rparr>"

definition Role :: "EndpointAddr \<Rightarrow> byte" where
  "Role a = RoleOf (ea_RoleFlags a)"

definition RoleName :: "byte \<Rightarrow> string" where
  "RoleName r =
     (if r = RoleClient then ''client''
      else if r = RoleAgent then ''agent''
      else if r = RoleRelay then ''relay''
      else ''unknown('' @ show_nat (unat r) @ '')'')"

definition AddrKey :: "EndpointAddr \<Rightarrow> string" where
  "AddrKey a = show_nat (unat (ea_Domain a)) @ ''.'' @ show_nat (unat (ea_Group a)) @ ''.''
     @ show_nat (unat (ea_Endpoint a))"

definition addr_String :: "EndpointAddr \<Rightarrow> string" where
  "addr_String a = RoleName (Role a) @ ''@'' @ show_nat (unat (ea_Domain a)) @ ''.''
     @ show_nat (unat (ea_Group a)) @ ''.'' @ show_nat (unat (ea_Endpoint a))"

definition StateName :: "byte \<Rightarrow> string" where
  "StateName s =
     (if s = StateUnregistered then ''unregistered''
      else if s = StateRequesting then ''requesting''
      else if s = StateChallengeIssued then ''challenge_issued''
      else if s = StateChallengeResponse then ''challenge_response''
      else if s = StateRegistered then ''registered''
      else if s = StateActive then ''active''
      else if s = StatePending then ''pending''
      else if s = StateDenied then ''denied''
      else if s = StateRevoked then ''revoked''
      else ''unknown('' @ show_nat (unat s) @ '')'')"

section \<open>Enrollment messages\<close>

record EnrollRequest =
  req_PublicKey :: bytes
  req_Fingerprint :: string
  req_RoleFlags :: byte

record EnrollResponse =
  resp_RequestID :: string
  resp_Challenge :: bytes

record EnrollConfirm =
  conf_RequestID :: string
  conf_Signature :: bytes

record EnrollResult =
  res_Address :: EndpointAddr
  res_Token :: string

record EnrollStatus =
  st_State :: byte
  st_Result :: "EnrollResult option"

record RelayInfo =
  rl_Addr :: EndpointAddr
  rl_Latency :: duration

record RegistrationInfo =
  ri_ID :: EndpointID
  ri_Token :: string
  ri_RegistrarKey :: bytes
  ri_Relays :: "RelayInfo list"

record PendingEnrollment =
  pl_RequestID :: string
  pl_Fingerprint :: string
  pl_RoleFlags :: byte
  pl_PublicKey :: bytes
  pl_CreatedAt :: time
  pl_State :: byte

record RegisteredEndpoint =
  ep_Addr :: EndpointAddr
  ep_PublicKey :: bytes
  ep_State :: byte
  ep_Token :: string
  ep_Fingerprint :: string

section \<open>Transport\<close>

text \<open>\<open>TransportMode\<close> is a \<open>uint8\<close>: values other than the four constants are representable.\<close>

type_synonym TransportMode = byte

abbreviation (input) ModePinned :: TransportMode where "ModePinned \<equiv> 0x01"
abbreviation (input) ModeRelay :: TransportMode where "ModeRelay \<equiv> 0x02"
abbreviation (input) ModePeer :: TransportMode where "ModePeer \<equiv> 0x03"
abbreviation (input) ModeDynamic :: TransportMode where "ModeDynamic \<equiv> 0x04"

definition mode_String :: "TransportMode \<Rightarrow> string" where
  "mode_String m =
     (if m = ModePinned then ''pinned''
      else if m = ModeRelay then ''relay''
      else if m = ModePeer then ''peer''
      else if m = ModeDynamic then ''dynamic''
      else ''unknown('' @ show_nat (unat m) @ '')'')"

record TransportConfig =
  tc_Mode :: TransportMode
  tc_PinnedRelay :: "EndpointAddr option"
  tc_ProbeInterval :: duration
  tc_Threshold :: duration

abbreviation (input) Millisecond :: duration where "Millisecond \<equiv> 1000000"
abbreviation (input) Second :: duration where "Second \<equiv> 1000000000"
abbreviation (input) Minute :: duration where "Minute \<equiv> 60000000000"

definition DefaultTransportConfig :: TransportConfig where
  "DefaultTransportConfig =
     \<lparr>tc_Mode = ModeDynamic, tc_PinnedRelay = None, tc_ProbeInterval = 5 * Minute,
      tc_Threshold = 50 * Millisecond\<rparr>"

record TransportDecision =
  td_UseRelay :: bool
  td_RelayAddr :: "EndpointAddr option"
  td_P2PLatency :: duration
  td_RelayLatency :: duration

section \<open>Messages, relay frames, reachability\<close>

record SwarmMessage =
  msg_From :: EndpointAddr
  msg_To :: EndpointAddr
  msg_Token :: string
  msg_Payload :: bytes
  msg_Signature :: bytes

abbreviation (input) FrameAuth :: byte where "FrameAuth \<equiv> 0x01"
abbreviation (input) FrameAuthOK :: byte where "FrameAuthOK \<equiv> 0x02"
abbreviation (input) FrameAuthFail :: byte where "FrameAuthFail \<equiv> 0x03"
abbreviation (input) FrameData :: byte where "FrameData \<equiv> 0x10"
abbreviation (input) FrameNoRoute :: byte where "FrameNoRoute \<equiv> 0x11"
abbreviation (input) FramePing :: byte where "FramePing \<equiv> 0x20"
abbreviation (input) FramePong :: byte where "FramePong \<equiv> 0x21"

record RelayFrameHeader =
  hdr_Type :: byte
  hdr_DstDomain :: byte
  hdr_DstGroup :: byte
  hdr_DstEndpoint :: u16
  hdr_PayloadLen :: u32

abbreviation (input) RelayFrameHeaderSize :: nat where "RelayFrameHeaderSize \<equiv> 9"
abbreviation (input) MaxRelayPayload :: nat where "MaxRelayPayload \<equiv> 1048576"

record DirectRoute =
  dr_ObservedAddr :: string
  dr_Proto :: string

record RelayRoute =
  rr_RelayAddr :: EndpointAddr

record ReachabilityInfo =
  rc_Addr :: EndpointAddr
  rc_Direct :: "DirectRoute option"
  rc_Relay :: "RelayRoute option"
  rc_UpdatedAt :: time

record PunchRequest =
  pr_PeerAddr :: EndpointAddr
  pr_ObservedAddr :: string
  pr_Proto :: string

section \<open>Lemmas\<close>

definition same_endpoint :: "EndpointAddr \<Rightarrow> EndpointAddr \<Rightarrow> bool" where
  "same_endpoint a b \<longleftrightarrow>
     ea_Domain a = ea_Domain b \<and> ea_Group a = ea_Group b \<and> ea_Endpoint a = ea_Endpoint b"

lemma same_endpoint_refl [simp]: "same_endpoint a a"
  by (simp add: same_endpoint_def)

lemma AddrKey_eq_iff: "AddrKey a = AddrKey b \<longleftrightarrow> same_endpoint a b"
  by (simp add: AddrKey_def append_sep_inject same_endpoint_def word_unat_eq_iff)

lemma AddrKey_cong:
  "ea_Domain a = ea_Domain b \<Longrightarrow> ea_Group a = ea_Group b \<Longrightarrow> ea_Endpoint a = ea_Endpoint b
   \<Longrightarrow> AddrKey a = AddrKey b"
  by (simp add: AddrKey_def)

lemma RoleOf_cases: "RoleOf f = 0 \<or> RoleOf f = RoleClient \<or> RoleOf f = RoleAgent \<or> RoleOf f = RoleRelay"
proof -
  have "RoleOf f \<le> 3" by (simp add: RoleOf_def word_and_le1)
  then have "unat (RoleOf f) \<le> 3" by (simp add: word_le_nat_alt)
  then have "unat (RoleOf f) \<in> {0, 1, 2, 3}" by auto
  then show ?thesis by (auto simp: word_unat_eq_iff)
qed

lemma RoleOf_MakeRoleFlags [simp]: "RoleOf (MakeRoleFlags role flags) = RoleOf role"
  unfolding RoleOf_def MakeRoleFlags_def by (rule bit_word_eqI) (auto simp: bit_simps)

lemma HasFlag_MakeRoleFlags:
  assumes "flag AND RoleMask = 0"
  shows "HasFlag (MakeRoleFlags role flags) flag \<longleftrightarrow> HasFlag flags flag"
proof -
  have "bit flag n \<Longrightarrow> \<not> bit RoleMask n" for n
    using assms by (metis bit_0_eq bit_and_iff bot_apply bot_bool_def)
  then have "MakeRoleFlags role flags AND flag = flags AND flag"
    unfolding MakeRoleFlags_def by (intro bit_word_eqI) (auto simp: bit_simps)
  then show ?thesis by (simp add: HasFlag_def)
qed

end
