(* ===== verification/Base64_Url.thy ===== *)
theory Base64_Url
  imports Gole_Prelude
begin

text \<open>
  \<open>base64.RawURLEncoding\<close> of Go's \<open>encoding/base64\<close>, which tokens and request IDs are written
  in: the URL-safe alphabet, no padding, groups of three bytes as four characters. The decoder
  skips carriage returns and line feeds, rejects any other character outside the alphabet and a
  group of one character, and (not being strict) ignores the unused low bits of a short last
  group. The theorem is the round trip.
\<close>

definition b64_char :: "nat \<Rightarrow> char" where
  "b64_char n =
     (if n < 26 then char_of (65 + n)
      else if n < 52 then char_of (71 + n)
      else if n < 62 then char_of (n - 4)
      else if n = 62 then CHR ''-'' else CHR ''_'')"

definition b64_val :: "char \<Rightarrow> nat option" where
  "b64_val c =
     (let n = of_char c :: nat in
      if 65 \<le> n \<and> n \<le> 90 then Some (n - 65)
      else if 97 \<le> n \<and> n \<le> 122 then Some (n - 71)
      else if 48 \<le> n \<and> n \<le> 57 then Some (n + 4)
      else if c = CHR ''-'' then Some 62
      else if c = CHR ''_'' then Some 63
      else None)"

definition is_newline :: "char \<Rightarrow> bool" where
  "is_newline c \<longleftrightarrow> of_char c = (10 :: nat) \<or> of_char c = (13 :: nat)"

text \<open>The six-bit digits of a 24-bit group, most significant first.\<close>

definition sextet :: "nat \<Rightarrow> nat \<Rightarrow> nat" where
  "sextet k v = v div 64 ^ k mod 64"

definition octet :: "nat \<Rightarrow> nat \<Rightarrow> byte" where
  "octet k v = word_of_nat (v div 256 ^ k mod 256)"

definition group24 :: "nat \<Rightarrow> nat \<Rightarrow> nat \<Rightarrow> nat" where
  "group24 a b c = a * 65536 + b * 256 + c"

fun b64_digits :: "bytes \<Rightarrow> nat list" where
  "b64_digits [] = []"
| "b64_digits [a] = (let v = group24 (unat a) 0 0 in [sextet 3 v, sextet 2 v])"
| "b64_digits [a, b] =
     (let v = group24 (unat a) (unat b) 0 in [sextet 3 v, sextet 2 v, sextet 1 v])"
| "b64_digits (a # b # c # bs) =
     (let v = group24 (unat a) (unat b) (unat c)
      in sextet 3 v # sextet 2 v # sextet 1 v # sextet 0 v # b64_digits bs)"

definition ungroup :: "nat \<Rightarrow> nat \<Rightarrow> nat \<Rightarrow> nat \<Rightarrow> nat" where
  "ungroup d0 d1 d2 d3 = d0 * 262144 + d1 * 4096 + d2 * 64 + d3"

fun b64_octets :: "nat list \<Rightarrow> bytes option" where
  "b64_octets [] = Some []"
| "b64_octets [d0] = None"
| "b64_octets [d0, d1] = (let v = ungroup d0 d1 0 0 in Some [octet 2 v])"
| "b64_octets [d0, d1, d2] = (let v = ungroup d0 d1 d2 0 in Some [octet 2 v, octet 1 v])"
| "b64_octets (d0 # d1 # d2 # d3 # ds) =
     (let v = ungroup d0 d1 d2 d3
      in map_option (\<lambda>bs. octet 2 v # octet 1 v # octet 0 v # bs) (b64_octets ds))"

definition b64url_encode :: "bytes \<Rightarrow> string" where
  "b64url_encode bs = map b64_char (b64_digits bs)"

definition b64url_decode :: "string \<Rightarrow> bytes option" where
  "b64url_decode s =
     Option.bind (those (map b64_val (filter (\<lambda>c. \<not> is_newline c) s))) b64_octets"

section \<open>The round trip\<close>

lemma b64_val_char: "n < 64 \<Longrightarrow> b64_val (b64_char n) = Some n"
  by (auto simp: b64_val_def b64_char_def of_char_of Let_def)

lemma b64_char_newline: "n < 64 \<Longrightarrow> \<not> is_newline (b64_char n)"
  by (auto simp: b64_char_def of_char_of is_newline_def)

lemma sextet_bound [simp]: "sextet k v < 64"
  by (simp add: sextet_def)

lemma b64_digits_bound: "d \<in> set (b64_digits bs) \<Longrightarrow> d < 64"
  by (induction bs rule: b64_digits.induct) (auto simp: Let_def)

lemma those_map_Some: "(\<And>x. x \<in> set xs \<Longrightarrow> f x = Some (g x)) \<Longrightarrow> those (map f xs) = Some (map g xs)"
  by (induction xs) auto

lemma decode_map_char:
  assumes "\<And>d. d \<in> set ds \<Longrightarrow> d < 64"
  shows "b64url_decode (map b64_char ds) = b64_octets ds"
proof -
  have "filter (\<lambda>c. \<not> is_newline c) (map b64_char ds) = map b64_char ds"
    using assms by (auto simp: filter_id_conv b64_char_newline)
  moreover have "those (map (b64_val \<circ> b64_char) ds) = Some (map id ds)"
    using assms by (intro those_map_Some) (simp add: b64_val_char)
  ultimately show ?thesis by (simp add: b64url_decode_def)
qed

lemma group24_split:
  fixes a b c :: nat
  defines "v \<equiv> group24 a b c"
  assumes "v < 64 ^ 4"
  shows "ungroup (sextet 3 v) (sextet 2 v) (sextet 1 v) (sextet 0 v) = v"
proof -
  have "sextet 3 v = v div 262144" using assms(2) by (simp add: sextet_def less_mult_imp_div_less)
  moreover have "sextet 2 v = v div 4096 mod 64" "sextet 1 v = v div 64 mod 64" "sextet 0 v = v mod 64"
    by (simp_all add: sextet_def)
  moreover have "v div 4096 div 64 = v div 262144" "v div 64 div 64 = v div 4096"
    by (simp_all flip: div_mult2_eq)
  ultimately show ?thesis
    unfolding ungroup_def
    using div_mult_mod_eq [of v 64] div_mult_mod_eq [of "v div 64" 64]
      div_mult_mod_eq [of "v div 4096" 64] by linarith
qed

lemma unat_byte_less [simp]: "unat (b :: byte) < 256"
  using unsigned_less [of b] by simp

lemma group24_octets:
  assumes "x < 256" "y < 256" "z < 256"
  shows "group24 x y z div 65536 = x" "group24 x y z div 256 = x * 256 + y"
    "group24 x y z mod 256 = z"
proof -
  show "group24 x y z div 65536 = x"
    using assms unfolding group24_def by (intro div_nat_eqI) simp_all
  show "group24 x y z div 256 = x * 256 + y"
    using assms unfolding group24_def by (intro div_nat_eqI) simp_all
  have "group24 x y z = z + 256 * (x * 256 + y)" by (simp add: group24_def)
  then show "group24 x y z mod 256 = z" using assms(3) by (metis mod_less mod_mult_self2)
qed

lemma octets_group24:
  fixes a b c :: byte
  defines "v \<equiv> group24 (unat a) (unat b) (unat c)"
  shows "octet 2 v = a" "octet 1 v = b" "octet 0 v = c" "v < 64 ^ 4"
proof -
  have a: "unat a < 256" and b: "unat b < 256" and c: "unat c < 256" by simp_all
  have "v div 65536 = unat a" "v div 256 = unat a * 256 + unat b" "v mod 256 = unat c"
    unfolding v_def using group24_octets [OF a b c] by auto
  with a b show "octet 2 v = a" "octet 1 v = b" "octet 0 v = c"
    by (simp_all add: octet_def)
  have "v < 16777216" using a b c unfolding v_def group24_def by linarith
  then show "v < 64 ^ 4" by simp
qed

text \<open>A short group is a full one with zero bytes, whose dropped digits are zero.\<close>

lemma sextet_short:
  "sextet 0 (group24 a b 0) = 0" "sextet 1 (group24 a 0 0) = 0"
proof -
  have "group24 a b 0 = 64 * (a * 1024 + b * 4)" by (simp add: group24_def)
  then show "sextet 0 (group24 a b 0) = 0" by (simp add: sextet_def)
  have "group24 a 0 0 = 64 * (64 * (a * 16))" by (simp add: group24_def)
  then show "sextet 1 (group24 a 0 0) = 0" by (simp add: sextet_def)
qed

lemmas sextet_short_simps [simp] = sextet_short sextet_short(2) [unfolded One_nat_def]

lemma b64_octets_digits: "b64_octets (b64_digits bs) = Some bs"
proof (induction bs rule: b64_digits.induct)
  case (2 a)
  have "group24 (unat a) 0 0 < 64 ^ 4" using octets_group24(4) [of a 0 0] by simp
  from group24_split [OF this] octets_group24(1) [of a 0 0] show ?case
    by (simp add: Let_def)
next
  case (3 a b)
  have "group24 (unat a) (unat b) 0 < 64 ^ 4" using octets_group24(4) [of a b 0] by simp
  from group24_split [OF this] octets_group24(1,2) [of a b 0] show ?case
    by (simp add: Let_def)
next
  case (4 a b c bs)
  then show ?case
    using group24_split [OF octets_group24(4) [of a b c]] octets_group24(1-3) [of a b c]
    by (simp add: Let_def)
qed simp

theorem b64url_roundtrip: "b64url_decode (b64url_encode bs) = Some bs"
  by (simp add: b64url_encode_def decode_map_char b64_digits_bound b64_octets_digits)

lemma b64url_encode_inject [simp]: "b64url_encode a = b64url_encode b \<longleftrightarrow> a = b"
  by (metis b64url_roundtrip option.inject)

end
