(* ===== verification/Paseto.thy ===== *)
theory Paseto
  imports Swarm_Types Base64_Url
begin

text \<open>
  Tokens, \<^verbatim>\<open>swarm/paseto.go\<close>: the pre-authentication encoding \<open>pae\<close>, \<open>SignToken\<close> and
  \<open>VerifyToken\<close>. Ed25519 (\<open>crypto/ed25519\<close>) and the JSON codec of the claims
  (\<open>encoding/json\<close>) are parameters, collected in the record \<open>prims\<close>; the time of the
  verification is an argument. The lemmas show that \<open>pae\<close> is injective, that a signed token
  verifies to the claims it was made from until it expires, and that whatever verifies was signed.
\<close>

record TokenClaims =
  cl_EndpointID :: EndpointID
  cl_Domain :: DomainID
  cl_Group :: GroupID
  cl_RoleFlags :: byte
  cl_PublicKey :: bytes
  cl_Fingerprint :: string
  cl_IssuedAt :: time
  cl_ExpiresAt :: time
  cl_Issuer :: string

text \<open>
  The library functions the code calls: \<open>ed_Sign private message\<close>,
  \<open>ed_Verify public message signature\<close>, and \<open>json.Marshal\<close> / \<open>json.Unmarshal\<close> at the type
  \<open>TokenClaims\<close> (\<open>None\<close> is an error).
\<close>

record prims =
  ed_Sign :: "bytes \<Rightarrow> bytes \<Rightarrow> bytes"
  ed_Verify :: "bytes \<Rightarrow> bytes \<Rightarrow> bytes \<Rightarrow> bool"
  json_Marshal :: "TokenClaims \<Rightarrow> bytes option"
  json_Unmarshal :: "bytes \<Rightarrow> TokenClaims option"

abbreviation (input) PublicKeySize :: nat where "PublicKeySize \<equiv> 32"
abbreviation (input) SignatureSize :: nat where "SignatureSize \<equiv> 64"

section \<open>Encoding\<close>

definition pasetoHeader :: string where
  "pasetoHeader = ''v4.public.''"

definition le64 :: "nat \<Rightarrow> bytes" where
  "le64 n = le_put 8 n"

definition pae :: "bytes list \<Rightarrow> bytes" where
  "pae pieces = foldl (\<lambda>output p. (output @ le64 (length p)) @ p) (le64 (length pieces)) pieces"

datatype token_error =
    TokMarshal
  | TokWrongHeader
  | TokBadEncoding
  | TokTooShort
  | TokBadSignature
  | TokBadClaims
  | TokExpired

definition signed_part :: "bytes \<Rightarrow> bytes" where
  "signed_part message = pae [bytes_of_string pasetoHeader, message, [], []]"

definition SignToken :: "prims \<Rightarrow> TokenClaims \<Rightarrow> bytes \<Rightarrow> token_error + string" where
  "SignToken P claims secretKey =
     (case json_Marshal P claims of
        None \<Rightarrow> Inl TokMarshal
      | Some message \<Rightarrow>
          let m2 = signed_part message;
              signature = ed_Sign P secretKey m2;
              payload = message @ signature
          in Inr (pasetoHeader @ b64url_encode payload))"

definition VerifyToken :: "prims \<Rightarrow> time \<Rightarrow> string \<Rightarrow> bytes \<Rightarrow> token_error + TokenClaims" where
  "VerifyToken P now token publicKey =
     (if take (length pasetoHeader) token \<noteq> pasetoHeader then Inl TokWrongHeader
      else case b64url_decode (drop (length pasetoHeader) token) of
        None \<Rightarrow> Inl TokBadEncoding
      | Some payload \<Rightarrow>
          if length payload < SignatureSize then Inl TokTooShort
          else
            let message = take (length payload - SignatureSize) payload;
                signature = drop (length payload - SignatureSize) payload;
                m2 = signed_part message
            in if \<not> ed_Verify P publicKey m2 signature then Inl TokBadSignature
               else case json_Unmarshal P message of
                 None \<Rightarrow> Inl TokBadClaims
               | Some claims \<Rightarrow>
                   if cl_ExpiresAt claims < now then Inl TokExpired else Inr claims)"

section \<open>The pre-authentication encoding is injective\<close>

definition pae_piece :: "bytes \<Rightarrow> bytes" where
  "pae_piece p = le64 (length p) @ p"

definition pae_unpiece :: "bytes \<Rightarrow> (bytes \<times> bytes) option" where
  "pae_unpiece bs =
     (if length bs < 8 then None
      else let n = le_get (take 8 bs); rest = drop 8 bs
           in if length rest < n then None else Some (take n rest, drop n rest))"

interpretation pae_codec: codec pae_piece pae_unpiece "\<lambda>p. length p < 2 ^ 64"
  by unfold_locales (simp add: pae_piece_def pae_unpiece_def le64_def le_get_put)

lemma pae_foldl:
  "foldl (\<lambda>output p. (output @ le64 (length p)) @ p) acc pieces = acc @ concat (map pae_piece pieces)"
  by (induction pieces arbitrary: acc) (auto simp: pae_piece_def)

lemma pae_eq: "pae pieces = le64 (length pieces) @ concat (map pae_piece pieces)"
  by (simp only: pae_def pae_foldl)

lemma le64_inject: "m < 2 ^ 64 \<Longrightarrow> n < 2 ^ 64 \<Longrightarrow> le64 m = le64 n \<longleftrightarrow> m = n"
proof -
  assume "m < 2 ^ 64" "n < 2 ^ 64"
  then have "le_get (le64 m) = m" "le_get (le64 n) = n"
    by (simp_all add: le64_def le_get_put)
  then show ?thesis by metis
qed

definition pae_ok :: "bytes list \<Rightarrow> bool" where
  "pae_ok pieces \<longleftrightarrow> length pieces < 2 ^ 64 \<and> list_all (\<lambda>p. length p < 2 ^ 64) pieces"

lemma pae_injective:
  assumes "pae_ok xs" "pae_ok ys" "pae xs = pae ys"
  shows "xs = ys"
proof -
  from assms(3) have "le64 (length xs) = le64 (length ys)"
    and rest: "concat (map pae_piece xs) @ [] = concat (map pae_piece ys) @ []"
    by (simp_all add: pae_eq le64_def)
  with assms(1,2) have "length xs = length ys"
    by (simp add: pae_ok_def le64_inject)
  with pae_codec.concat_enc_inject [OF _ _ _ rest] assms(1,2) show ?thesis
    by (simp add: pae_ok_def)
qed

lemma signed_part_inject:
  assumes "length m < 2 ^ 64" "length m' < 2 ^ 64" "signed_part m = signed_part m'"
  shows "m = m'"
  using pae_injective [OF _ _ assms(3) [unfolded signed_part_def]] assms(1,2)
  by (simp add: pae_ok_def pasetoHeader_def)

section \<open>Signing and verifying\<close>

text \<open>
  What the code relies on. \<open>keypair P pub priv\<close>: the keys belong together, so the signature
  of a claims document made with \<open>priv\<close> is 64 bytes long and verifies under \<open>pub\<close>. \<open>json_ok P c\<close>: the JSON codec
  reads back the claims it wrote, and a document is shorter than \<open>2 ^ 64\<close> bytes.
  \<open>only_signed P pub M\<close> idealises the unforgeability of Ed25519: under \<open>pub\<close> only the messages
  in \<open>M\<close> verify.
\<close>

definition keypair :: "prims \<Rightarrow> bytes \<Rightarrow> bytes \<Rightarrow> bool" where
  "keypair P pub priv \<longleftrightarrow>
     (\<forall>c m. json_Marshal P c = Some m \<longrightarrow>
        ed_Verify P pub (signed_part m) (ed_Sign P priv (signed_part m)) \<and>
        length (ed_Sign P priv (signed_part m)) = SignatureSize)"

definition json_ok :: "prims \<Rightarrow> TokenClaims \<Rightarrow> bool" where
  "json_ok P c \<longleftrightarrow>
     (\<exists>m. json_Marshal P c = Some m \<and> json_Unmarshal P m = Some c \<and> length m < 2 ^ 64)"

definition only_signed :: "prims \<Rightarrow> bytes \<Rightarrow> bytes set \<Rightarrow> bool" where
  "only_signed P pub M \<longleftrightarrow> (\<forall>m s. ed_Verify P pub m s \<longrightarrow> m \<in> M)"

text \<open>What a token says, whoever asks: its header stripped, its signature cut off.\<close>

definition token_message :: "string \<Rightarrow> bytes option" where
  "token_message token =
     (if take (length pasetoHeader) token \<noteq> pasetoHeader then None
      else case b64url_decode (drop (length pasetoHeader) token) of
        None \<Rightarrow> None
      | Some payload \<Rightarrow>
          if length payload < SignatureSize then None
          else Some (take (length payload - SignatureSize) payload))"

lemma token_message_encoded:
  assumes "length s = SignatureSize"
  shows "token_message (pasetoHeader @ b64url_encode (m @ s)) = Some m"
  using assms by (simp add: token_message_def b64url_roundtrip)

lemma SignToken_Inr:
  "SignToken P c priv = Inr t \<longleftrightarrow>
     (\<exists>m. json_Marshal P c = Some m \<and>
          t = pasetoHeader @ b64url_encode (m @ ed_Sign P priv (signed_part m)))"
  by (auto simp: SignToken_def Let_def split: option.splits)

lemma VerifyToken_encoded:
  assumes "length s = SignatureSize"
  shows "VerifyToken P now (pasetoHeader @ b64url_encode (m @ s)) pub =
    (if \<not> ed_Verify P pub (signed_part m) s then Inl TokBadSignature
     else case json_Unmarshal P m of
       None \<Rightarrow> Inl TokBadClaims
     | Some c \<Rightarrow> if cl_ExpiresAt c < now then Inl TokExpired else Inr c)"
  using assms by (simp add: VerifyToken_def b64url_roundtrip)

lemma verify_sign:
  assumes "keypair P pub priv" "json_ok P c" "SignToken P c priv = Inr t"
  shows "VerifyToken P now t pub = (if cl_ExpiresAt c < now then Inl TokExpired else Inr c)"
proof -
  from assms(2) obtain m where m: "json_Marshal P c = Some m" "json_Unmarshal P m = Some c"
    by (auto simp: json_ok_def)
  with assms(3) have t: "t = pasetoHeader @ b64url_encode (m @ ed_Sign P priv (signed_part m))"
    by (simp add: SignToken_Inr)
  from assms(1) m(1) have "length (ed_Sign P priv (signed_part m)) = SignatureSize"
    "ed_Verify P pub (signed_part m) (ed_Sign P priv (signed_part m))"
    by (auto simp: keypair_def)
  then show ?thesis by (simp add: t VerifyToken_encoded m)
qed

lemma SignToken_total: "json_ok P c \<Longrightarrow> \<exists>t. SignToken P c priv = Inr t"
  by (auto simp: json_ok_def SignToken_Inr)

lemma VerifyToken_message:
  assumes "VerifyToken P now t pub = Inr c"
  obtains m s where "token_message t = Some m" "json_Unmarshal P m = Some c"
    "ed_Verify P pub (signed_part m) s" "now \<le> cl_ExpiresAt c"
  using assms
  by (auto simp: VerifyToken_def token_message_def Let_def split: if_splits option.splits)

text \<open>Whatever verifies was signed: its message is the marshalled form of some signed claims.\<close>

lemma VerifyToken_authentic:
  assumes only: "only_signed P pub {signed_part m | c m. c \<in> C \<and> json_Marshal P c = Some m}"
    and ok: "\<And>c. c \<in> C \<Longrightarrow> json_ok P c"
    and small: "\<And>m. token_message t = Some m \<Longrightarrow> length m < 2 ^ 64"
    and ver: "VerifyToken P now t pub = Inr c"
  shows "c \<in> C \<and> now \<le> cl_ExpiresAt c"
proof -
  from ver obtain m s where m: "token_message t = Some m" "json_Unmarshal P m = Some c"
    "ed_Verify P pub (signed_part m) s" and now: "now \<le> cl_ExpiresAt c"
    by (rule VerifyToken_message)
  from only m(3) obtain c' m' where c': "c' \<in> C" "json_Marshal P c' = Some m'"
    and eq: "signed_part m = signed_part m'"
    unfolding only_signed_def by blast
  from ok [OF c'(1)] c'(2) have "json_Unmarshal P m' = Some c'" "length m' < 2 ^ 64"
    by (auto simp: json_ok_def)
  moreover have "m = m'"
    using signed_part_inject [OF small [OF m(1)] _ eq] calculation(2) by simp
  ultimately show ?thesis using m(2) c'(1) now by simp
qed

end
