(* ===== verification/Registrar.thy ===== *)
theory Registrar
  imports Paseto
begin

text \<open>
  The enrollment broker, \<^verbatim>\<open>swarm/registrar.go\<close>: its state (the maps of the Go struct
  \<open>Registrar\<close>) and every operation on it, in the order of the file. An operation takes the
  registrar and returns its result, an error or a value, with the registrar afterwards: the
  state is returned on the error paths too, because some of them change it. Pointers into the
  maps are followed by reading and writing the map at the same key. The randomness an operation
  draws (\<open>entropy\<close>) and the time it reads are arguments. Mutexes are not modelled: each
  operation runs under the registrar's lock from start to end, so operations are atomic steps.
\<close>

section \<open>State\<close>

record pendingEnroll =
  pe_RequestID :: string
  pe_PublicKey :: bytes
  pe_Fingerprint :: string
  pe_RoleFlags :: byte
  pe_Challenge :: bytes
  pe_CreatedAt :: time
  pe_State :: byte
  pe_Address :: EndpointAddr
  pe_Token :: string

record addrMapping =
  am_Domain :: DomainID
  am_Group :: GroupID

record Registrar =
  rg_publicKey :: bytes
  rg_privateKey :: bytes
  rg_endpoints :: "(DomainID, (GroupID, (EndpointID, RegisteredEndpoint) gomap) gomap) gomap"
  rg_pending :: "(string, pendingEnroll) gomap"
  rg_byFingerprint :: "(string, string) gomap"
  rg_preApproved :: "(string, addrMapping) gomap"
  rg_nextID :: "(DomainID, (GroupID, u16) gomap) gomap"
  rg_reachability :: "(string, ReachabilityInfo) gomap"
  rg_tokenTTL :: duration

abbreviation (input) maxEndpointsPerGroup :: nat where "maxEndpointsPerGroup \<equiv> 65534"
abbreviation (input) RelayDomain :: DomainID where "RelayDomain \<equiv> 0"
abbreviation (input) RelayGroup :: GroupID where "RelayGroup \<equiv> 0"

text \<open>What \<open>crypto/rand\<close> returns during \<open>Enroll\<close>; \<open>None\<close> is a read error.\<close>

record entropy =
  ent_nonce :: "bytes option"
  ent_requestID :: "bytes option"

datatype reg_error =
    KeyGenFailed
  | InvalidRole
  | InvalidPublicKey nat
  | FingerprintRequired
  | ChallengeGenFailed
  | RequestIDGenFailed
  | UnknownRequest
  | ChallengeFailed
  | PollSignatureInvalid
  | EmptyFingerprint
  | ReservedDomain
  | CannotApprove byte
  | CannotDeny byte
  | GroupCapacity
  | NoAvailableIDs
  | TokenProblem token_error
  | TokenMismatch
  | EndpointNotFound
  | WrongState byte
  | ClientNotObserved
  | AgentNotObserved
  | ClientNotActive
  | AgentNotActive

definition NewRegistrar :: "(bytes \<times> bytes) option \<Rightarrow> duration \<Rightarrow> reg_error + Registrar" where
  "NewRegistrar key tokenTTL =
     (case key of
        None \<Rightarrow> Inl KeyGenFailed
      | Some (pub, priv) \<Rightarrow> Inr
          \<lparr>rg_publicKey = pub, rg_privateKey = priv, rg_endpoints = [], rg_pending = [],
           rg_byFingerprint = [], rg_preApproved = [], rg_nextID = [], rg_reachability = [],
           rg_tokenTTL = tokenTTL\<rparr>)"

section \<open>Internal helpers\<close>

definition statusFor :: "pendingEnroll \<Rightarrow> EnrollStatus" where
  "statusFor pe =
     \<lparr>st_State = pe_State pe,
      st_Result = (if pe_State pe = StateRegistered
        then Some \<lparr>res_Address = pe_Address pe, res_Token = pe_Token pe\<rparr> else None)\<rparr>"

definition getEndpoint :: "EndpointAddr \<Rightarrow> Registrar \<Rightarrow> RegisteredEndpoint option" where
  "getEndpoint addr r =
     (case gm_get (rg_endpoints r) (ea_Domain addr) of
        None \<Rightarrow> None
      | Some dg \<Rightarrow>
          (case gm_get dg (ea_Group addr) of
             None \<Rightarrow> None
           | Some ge \<Rightarrow> gm_get ge (ea_Endpoint addr)))"

text \<open>Writing an endpoint record at an address, creating the inner maps when they are missing.\<close>

definition putEndpoint :: "EndpointAddr \<Rightarrow> RegisteredEndpoint \<Rightarrow> Registrar \<Rightarrow> Registrar" where
  "putEndpoint addr ep r =
     (let dg = gm_sub (rg_endpoints r) (ea_Domain addr);
          ge = gm_sub dg (ea_Group addr)
      in r\<lparr>rg_endpoints :=
             gm_put (ea_Domain addr)
               (gm_put (ea_Group addr) (gm_put (ea_Endpoint addr) ep ge) dg)
               (rg_endpoints r)\<rparr>)"

definition storeEndpoint ::
    "EndpointAddr \<Rightarrow> bytes \<Rightarrow> string \<Rightarrow> string \<Rightarrow> Registrar \<Rightarrow> Registrar" where
  "storeEndpoint addr pk token fingerprint r =
     putEndpoint addr
       \<lparr>ep_Addr = addr, ep_PublicKey = pk, ep_State = StateRegistered, ep_Token = token,
        ep_Fingerprint = fingerprint\<rparr> r"

definition countEndpoints :: "DomainID \<Rightarrow> GroupID \<Rightarrow> Registrar \<Rightarrow> nat" where
  "countEndpoints domain grp r = gm_len (gm_sub (gm_sub (rg_endpoints r) domain) grp)"

definition isIDTaken :: "DomainID \<Rightarrow> GroupID \<Rightarrow> Registrar \<Rightarrow> EndpointID \<Rightarrow> bool" where
  "isIDTaken domain grp r eid \<longleftrightarrow> gm_get (gm_sub (gm_sub (rg_endpoints r) domain) grp) eid \<noteq> None"

text \<open>
  The probe sequence of \<open>allocateID\<close>, in \<open>uint16\<close> arithmetic: \<open>hint + i\<close> wraps at 65536, the
  reserved 0 becomes 1, and 65535 is folded back by subtracting the group size.
\<close>

definition alloc_candidate :: "u16 \<Rightarrow> u16 \<Rightarrow> EndpointID" where
  "alloc_candidate hint i =
     (let c0 = hint + i;
          c1 = (if c0 = 0 then 1 else c0)
      in if c1 > 65534 then c1 - 65534 else c1)"

function alloc_loop :: "(EndpointID \<Rightarrow> bool) \<Rightarrow> u16 \<Rightarrow> u16 \<Rightarrow> EndpointID option" where
  "alloc_loop taken hint i =
     (if i < 65534
      then (if \<not> taken (alloc_candidate hint i) then Some (alloc_candidate hint i)
            else alloc_loop taken hint (i + 1))
      else None)"
  by pat_completeness auto
termination
proof (relation "measure (\<lambda>(taken, hint, i). 65534 - unat i)", goal_cases)
  case (2 taken hint i)
  then have "unat i < 65534" by (simp add: word_less_nat_alt)
  then have "unat (i + 1) = Suc (unat i)"
    by (simp add: unat_word_ariths)
  with \<open>unat i < 65534\<close> show ?case by simp
qed simp

declare alloc_loop.simps [simp del]

definition allocateID :: "DomainID \<Rightarrow> GroupID \<Rightarrow> Registrar \<Rightarrow> (reg_error + EndpointID) \<times> Registrar" where
  "allocateID domain grp r =
     (let groups = gm_sub (rg_nextID r) domain;
          r1 = r\<lparr>rg_nextID := (if gm_get (rg_nextID r) domain = None
                               then gm_put domain [] (rg_nextID r) else rg_nextID r)\<rparr>;
          hint0 = (case gm_get groups grp of Some h \<Rightarrow> h | None \<Rightarrow> 0);
          hint = (if hint0 = 0 then 1 else hint0)
      in case alloc_loop (isIDTaken domain grp r1) hint 0 of
           None \<Rightarrow> (Inl NoAvailableIDs, r1)
         | Some candidate \<Rightarrow>
             let next = (if candidate + 1 > 65534 then 1 else candidate + 1)
             in (Inr candidate,
                 r1\<lparr>rg_nextID := gm_put domain (gm_put grp next groups) (rg_nextID r1)\<rparr>))"

text \<open>All endpoint records, in the iteration order of the nested maps.\<close>

definition allEndpoints :: "Registrar \<Rightarrow> RegisteredEndpoint list" where
  "allEndpoints r = concat (map gm_vals (concat (map gm_vals (gm_vals (rg_endpoints r)))))"

definition findByFingerprint :: "string \<Rightarrow> Registrar \<Rightarrow> (EndpointAddr \<times> RegisteredEndpoint) option" where
  "findByFingerprint fp r =
     (if fp = [] then None
      else map_option (\<lambda>ep. (ep_Addr ep, ep))
             (find (\<lambda>ep. ep_Fingerprint ep = fp \<and> ep_State ep \<noteq> StateRevoked) (allEndpoints r)))"

definition tokenIssuer :: string where
  "tokenIssuer = ''gole-swarm-registrar''"

text \<open>
  \<open>registerApproved\<close> updates the enrollment record through its pointer: the model returns the
  updated record and its callers write it back.
\<close>

definition registerApproved ::
    "prims \<Rightarrow> time \<Rightarrow> pendingEnroll \<Rightarrow> DomainID \<Rightarrow> GroupID \<Rightarrow> Registrar
     \<Rightarrow> (reg_error + pendingEnroll) \<times> Registrar" where
  "registerApproved P now pe domain grp r =
     (case findByFingerprint (pe_Fingerprint pe) r of
        Some (existingAddr, existingEp) \<Rightarrow>
          (Inr (pe\<lparr>pe_Address := existingAddr, pe_Token := ep_Token existingEp,
                   pe_State := StateRegistered\<rparr>), r)
      | None \<Rightarrow>
          if countEndpoints domain grp r \<ge> maxEndpointsPerGroup then (Inl GroupCapacity, r)
          else (case allocateID domain grp r of
            (Inl e, r1) \<Rightarrow> (Inl e, r1)
          | (Inr eid, r1) \<Rightarrow>
              let addr = \<lparr>ea_Domain = domain, ea_Group = grp, ea_Endpoint = eid,
                          ea_RoleFlags = pe_RoleFlags pe\<rparr>;
                  claims = \<lparr>cl_EndpointID = eid, cl_Domain = domain, cl_Group = grp,
                            cl_RoleFlags = pe_RoleFlags pe, cl_PublicKey = pe_PublicKey pe,
                            cl_Fingerprint = pe_Fingerprint pe, cl_IssuedAt = now,
                            cl_ExpiresAt = now + rg_tokenTTL r1, cl_Issuer = tokenIssuer\<rparr>
              in case SignToken P claims (rg_privateKey r1) of
                   Inl e \<Rightarrow> (Inl (TokenProblem e), r1)
                 | Inr token \<Rightarrow>
                     (Inr (pe\<lparr>pe_Address := addr, pe_Token := token, pe_State := StateRegistered\<rparr>),
                      storeEndpoint addr (pe_PublicKey pe) token (pe_Fingerprint pe) r1)))"

section \<open>Enrollment\<close>

text \<open>The idempotence test of \<open>Enroll\<close>: the enrollment the fingerprint already has.\<close>

definition existingEnrollment :: "string \<Rightarrow> Registrar \<Rightarrow> pendingEnroll option" where
  "existingEnrollment fp r =
     (if fp = [] then None
      else case gm_get (rg_byFingerprint r) fp of
             None \<Rightarrow> None
           | Some rid \<Rightarrow> gm_get (rg_pending r) rid)"

definition randomRequestID :: "entropy \<Rightarrow> string option" where
  "randomRequestID ent = map_option b64url_encode (ent_requestID ent)"

definition Enroll ::
    "EnrollRequest \<Rightarrow> entropy \<Rightarrow> time \<Rightarrow> Registrar \<Rightarrow> (reg_error + EnrollResponse) \<times> Registrar" where
  "Enroll req ent now r =
     (let role = RoleOf (req_RoleFlags req) in
      if role \<noteq> RoleClient \<and> role \<noteq> RoleAgent \<and> role \<noteq> RoleRelay then (Inl InvalidRole, r)
      else if length (req_PublicKey req) \<noteq> PublicKeySize
        then (Inl (InvalidPublicKey (length (req_PublicKey req))), r)
      else if role \<noteq> RoleRelay \<and> req_Fingerprint req = [] then (Inl FingerprintRequired, r)
      else case existingEnrollment (req_Fingerprint req) r of
        Some existing \<Rightarrow>
          (Inr \<lparr>resp_RequestID = pe_RequestID existing, resp_Challenge = pe_Challenge existing\<rparr>, r)
      | None \<Rightarrow>
          (case ent_nonce ent of
             None \<Rightarrow> (Inl ChallengeGenFailed, r)
           | Some nonce \<Rightarrow>
               (case randomRequestID ent of
                  None \<Rightarrow> (Inl RequestIDGenFailed, r)
                | Some rid \<Rightarrow>
                    let pe = \<lparr>pe_RequestID = rid, pe_PublicKey = req_PublicKey req,
                              pe_Fingerprint = req_Fingerprint req,
                              pe_RoleFlags = req_RoleFlags req, pe_Challenge = nonce,
                              pe_CreatedAt = now, pe_State = StateChallengeIssued,
                              pe_Address = zero_addr, pe_Token = []\<rparr>
                    in (Inr \<lparr>resp_RequestID = rid, resp_Challenge = nonce\<rparr>,
                        r\<lparr>rg_pending := gm_put rid pe (rg_pending r),
                          rg_byFingerprint :=
                            (if req_Fingerprint req \<noteq> []
                             then gm_put (req_Fingerprint req) rid (rg_byFingerprint r)
                             else rg_byFingerprint r)\<rparr>))))"

text \<open>Running \<open>registerApproved\<close> on the enrollment stored under a request ID.\<close>

definition approveStored ::
    "prims \<Rightarrow> time \<Rightarrow> string \<Rightarrow> pendingEnroll \<Rightarrow> DomainID \<Rightarrow> GroupID \<Rightarrow> Registrar
     \<Rightarrow> (reg_error + pendingEnroll) \<times> Registrar" where
  "approveStored P now rid pe domain grp r =
     (case registerApproved P now pe domain grp r of
        (Inl e, r1) \<Rightarrow> (Inl e, r1)
      | (Inr pe', r1) \<Rightarrow> (Inr pe', r1\<lparr>rg_pending := gm_put rid pe' (rg_pending r1)\<rparr>))"

definition ConfirmEnrollment ::
    "prims \<Rightarrow> time \<Rightarrow> EnrollConfirm \<Rightarrow> Registrar \<Rightarrow> (reg_error + EnrollStatus) \<times> Registrar" where
  "ConfirmEnrollment P now c r =
     (let rid = conf_RequestID c in
      case gm_get (rg_pending r) rid of
        None \<Rightarrow> (Inl UnknownRequest, r)
      | Some pe \<Rightarrow>
          if pe_State pe \<noteq> StateChallengeIssued then (Inr (statusFor pe), r)
          else if \<not> ed_Verify P (pe_PublicKey pe) (pe_Challenge pe) (conf_Signature c)
            then (Inl ChallengeFailed,
                  r\<lparr>rg_pending := gm_del rid (rg_pending r),
                    rg_byFingerprint :=
                      (if pe_Fingerprint pe \<noteq> [] then gm_del (pe_Fingerprint pe) (rg_byFingerprint r)
                       else rg_byFingerprint r)\<rparr>)
          else if RoleOf (pe_RoleFlags pe) = RoleRelay
            then (case approveStored P now rid pe RelayDomain RelayGroup r of
                    (Inl e, r1) \<Rightarrow> (Inl e, r1)
                  | (Inr pe', r1) \<Rightarrow> (Inr (statusFor pe'), r1))
          else case gm_get (rg_preApproved r) (pe_Fingerprint pe) of
            Some mapping \<Rightarrow>
              (case approveStored P now rid pe (am_Domain mapping) (am_Group mapping) r of
                 (Inl e, r1) \<Rightarrow> (Inl e, r1)
               | (Inr pe', r1) \<Rightarrow> (Inr (statusFor pe'), r1))
          | None \<Rightarrow>
              let pe' = pe\<lparr>pe_State := StatePending\<rparr>
              in (Inr (statusFor pe'), r\<lparr>rg_pending := gm_put rid pe' (rg_pending r)\<rparr>))"

definition poll_message :: "string \<Rightarrow> bytes" where
  "poll_message rid = bytes_of_string (rid @ ''|poll'')"

definition PollEnrollment :: "prims \<Rightarrow> string \<Rightarrow> bytes \<Rightarrow> Registrar \<Rightarrow> reg_error + EnrollStatus" where
  "PollEnrollment P requestID signature r =
     (case gm_get (rg_pending r) requestID of
        None \<Rightarrow> Inl UnknownRequest
      | Some pe \<Rightarrow>
          if \<not> ed_Verify P (pe_PublicKey pe) (poll_message requestID) signature
          then Inl PollSignatureInvalid else Inr (statusFor pe))"

section \<open>Administration\<close>

definition PreApprove ::
    "string \<Rightarrow> DomainID \<Rightarrow> GroupID \<Rightarrow> Registrar \<Rightarrow> (reg_error + unit) \<times> Registrar" where
  "PreApprove fingerprint domain grp r =
     (if fingerprint = [] then (Inl EmptyFingerprint, r)
      else if domain = RelayDomain then (Inl ReservedDomain, r)
      else (Inr (), r\<lparr>rg_preApproved :=
              gm_put fingerprint \<lparr>am_Domain = domain, am_Group = grp\<rparr> (rg_preApproved r)\<rparr>))"

definition ApproveEnrollment ::
    "prims \<Rightarrow> time \<Rightarrow> string \<Rightarrow> DomainID \<Rightarrow> GroupID \<Rightarrow> Registrar \<Rightarrow> (reg_error + unit) \<times> Registrar" where
  "ApproveEnrollment P now requestID domain grp r =
     (case gm_get (rg_pending r) requestID of
        None \<Rightarrow> (Inl UnknownRequest, r)
      | Some pe \<Rightarrow>
          if pe_State pe \<noteq> StatePending then (Inl (CannotApprove (pe_State pe)), r)
          else if domain = RelayDomain then (Inl ReservedDomain, r)
          else (case approveStored P now requestID pe domain grp r of
                  (Inl e, r1) \<Rightarrow> (Inl e, r1)
                | (Inr pe', r1) \<Rightarrow> (Inr (), r1)))"

definition DenyEnrollment :: "string \<Rightarrow> Registrar \<Rightarrow> (reg_error + unit) \<times> Registrar" where
  "DenyEnrollment requestID r =
     (case gm_get (rg_pending r) requestID of
        None \<Rightarrow> (Inl UnknownRequest, r)
      | Some pe \<Rightarrow>
          if pe_State pe \<noteq> StatePending \<and> pe_State pe \<noteq> StateChallengeIssued
          then (Inl (CannotDeny (pe_State pe)), r)
          else (Inr (), r\<lparr>rg_pending :=
                  gm_put requestID (pe\<lparr>pe_State := StateDenied\<rparr>) (rg_pending r)\<rparr>))"

definition ListPending :: "Registrar \<Rightarrow> PendingEnrollment list" where
  "ListPending r =
     map (\<lambda>pe. \<lparr>pl_RequestID = pe_RequestID pe, pl_Fingerprint = pe_Fingerprint pe,
                pl_RoleFlags = pe_RoleFlags pe, pl_PublicKey = pe_PublicKey pe,
                pl_CreatedAt = pe_CreatedAt pe, pl_State = pe_State pe\<rparr>)
       (filter (\<lambda>pe. pe_State pe = StatePending) (gm_vals (rg_pending r)))"

section \<open>Activation and revocation\<close>

definition claims_match :: "TokenClaims \<Rightarrow> EndpointAddr \<Rightarrow> bool" where
  "claims_match claims addr \<longleftrightarrow>
     cl_EndpointID claims = ea_Endpoint addr \<and> cl_Domain claims = ea_Domain addr \<and>
     cl_Group claims = ea_Group addr"

definition claims_match_flags :: "TokenClaims \<Rightarrow> EndpointAddr \<Rightarrow> bool" where
  "claims_match_flags claims addr \<longleftrightarrow>
     claims_match claims addr \<and> cl_RoleFlags claims = ea_RoleFlags addr"

definition ActivateEndpoint ::
    "prims \<Rightarrow> time \<Rightarrow> EndpointAddr \<Rightarrow> string \<Rightarrow> Registrar \<Rightarrow> (reg_error + unit) \<times> Registrar" where
  "ActivateEndpoint P now addr token r =
     (case VerifyToken P now token (rg_publicKey r) of
        Inl e \<Rightarrow> (Inl (TokenProblem e), r)
      | Inr claims \<Rightarrow>
          if \<not> claims_match_flags claims addr then (Inl TokenMismatch, r)
          else case getEndpoint addr r of
            None \<Rightarrow> (Inl EndpointNotFound, r)
          | Some ep \<Rightarrow>
              if ep_State ep \<noteq> StateRegistered then (Inl (WrongState (ep_State ep)), r)
              else (Inr (), putEndpoint addr (ep\<lparr>ep_State := StateActive\<rparr>) r))"

definition RevokeEndpoint :: "EndpointAddr \<Rightarrow> Registrar \<Rightarrow> (reg_error + unit) \<times> Registrar" where
  "RevokeEndpoint addr r =
     (case getEndpoint addr r of
        None \<Rightarrow> (Inl EndpointNotFound, r)
      | Some ep \<Rightarrow>
          (Inr (), (putEndpoint addr (ep\<lparr>ep_State := StateRevoked\<rparr>) r)
             \<lparr>rg_reachability := gm_del (AddrKey addr) (rg_reachability r)\<rparr>))"

section \<open>Reachability\<close>

text \<open>The record \<open>getOrCreateReachability\<close> returns; its callers fill it in and it is in the map.\<close>

definition getOrCreateReachability :: "EndpointAddr \<Rightarrow> Registrar \<Rightarrow> ReachabilityInfo" where
  "getOrCreateReachability addr r =
     (case gm_get (rg_reachability r) (AddrKey addr) of
        Some info \<Rightarrow> info
      | None \<Rightarrow> \<lparr>rc_Addr = addr, rc_Direct = None, rc_Relay = None, rc_UpdatedAt = 0\<rparr>)"

definition ObserveEndpoint ::
    "time \<Rightarrow> EndpointAddr \<Rightarrow> string \<Rightarrow> string \<Rightarrow> Registrar \<Rightarrow> (reg_error + unit) \<times> Registrar" where
  "ObserveEndpoint now addr observedAddr proto r =
     (case getEndpoint addr r of
        None \<Rightarrow> (Inl EndpointNotFound, r)
      | Some ep \<Rightarrow>
          if ep_State ep \<noteq> StateActive then (Inl (WrongState (ep_State ep)), r)
          else
            let info = (getOrCreateReachability addr r)
                  \<lparr>rc_Direct := Some \<lparr>dr_ObservedAddr = observedAddr, dr_Proto = proto\<rparr>,
                   rc_UpdatedAt := now\<rparr>
            in (Inr (), r\<lparr>rg_reachability := gm_put (AddrKey addr) info (rg_reachability r)\<rparr>))"

definition SetRelayRoute ::
    "prims \<Rightarrow> time \<Rightarrow> EndpointAddr \<Rightarrow> string \<Rightarrow> EndpointAddr \<Rightarrow> Registrar
     \<Rightarrow> (reg_error + unit) \<times> Registrar" where
  "SetRelayRoute P now addr token relayAddr r =
     (case VerifyToken P now token (rg_publicKey r) of
        Inl e \<Rightarrow> (Inl (TokenProblem e), r)
      | Inr claims \<Rightarrow>
          if \<not> claims_match claims addr then (Inl TokenMismatch, r)
          else case getEndpoint addr r of
            None \<Rightarrow> (Inl EndpointNotFound, r)
          | Some ep \<Rightarrow>
              if ep_State ep \<noteq> StateActive then (Inl (WrongState (ep_State ep)), r)
              else
                let info = (getOrCreateReachability addr r)
                      \<lparr>rc_Relay := Some \<lparr>rr_RelayAddr = relayAddr\<rparr>, rc_UpdatedAt := now\<rparr>
                in (Inr (), r\<lparr>rg_reachability := gm_put (AddrKey addr) info (rg_reachability r)\<rparr>))"

definition LookupReachability :: "EndpointAddr \<Rightarrow> Registrar \<Rightarrow> ReachabilityInfo option" where
  "LookupReachability target r =
     (case gm_get (rg_reachability r) (AddrKey target) of
        None \<Rightarrow> None
      | Some info \<Rightarrow>
          (case getEndpoint (rc_Addr info) r of
             None \<Rightarrow> None
           | Some ep \<Rightarrow> if ep_State ep \<noteq> StateActive then None else Some info))"

definition directOf :: "EndpointAddr \<Rightarrow> Registrar \<Rightarrow> DirectRoute option" where
  "directOf addr r =
     (case gm_get (rg_reachability r) (AddrKey addr) of
        None \<Rightarrow> None | Some info \<Rightarrow> rc_Direct info)"

definition isActive :: "EndpointAddr \<Rightarrow> Registrar \<Rightarrow> bool" where
  "isActive addr r \<longleftrightarrow>
     (case getEndpoint addr r of None \<Rightarrow> False | Some ep \<Rightarrow> ep_State ep = StateActive)"

definition RequestPunch ::
    "prims \<Rightarrow> time \<Rightarrow> EndpointAddr \<Rightarrow> EndpointAddr \<Rightarrow> string \<Rightarrow> Registrar
     \<Rightarrow> reg_error + PunchRequest \<times> PunchRequest" where
  "RequestPunch P now clientAddr agentAddr clientToken r =
     (case VerifyToken P now clientToken (rg_publicKey r) of
        Inl e \<Rightarrow> Inl (TokenProblem e)
      | Inr claims \<Rightarrow>
          if \<not> claims_match claims clientAddr then Inl TokenMismatch
          else case directOf clientAddr r of
            None \<Rightarrow> Inl ClientNotObserved
          | Some clientDirect \<Rightarrow>
              (case directOf agentAddr r of
                 None \<Rightarrow> Inl AgentNotObserved
               | Some agentDirect \<Rightarrow>
                   if \<not> isActive clientAddr r then Inl ClientNotActive
                   else if \<not> isActive agentAddr r then Inl AgentNotActive
                   else Inr
                     (\<lparr>pr_PeerAddr = agentAddr, pr_ObservedAddr = dr_ObservedAddr agentDirect,
                       pr_Proto = dr_Proto agentDirect\<rparr>,
                      \<lparr>pr_PeerAddr = clientAddr, pr_ObservedAddr = dr_ObservedAddr clientDirect,
                       pr_Proto = dr_Proto clientDirect\<rparr>)))"

definition ClearReachability :: "EndpointAddr \<Rightarrow> Registrar \<Rightarrow> Registrar" where
  "ClearReachability addr r = r\<lparr>rg_reachability := gm_del (AddrKey addr) (rg_reachability r)\<rparr>"

section \<open>Queries\<close>

definition ListEndpoints :: "DomainID \<Rightarrow> GroupID \<Rightarrow> Registrar \<Rightarrow> RegisteredEndpoint list" where
  "ListEndpoints domain grp r = gm_vals (gm_sub (gm_sub (rg_endpoints r) domain) grp)"

definition listRelaysLocked :: "Registrar \<Rightarrow> RelayInfo list" where
  "listRelaysLocked r =
     map (\<lambda>ep. \<lparr>rl_Addr = ep_Addr ep, rl_Latency = 0\<rparr>)
       (filter (\<lambda>ep. ep_State ep = StateActive)
         (gm_vals (gm_sub (gm_sub (rg_endpoints r) RelayDomain) RelayGroup)))"

definition ListRelays :: "DomainID \<Rightarrow> Registrar \<Rightarrow> RelayInfo list" where
  "ListRelays d r = listRelaysLocked r"

definition GetEndpointInfo :: "EndpointAddr \<Rightarrow> Registrar \<Rightarrow> RegisteredEndpoint option" where
  "GetEndpointInfo addr r = getEndpoint addr r"

definition FullRegistrationInfo :: "EndpointAddr \<Rightarrow> Registrar \<Rightarrow> reg_error + RegistrationInfo" where
  "FullRegistrationInfo addr r =
     (case getEndpoint addr r of
        None \<Rightarrow> Inl EndpointNotFound
      | Some ep \<Rightarrow>
          if ep_State ep \<noteq> StateActive then Inl (WrongState (ep_State ep))
          else Inr \<lparr>ri_ID = ea_Endpoint (ep_Addr ep), ri_Token = ep_Token ep,
                    ri_RegistrarKey = rg_publicKey r, ri_Relays = listRelaysLocked r\<rparr>)"

end
