(* ===== verification/Registrar_Lemmas.thy ===== *)
theory Registrar_Lemmas
  imports Registrar
begin

text \<open>
  Facts about the registrar's helpers that the proofs about whole operations share: the nested
  endpoint map seen as one lookup function, the enumeration of all endpoints, the ID allocator
  (which IDs it probes, what it returns, when it fails) and the cases of \<open>registerApproved\<close>.
\<close>

section \<open>The endpoint map as one lookup\<close>

definition ep_at :: "Registrar \<Rightarrow> DomainID \<Rightarrow> GroupID \<Rightarrow> EndpointID \<Rightarrow> RegisteredEndpoint option" where
  "ep_at r d g i = gm_get (gm_sub (gm_sub (rg_endpoints r) d) g) i"

lemma getEndpoint_ep_at:
  "getEndpoint addr r = ep_at r (ea_Domain addr) (ea_Group addr) (ea_Endpoint addr)"
  by (auto simp: getEndpoint_def ep_at_def gm_sub_def split: option.splits)

lemma isIDTaken_ep_at: "isIDTaken d g r i \<longleftrightarrow> ep_at r d g i \<noteq> None"
  by (simp add: isIDTaken_def ep_at_def)

lemma ep_at_putEndpoint:
  "ep_at (putEndpoint addr ep r) d g i =
     (if d = ea_Domain addr \<and> g = ea_Group addr \<and> i = ea_Endpoint addr then Some ep
      else ep_at r d g i)"
  by (auto simp: ep_at_def putEndpoint_def Let_def)

lemma putEndpoint_other [simp]:
  "rg_publicKey (putEndpoint addr ep r) = rg_publicKey r"
  "rg_privateKey (putEndpoint addr ep r) = rg_privateKey r"
  "rg_pending (putEndpoint addr ep r) = rg_pending r"
  "rg_byFingerprint (putEndpoint addr ep r) = rg_byFingerprint r"
  "rg_preApproved (putEndpoint addr ep r) = rg_preApproved r"
  "rg_nextID (putEndpoint addr ep r) = rg_nextID r"
  "rg_reachability (putEndpoint addr ep r) = rg_reachability r"
  "rg_tokenTTL (putEndpoint addr ep r) = rg_tokenTTL r"
  by (simp_all add: putEndpoint_def Let_def)

lemma ep_at_update [simp]:
  "ep_at (r\<lparr>rg_pending := x\<rparr>) = ep_at r"
  "ep_at (r\<lparr>rg_byFingerprint := y\<rparr>) = ep_at r"
  "ep_at (r\<lparr>rg_preApproved := z\<rparr>) = ep_at r"
  "ep_at (r\<lparr>rg_nextID := u\<rparr>) = ep_at r"
  "ep_at (r\<lparr>rg_reachability := v\<rparr>) = ep_at r"
  by (simp_all add: ep_at_def [abs_def])

text \<open>All three levels of the map have distinct keys.\<close>

definition endpoints_wf :: "Registrar \<Rightarrow> bool" where
  "endpoints_wf r \<longleftrightarrow>
     gm_wf (rg_endpoints r) \<and>
     (\<forall>d. gm_wf (gm_sub (rg_endpoints r) d)) \<and>
     (\<forall>d g. gm_wf (gm_sub (gm_sub (rg_endpoints r) d) g))"

lemma endpoints_wf_putEndpoint [intro]: "endpoints_wf r \<Longrightarrow> endpoints_wf (putEndpoint addr ep r)"
  by (auto simp: endpoints_wf_def putEndpoint_def Let_def)

lemma endpoints_wf_update [simp]:
  "endpoints_wf (r\<lparr>rg_pending := x\<rparr>) = endpoints_wf r"
  "endpoints_wf (r\<lparr>rg_byFingerprint := y\<rparr>) = endpoints_wf r"
  "endpoints_wf (r\<lparr>rg_preApproved := z\<rparr>) = endpoints_wf r"
  "endpoints_wf (r\<lparr>rg_nextID := u\<rparr>) = endpoints_wf r"
  "endpoints_wf (r\<lparr>rg_reachability := v\<rparr>) = endpoints_wf r"
  by (simp_all add: endpoints_wf_def)

lemma gm_get_some_sub: "gm_get m k = Some s \<Longrightarrow> gm_sub m k = s"
  by (simp add: gm_sub_def)

lemma in_allEndpoints:
  assumes "endpoints_wf r"
  shows "ep \<in> set (allEndpoints r) \<longleftrightarrow> (\<exists>d g i. ep_at r d g i = Some ep)"
proof
  assume "ep \<in> set (allEndpoints r)"
  then obtain dg ge where dg: "dg \<in> set (gm_vals (rg_endpoints r))"
    and ge: "ge \<in> set (gm_vals dg)" and ep: "ep \<in> set (gm_vals ge)"
    by (auto simp: allEndpoints_def)
  from dg assms obtain d where d: "gm_get (rg_endpoints r) d = Some dg"
    by (auto simp: endpoints_wf_def gm.in_vals)
  then have sd: "gm_sub (rg_endpoints r) d = dg" by (rule gm_get_some_sub)
  with assms have "gm_wf dg" by (auto simp: endpoints_wf_def)
  with ge obtain g where g: "gm_get dg g = Some ge" by (auto simp: gm.in_vals)
  then have sg: "gm_sub dg g = ge" by (rule gm_get_some_sub)
  with sd assms have "gm_wf ge" by (auto simp: endpoints_wf_def)
  with ep obtain i where "gm_get ge i = Some ep" by (auto simp: gm.in_vals)
  with sd sg show "\<exists>d g i. ep_at r d g i = Some ep" by (auto simp: ep_at_def)
next
  assume "\<exists>d g i. ep_at r d g i = Some ep"
  then obtain d g i where at: "gm_get (gm_sub (gm_sub (rg_endpoints r) d) g) i = Some ep"
    by (auto simp: ep_at_def)
  let ?dg = "gm_sub (rg_endpoints r) d" and ?ge = "gm_sub (gm_sub (rg_endpoints r) d) g"
  from at have "gm_get ?dg g = Some ?ge"
    by (cases "gm_get ?dg g") (auto simp: gm_sub_def [of ?dg])
  moreover from this have "gm_get (rg_endpoints r) d = Some ?dg"
    by (cases "gm_get (rg_endpoints r) d") (auto simp: gm_sub_def [of "rg_endpoints r"])
  ultimately have "?dg \<in> set (gm_vals (rg_endpoints r))" "?ge \<in> set (gm_vals ?dg)"
    "ep \<in> set (gm_vals ?ge)"
    using at assms by (auto simp: endpoints_wf_def gm.in_vals)
  then show "ep \<in> set (allEndpoints r)" by (auto simp: allEndpoints_def)
qed

lemma find_Some_in: "find p xs = Some x \<Longrightarrow> x \<in> set xs \<and> p x"
  by (auto simp: find_Some_iff)

lemma findByFingerprint_Some:
  assumes "endpoints_wf r" "findByFingerprint fp r = Some (a, ep)"
  shows "fp \<noteq> [] \<and> a = ep_Addr ep \<and> ep_Fingerprint ep = fp \<and> ep_State ep \<noteq> StateRevoked \<and>
    (\<exists>d g i. ep_at r d g i = Some ep)"
  using assms(2) find_Some_in
  by (fastforce simp: findByFingerprint_def in_allEndpoints [OF assms(1), symmetric] split: if_splits)

lemma findByFingerprint_None:
  assumes "endpoints_wf r" "findByFingerprint fp r = None" "fp \<noteq> []" "ep_at r d g i = Some ep"
    "ep_Fingerprint ep = fp"
  shows "ep_State ep = StateRevoked"
  using assms by (auto simp: findByFingerprint_def find_None_iff in_allEndpoints)

section \<open>The ID allocator\<close>

lemma unat_u16_less [simp]: "unat (x :: u16) < 65536"
  using unsigned_less [of x] by simp

text \<open>The probe sequence in natural numbers.\<close>

definition probe :: "nat \<Rightarrow> nat \<Rightarrow> nat" where
  "probe h k =
     (let c = (h + k) mod 65536; c = (if c = 0 then 1 else c)
      in if c > 65534 then c - 65534 else c)"

lemma unat_alloc_candidate: "unat (alloc_candidate hint i) = probe (unat hint) (unat i)"
proof -
  have add: "unat (hint + i) = (unat hint + unat i) mod 65536"
    by (simp add: unat_word_ariths)
  have zero: "hint + i = 0 \<longleftrightarrow> (unat hint + unat i) mod 65536 = 0"
    using add by (metis unat_0 unat_eq_zero)
  have big: "c > 65534 \<longleftrightarrow> unat c > 65534" for c :: u16
    by (simp add: word_less_nat_alt)
  have sub: "65534 < unat c \<Longrightarrow> unat (c - 65534) = unat c - 65534" for c :: u16
    by (subst unat_sub) (simp_all add: word_le_nat_alt)
  show ?thesis
    unfolding alloc_candidate_def probe_def Let_def
    by (auto simp: add zero big sub)
qed

lemma probe_range: "1 \<le> probe h k \<and> probe h k \<le> 65534"
proof -
  have "(h + k) mod 65536 < 65536" by simp
  then show ?thesis unfolding probe_def Let_def by (auto split: if_splits)
qed

lemma alloc_loop_Some:
  "alloc_loop taken hint i = Some c \<Longrightarrow> \<not> taken c \<and> (\<exists>j < 65534. c = alloc_candidate hint j)"
proof (induction taken hint i rule: alloc_loop.induct)
  case (1 taken hint i)
  then show ?case
    by (subst (asm) (2) alloc_loop.simps) (auto split: if_splits)
qed

lemma alloc_loop_None:
  "alloc_loop taken hint i = None \<longleftrightarrow> (\<forall>j < 65534. i \<le> j \<longrightarrow> taken (alloc_candidate hint j))"
proof (induction taken hint i rule: alloc_loop.induct)
  case (1 taken hint i)
  show ?case
  proof (cases "i < 65534")
    case False
    then show ?thesis by (subst alloc_loop.simps) auto
  next
    case True
    then have suc: "unat (i + 1) = Suc (unat i)"
      by (simp add: unat_word_ariths word_less_nat_alt)
    have split: "i \<le> j \<longleftrightarrow> j = i \<or> i + 1 \<le> j" for j
      using suc by (auto simp: word_le_nat_alt word_unat_eq_iff)
    show ?thesis
      using 1 True by (subst alloc_loop.simps) (auto simp: split)
  qed
qed

text \<open>The allocator's result is a free ID in range.\<close>

lemma alloc_loop_sound:
  assumes "alloc_loop taken hint 0 = Some c"
  shows "\<not> taken c" "1 \<le> unat c" "unat c \<le> 65534"
  using alloc_loop_Some [OF assms] probe_range by (auto simp: unat_alloc_candidate)

lemma alloc_loop_first:
  assumes "1 \<le> unat hint" "unat hint \<le> 65534" "\<not> taken hint"
  shows "alloc_loop taken hint 0 = Some hint"
proof -
  have "alloc_candidate hint 0 = hint"
    using assms by (simp add: word_unat_eq_iff unat_alloc_candidate probe_def Let_def)
  then show ?thesis using assms by (subst alloc_loop.simps) simp
qed

definition hintOf :: "DomainID \<Rightarrow> GroupID \<Rightarrow> Registrar \<Rightarrow> nat" where
  "hintOf d g r = (case gm_get (gm_sub (rg_nextID r) d) g of Some h \<Rightarrow> unat h | None \<Rightarrow> 0)"

lemma allocateID_frame:
  assumes "allocateID d g r = (res, r1)"
  shows "r1 = r\<lparr>rg_nextID := rg_nextID r1\<rparr>"
  using assms by (auto simp: allocateID_def Let_def split: option.splits if_splits)

lemma gm_sub_put_missing:
  "gm_sub (if gm_get m k = None then gm_put k [] m else m) k' = gm_sub m k'"
  by (auto simp: gm_sub_def)

lemma isIDTaken_nextID [simp]: "isIDTaken d g (r\<lparr>rg_nextID := m\<rparr>) = isIDTaken d g r"
  by (simp add: isIDTaken_def [abs_def])

lemma allocateID_Inr:
  assumes "allocateID d g r = (Inr c, r1)"
  shows "ep_at r d g c = None" "1 \<le> unat c" "unat c \<le> 65534"
    "hintOf d' g' r1 = (if d' = d \<and> g' = g then (if unat c = 65534 then 1 else Suc (unat c))
                        else hintOf d' g' r)"
proof -
  from assms obtain h where loop: "alloc_loop (isIDTaken d g r) h 0 = Some c"
    and r1: "rg_nextID r1 = gm_put d (gm_put g (if c + 1 > 65534 then 1 else c + 1)
       (gm_sub (rg_nextID r) d)) (if gm_get (rg_nextID r) d = None
         then gm_put d [] (rg_nextID r) else rg_nextID r)"
    by (auto simp: allocateID_def Let_def split: option.splits)
  show c: "ep_at r d g c = None" "1 \<le> unat c" "unat c \<le> 65534"
    using alloc_loop_sound [OF loop] by (auto simp: isIDTaken_ep_at)
  have suc: "unat (c + 1) = Suc (unat c)"
    using c(3) by (simp add: unat_word_ariths)
  then have "unat (if c + 1 > 65534 then 1 else c + 1) =
    (if unat c = 65534 then 1 else Suc (unat c))"
    using c(3) by (auto simp: word_less_nat_alt)
  then show "hintOf d' g' r1 =
      (if d' = d \<and> g' = g then (if unat c = 65534 then 1 else Suc (unat c)) else hintOf d' g' r)"
    by (auto simp: hintOf_def r1 gm_sub_put_missing gm_sub_def split: option.splits)
qed

lemma allocateID_next:
  assumes "hintOf d g r = n" "n \<le> 65534" "ep_at r d g (word_of_nat (max 1 n)) = None"
  shows "fst (allocateID d g r) = Inr (word_of_nat (max 1 n))"
proof -
  define raw where "raw = (case gm_get (gm_sub (rg_nextID r) d) g of Some h \<Rightarrow> h | None \<Rightarrow> 0)"
  define h where "h = (if raw = 0 then 1 else raw)"
  have "unat raw = n"
    using assms(1) by (cases "gm_get (gm_sub (rg_nextID r) d) g") (simp_all add: hintOf_def raw_def)
  moreover from this have "raw \<noteq> 0 \<Longrightarrow> 0 < n" by (metis gr0I unat_eq_zero)
  ultimately have uh: "unat h = max 1 n"
    by (cases "raw = 0") (simp_all add: h_def max_def Suc_le_eq)
  then have h: "word_of_nat (max 1 n) = h" by (metis of_nat_unat ucast_id)
  have "alloc_loop (isIDTaken d g r) h 0 = Some h"
    using assms(2,3) uh h by (intro alloc_loop_first) (simp_all add: isIDTaken_ep_at)
  then show ?thesis
    unfolding h
    by (cases "raw = 0") (simp_all add: allocateID_def Let_def h_def flip: raw_def)
qed

section \<open>Cases of \<open>registerApproved\<close>\<close>

definition claimsFor :: "pendingEnroll \<Rightarrow> EndpointAddr \<Rightarrow> time \<Rightarrow> duration \<Rightarrow> TokenClaims" where
  "claimsFor pe addr now ttl =
     \<lparr>cl_EndpointID = ea_Endpoint addr, cl_Domain = ea_Domain addr, cl_Group = ea_Group addr,
      cl_RoleFlags = ea_RoleFlags addr, cl_PublicKey = pe_PublicKey pe,
      cl_Fingerprint = pe_Fingerprint pe, cl_IssuedAt = now, cl_ExpiresAt = now + ttl,
      cl_Issuer = tokenIssuer\<rparr>"

definition newAddr :: "pendingEnroll \<Rightarrow> DomainID \<Rightarrow> GroupID \<Rightarrow> EndpointID \<Rightarrow> EndpointAddr" where
  "newAddr pe d g i =
     \<lparr>ea_Domain = d, ea_Group = g, ea_Endpoint = i, ea_RoleFlags = pe_RoleFlags pe\<rparr>"

lemma newAddr_sel [simp]:
  "ea_Domain (newAddr pe d g i) = d" "ea_Group (newAddr pe d g i) = g"
  "ea_Endpoint (newAddr pe d g i) = i" "ea_RoleFlags (newAddr pe d g i) = pe_RoleFlags pe"
  by (simp_all add: newAddr_def)

text \<open>What \<open>registerApproved\<close> did when it succeeded: reused an endpoint, or made one.\<close>

lemma registerApproved_Inr:
  assumes "registerApproved P now pe d g r = (Inr pe', r')"
  obtains (reuse) a ep where "findByFingerprint (pe_Fingerprint pe) r = Some (a, ep)" "r' = r"
      "pe' = pe\<lparr>pe_Address := a, pe_Token := ep_Token ep, pe_State := StateRegistered\<rparr>"
  | (fresh) c r1 token where "findByFingerprint (pe_Fingerprint pe) r = None"
      "countEndpoints d g r < 65534" "allocateID d g r = (Inr c, r1)"
      "SignToken P (claimsFor pe (newAddr pe d g c) now (rg_tokenTTL r)) (rg_privateKey r) = Inr token"
      "pe' = pe\<lparr>pe_Address := newAddr pe d g c, pe_Token := token, pe_State := StateRegistered\<rparr>"
      "r' = storeEndpoint (newAddr pe d g c) (pe_PublicKey pe) token (pe_Fingerprint pe) r1"
proof (cases "findByFingerprint (pe_Fingerprint pe) r")
  case (Some p)
  with assms show ?thesis
    by (cases p) (auto simp: registerApproved_def intro: reuse)
next
  case None
  with assms obtain c r1 where al: "allocateID d g r = (Inr c, r1)"
    and cnt: "countEndpoints d g r < 65534"
    by (auto simp: registerApproved_def split: if_splits prod.splits sum.splits)
  have "rg_tokenTTL r1 = rg_tokenTTL r \<and> rg_privateKey r1 = rg_privateKey r"
    using arg_cong [OF allocateID_frame [OF al], of rg_tokenTTL]
      arg_cong [OF allocateID_frame [OF al], of rg_privateKey] by simp
  with assms None al cnt show ?thesis
    by (auto simp: registerApproved_def Let_def claimsFor_def newAddr_def
        split: sum.splits intro!: fresh)
qed

text \<open>On an error the only thing that may have changed is the allocation hint.\<close>

lemma registerApproved_Inl:
  assumes "registerApproved P now pe d g r = (Inl e, r')"
  shows "r' = r\<lparr>rg_nextID := rg_nextID r'\<rparr>"
  using assms allocateID_frame
  by (auto simp: registerApproved_def Let_def split: option.splits if_splits prod.splits sum.splits)

end
