(* ===== verification/Registrar_Inv.thy ===== *)
theory Registrar_Inv
  imports Registrar_Lemmas
begin

text \<open>
  The registrar as a system of operations and its invariant. \<open>reg_inv\<close> relates the maps of the
  struct to each other: the fingerprint index is exact, every registered enrollment has its
  endpoint and every endpoint its enrollment, relays and nothing else live in domain 0, every
  stored token was signed by the registrar for that very endpoint, and only active endpoints
  are reachable. Each operation preserves it; the only side condition is that a fresh request
  ID is not in use already (the guard \<open>fresh_op\<close>; the code draws 128 random bits).
\<close>

section \<open>Operations\<close>

datatype reg_op =
    OpEnroll EnrollRequest entropy time
  | OpConfirm time EnrollConfirm
  | OpPreApprove string DomainID GroupID
  | OpApprove time string DomainID GroupID
  | OpDeny string
  | OpActivate time EndpointAddr string
  | OpRevoke EndpointAddr
  | OpObserve time EndpointAddr string string
  | OpSetRelayRoute time EndpointAddr string EndpointAddr
  | OpClearReachability EndpointAddr

fun reg_exec :: "prims \<Rightarrow> reg_op \<Rightarrow> Registrar \<Rightarrow> Registrar" where
  "reg_exec P (OpEnroll req ent now) r = snd (Enroll req ent now r)"
| "reg_exec P (OpConfirm now c) r = snd (ConfirmEnrollment P now c r)"
| "reg_exec P (OpPreApprove fp d g) r = snd (PreApprove fp d g r)"
| "reg_exec P (OpApprove now rid d g) r = snd (ApproveEnrollment P now rid d g r)"
| "reg_exec P (OpDeny rid) r = snd (DenyEnrollment rid r)"
| "reg_exec P (OpActivate now addr token) r = snd (ActivateEndpoint P now addr token r)"
| "reg_exec P (OpRevoke addr) r = snd (RevokeEndpoint addr r)"
| "reg_exec P (OpObserve now addr obs proto) r = snd (ObserveEndpoint now addr obs proto r)"
| "reg_exec P (OpSetRelayRoute now addr token relay) r = snd (SetRelayRoute P now addr token relay r)"
| "reg_exec P (OpClearReachability addr) r = ClearReachability addr r"

fun fresh_op :: "reg_op \<Rightarrow> Registrar \<Rightarrow> bool" where
  "fresh_op (OpEnroll req ent now) r =
     (case randomRequestID ent of None \<Rightarrow> True | Some rid \<Rightarrow> gm_get (rg_pending r) rid = None)"
| "fresh_op _ r = True"

section \<open>The invariant\<close>

definition enrollment_ok :: "string \<Rightarrow> pendingEnroll \<Rightarrow> bool" where
  "enrollment_ok rid pe \<longleftrightarrow>
     pe_RequestID pe = rid \<and> RoleOf (pe_RoleFlags pe) \<noteq> 0 \<and>
     length (pe_PublicKey pe) = PublicKeySize \<and>
     (RoleOf (pe_RoleFlags pe) \<noteq> RoleRelay \<longrightarrow> pe_Fingerprint pe \<noteq> []) \<and>
     pe_State pe \<in> {StateChallengeIssued, StatePending, StateRegistered, StateDenied} \<and>
     (RoleOf (pe_RoleFlags pe) = RoleRelay \<longrightarrow> pe_State pe \<noteq> StatePending)"

definition index_ok :: "Registrar \<Rightarrow> bool" where
  "index_ok r \<longleftrightarrow> (\<forall>fp rid. gm_get (rg_byFingerprint r) fp = Some rid \<longleftrightarrow>
     fp \<noteq> [] \<and> (\<exists>pe. gm_get (rg_pending r) rid = Some pe \<and> pe_Fingerprint pe = fp))"

text \<open>The claims of an endpoint's token, given the time it was issued and its lifetime.\<close>

definition epClaims :: "RegisteredEndpoint \<Rightarrow> time \<Rightarrow> duration \<Rightarrow> TokenClaims" where
  "epClaims ep now ttl =
     \<lparr>cl_EndpointID = ea_Endpoint (ep_Addr ep), cl_Domain = ea_Domain (ep_Addr ep),
      cl_Group = ea_Group (ep_Addr ep), cl_RoleFlags = ea_RoleFlags (ep_Addr ep),
      cl_PublicKey = ep_PublicKey ep, cl_Fingerprint = ep_Fingerprint ep, cl_IssuedAt = now,
      cl_ExpiresAt = now + ttl, cl_Issuer = tokenIssuer\<rparr>"

definition endpoint_ok ::
    "prims \<Rightarrow> Registrar \<Rightarrow> DomainID \<Rightarrow> GroupID \<Rightarrow> EndpointID \<Rightarrow> RegisteredEndpoint \<Rightarrow> bool" where
  "endpoint_ok P r d g i ep \<longleftrightarrow>
     ea_Domain (ep_Addr ep) = d \<and> ea_Group (ep_Addr ep) = g \<and> ea_Endpoint (ep_Addr ep) = i \<and>
     1 \<le> unat i \<and> unat i \<le> 65534 \<and>
     RoleOf (ea_RoleFlags (ep_Addr ep)) \<noteq> 0 \<and>
     (RoleOf (ea_RoleFlags (ep_Addr ep)) = RoleRelay \<longleftrightarrow> d = RelayDomain) \<and>
     (d = RelayDomain \<longrightarrow> g = RelayGroup) \<and>
     length (ep_PublicKey ep) = PublicKeySize \<and>
     ep_State ep \<in> {StateRegistered, StateActive, StateRevoked} \<and>
     (\<exists>now. SignToken P (epClaims ep now (rg_tokenTTL r)) (rg_privateKey r) = Inr (ep_Token ep))"

definition same_identity :: "pendingEnroll \<Rightarrow> RegisteredEndpoint \<Rightarrow> bool" where
  "same_identity pe ep \<longleftrightarrow>
     pe_State pe = StateRegistered \<and> ep_Addr ep = pe_Address pe \<and> ep_Token ep = pe_Token pe \<and>
     ep_Fingerprint ep = pe_Fingerprint pe \<and> ep_PublicKey ep = pe_PublicKey pe \<and>
     ea_RoleFlags (ep_Addr ep) = pe_RoleFlags pe"

definition link_ok :: "Registrar \<Rightarrow> bool" where
  "link_ok r \<longleftrightarrow>
     (\<forall>rid pe. gm_get (rg_pending r) rid = Some pe \<and> pe_State pe = StateRegistered \<longrightarrow>
        (\<exists>ep. getEndpoint (pe_Address pe) r = Some ep \<and> same_identity pe ep)) \<and>
     (\<forall>d g i ep. ep_at r d g i = Some ep \<longrightarrow>
        (\<exists>rid pe. gm_get (rg_pending r) rid = Some pe \<and> same_identity pe ep))"

definition reach_ok :: "Registrar \<Rightarrow> bool" where
  "reach_ok r \<longleftrightarrow> (\<forall>key info. gm_get (rg_reachability r) key = Some info \<longrightarrow>
     key = AddrKey (rc_Addr info) \<and> isActive (rc_Addr info) r)"

definition reg_inv :: "prims \<Rightarrow> Registrar \<Rightarrow> bool" where
  "reg_inv P r \<longleftrightarrow>
     endpoints_wf r \<and> gm_wf (rg_pending r) \<and>
     (\<forall>rid pe. gm_get (rg_pending r) rid = Some pe \<longrightarrow> enrollment_ok rid pe) \<and>
     index_ok r \<and>
     (\<forall>d g i ep. ep_at r d g i = Some ep \<longrightarrow> endpoint_ok P r d g i ep) \<and>
     link_ok r \<and>
     (\<forall>fp m. gm_get (rg_preApproved r) fp = Some m \<longrightarrow> am_Domain m \<noteq> RelayDomain) \<and>
     reach_ok r"

lemma reg_invI:
  assumes "endpoints_wf r" "gm_wf (rg_pending r)"
    "\<And>rid pe. gm_get (rg_pending r) rid = Some pe \<Longrightarrow> enrollment_ok rid pe"
    "index_ok r"
    "\<And>d g i ep. ep_at r d g i = Some ep \<Longrightarrow> endpoint_ok P r d g i ep"
    "link_ok r"
    "\<And>fp m. gm_get (rg_preApproved r) fp = Some m \<Longrightarrow> am_Domain m \<noteq> RelayDomain"
    "reach_ok r"
  shows "reg_inv P r"
  using assms by (auto simp: reg_inv_def)

lemma reg_invD:
  assumes "reg_inv P r"
  shows "endpoints_wf r" "gm_wf (rg_pending r)"
    "gm_get (rg_pending r) rid = Some pe \<Longrightarrow> enrollment_ok rid pe"
    "index_ok r"
    "ep_at r d g i = Some ep \<Longrightarrow> endpoint_ok P r d g i ep"
    "link_ok r"
    "gm_get (rg_preApproved r) fp = Some m \<Longrightarrow> am_Domain m \<noteq> RelayDomain"
    "reach_ok r"
  using assms by (auto simp: reg_inv_def)

lemma index_same_rid:
  assumes "index_ok r" "gm_get (rg_pending r) rid = Some pe" "gm_get (rg_pending r) rid' = Some pe'"
    "pe_Fingerprint pe = pe_Fingerprint pe'" "pe_Fingerprint pe \<noteq> []"
  shows "rid = rid'"
proof -
  from assms have "gm_get (rg_byFingerprint r) (pe_Fingerprint pe) = Some rid"
    "gm_get (rg_byFingerprint r) (pe_Fingerprint pe) = Some rid'"
    unfolding index_ok_def by auto
  then show ?thesis by simp
qed

lemma index_okD:
  "index_ok r \<Longrightarrow> gm_get (rg_byFingerprint r) fp = Some rid \<longleftrightarrow>
     fp \<noteq> [] \<and> (\<exists>pe. gm_get (rg_pending r) rid = Some pe \<and> pe_Fingerprint pe = fp)"
  by (simp add: index_ok_def)

lemma link_okI:
  assumes "\<And>rid pe. gm_get (rg_pending r) rid = Some pe \<Longrightarrow> pe_State pe = StateRegistered \<Longrightarrow>
      \<exists>ep. getEndpoint (pe_Address pe) r = Some ep \<and> same_identity pe ep"
    and "\<And>d g i ep. ep_at r d g i = Some ep \<Longrightarrow>
      \<exists>rid pe. gm_get (rg_pending r) rid = Some pe \<and> same_identity pe ep"
  shows "link_ok r"
  using assms unfolding link_ok_def by blast

lemma link_okD1:
  assumes "link_ok r" "gm_get (rg_pending r) rid = Some pe" "pe_State pe = StateRegistered"
  obtains ep where "getEndpoint (pe_Address pe) r = Some ep" "same_identity pe ep"
  using assms unfolding link_ok_def by blast

lemma link_okD2:
  assumes "link_ok r" "ep_at r d g i = Some ep"
  obtains rid pe where "gm_get (rg_pending r) rid = Some pe" "same_identity pe ep"
  using assms unfolding link_ok_def by blast

text \<open>An enrollment that is not registered yet has no endpoint, not even a revoked one.\<close>

lemma unregistered_no_endpoint:
  assumes "reg_inv P r" "gm_get (rg_pending r) rid = Some pe" "pe_State pe \<noteq> StateRegistered"
    "pe_Fingerprint pe \<noteq> []" "ep_at r d g i = Some ep"
  shows "ep_Fingerprint ep \<noteq> pe_Fingerprint pe"
proof
  assume eq: "ep_Fingerprint ep = pe_Fingerprint pe"
  obtain rid' pe' where
    pe': "gm_get (rg_pending r) rid' = Some pe'" "same_identity pe' ep"
    using link_okD2 [OF reg_invD(6) [OF assms(1)] assms(5)] .
  then have "rid = rid'"
    using index_same_rid [OF reg_invD(4) [OF assms(1)] assms(2) pe'(1)] assms(4) eq
    by (simp add: same_identity_def)
  with pe' assms(2,3) show False by (simp add: same_identity_def)
qed

lemma unregistered_find_None:
  assumes "reg_inv P r" "gm_get (rg_pending r) rid = Some pe" "pe_State pe \<noteq> StateRegistered"
  shows "findByFingerprint (pe_Fingerprint pe) r = None"
proof (rule ccontr)
  assume "findByFingerprint (pe_Fingerprint pe) r \<noteq> None"
  then obtain a ep where "findByFingerprint (pe_Fingerprint pe) r = Some (a, ep)" by auto
  from findByFingerprint_Some [OF reg_invD(1) [OF assms(1)] this]
    unregistered_no_endpoint [OF assms] show False by auto
qed

section \<open>Preservation\<close>

text \<open>Changes to one field that the invariant does not mention, or mentions by itself.\<close>

lemma endpoint_ok_update [simp]:
  "endpoint_ok P (r\<lparr>rg_pending := x\<rparr>) = endpoint_ok P r"
  "endpoint_ok P (r\<lparr>rg_byFingerprint := y\<rparr>) = endpoint_ok P r"
  "endpoint_ok P (r\<lparr>rg_preApproved := z\<rparr>) = endpoint_ok P r"
  "endpoint_ok P (r\<lparr>rg_nextID := u\<rparr>) = endpoint_ok P r"
  "endpoint_ok P (r\<lparr>rg_reachability := v\<rparr>) = endpoint_ok P r"
  "endpoint_ok P (putEndpoint a e r) = endpoint_ok P r"
  by (simp_all add: endpoint_ok_def [abs_def])

lemma getEndpoint_update [simp]:
  "getEndpoint a (r\<lparr>rg_pending := x\<rparr>) = getEndpoint a r"
  "getEndpoint a (r\<lparr>rg_byFingerprint := y\<rparr>) = getEndpoint a r"
  "getEndpoint a (r\<lparr>rg_preApproved := z\<rparr>) = getEndpoint a r"
  "getEndpoint a (r\<lparr>rg_nextID := u\<rparr>) = getEndpoint a r"
  "getEndpoint a (r\<lparr>rg_reachability := v\<rparr>) = getEndpoint a r"
  by (simp_all add: getEndpoint_ep_at)

lemma isActive_update [simp]:
  "isActive a (r\<lparr>rg_pending := x\<rparr>) = isActive a r"
  "isActive a (r\<lparr>rg_byFingerprint := y\<rparr>) = isActive a r"
  "isActive a (r\<lparr>rg_preApproved := z\<rparr>) = isActive a r"
  "isActive a (r\<lparr>rg_nextID := u\<rparr>) = isActive a r"
  "isActive a (r\<lparr>rg_reachability := v\<rparr>) = isActive a r"
  by (simp_all add: isActive_def)

lemma link_ok_update [simp]:
  "link_ok (r\<lparr>rg_byFingerprint := y\<rparr>) = link_ok r"
  "link_ok (r\<lparr>rg_preApproved := z\<rparr>) = link_ok r"
  "link_ok (r\<lparr>rg_nextID := u\<rparr>) = link_ok r"
  "link_ok (r\<lparr>rg_reachability := v\<rparr>) = link_ok r"
  unfolding link_ok_def by simp_all

lemma index_ok_update [simp]:
  "index_ok (r\<lparr>rg_preApproved := z\<rparr>) = index_ok r"
  "index_ok (r\<lparr>rg_nextID := u\<rparr>) = index_ok r"
  "index_ok (r\<lparr>rg_reachability := v\<rparr>) = index_ok r"
  "index_ok (putEndpoint a e r) = index_ok r"
  unfolding index_ok_def by simp_all

lemma reg_inv_nextID: "reg_inv P r \<Longrightarrow> reg_inv P (r\<lparr>rg_nextID := m\<rparr>)"
  by (simp add: reg_inv_def reach_ok_def)

lemma reg_inv_reachability:
  "reg_inv P r \<Longrightarrow> reach_ok (r\<lparr>rg_reachability := m\<rparr>) \<Longrightarrow> reg_inv P (r\<lparr>rg_reachability := m\<rparr>)"
  by (simp add: reg_inv_def)

lemma reg_inv_init: "NewRegistrar key ttl = Inr r \<Longrightarrow> reg_inv P r"
  by (auto simp: NewRegistrar_def reg_inv_def endpoints_wf_def ep_at_def index_ok_def link_ok_def
      reach_ok_def split: option.splits)

text \<open>A change of an enrollment's state between the states that have no endpoint.\<close>

lemma reg_inv_set_state:
  assumes inv: "reg_inv P r" and pe: "gm_get (rg_pending r) rid = Some pe"
    and old: "pe_State pe \<noteq> StateRegistered"
    and new: "st \<in> {StatePending, StateDenied}"
      "RoleOf (pe_RoleFlags pe) = RoleRelay \<Longrightarrow> st \<noteq> StatePending"
  shows "reg_inv P (r\<lparr>rg_pending := gm_put rid (pe\<lparr>pe_State := st\<rparr>) (rg_pending r)\<rparr>)"
    (is "reg_inv P ?r")
proof (rule reg_invI)
  fix rid' pe'
  assume "gm_get (rg_pending ?r) rid' = Some pe'"
  then show "enrollment_ok rid' pe'"
    using reg_invD(3) [OF inv] pe new by (auto simp: enrollment_ok_def split: if_splits)
next
  show "index_ok ?r"
    using reg_invD(4) [OF inv] pe by (auto simp: index_ok_def)
next
  show "link_ok ?r"
  proof (rule link_okI)
    fix rid' pe'
    assume "gm_get (rg_pending ?r) rid' = Some pe'" "pe_State pe' = StateRegistered"
    with new(1) have "gm_get (rg_pending r) rid' = Some pe'" by (auto split: if_splits)
    then show "\<exists>ep. getEndpoint (pe_Address pe') ?r = Some ep \<and> same_identity pe' ep"
      using link_okD1 [OF reg_invD(6) [OF inv]] \<open>pe_State pe' = StateRegistered\<close> by simp metis
  next
    fix d g i ep
    assume "ep_at ?r d g i = Some ep"
    then obtain rid' pe' where "gm_get (rg_pending r) rid' = Some pe'" "same_identity pe' ep"
      using link_okD2 [OF reg_invD(6) [OF inv]] by simp metis
    moreover from this pe old have "rid' \<noteq> rid" by (auto simp: same_identity_def)
    ultimately show "\<exists>rid' pe'. gm_get (rg_pending ?r) rid' = Some pe' \<and> same_identity pe' ep"
      by auto
  qed
qed (use inv in \<open>auto simp: reg_inv_def reach_ok_def\<close>)

lemma reg_inv_enroll:
  assumes inv: "reg_inv P r" and fresh: "gm_get (rg_pending r) rid = None"
    and pe: "enrollment_ok rid pe" "pe_State pe = StateChallengeIssued" "pe_Fingerprint pe = fp"
    and unused: "existingEnrollment fp r = None"
  shows "reg_inv P (r\<lparr>rg_pending := gm_put rid pe (rg_pending r),
      rg_byFingerprint := (if fp \<noteq> [] then gm_put fp rid (rg_byFingerprint r)
                           else rg_byFingerprint r)\<rparr>)" (is "reg_inv P ?r")
proof (rule reg_invI)
  note ix = index_okD [OF reg_invD(4) [OF inv]]
  have none: "gm_get (rg_byFingerprint r) fp = None" if "fp \<noteq> []"
    using unused that ix [THEN iffD1]
    by (cases "gm_get (rg_byFingerprint r) fp") (fastforce simp: existingEnrollment_def)+
  have other: "pe_Fingerprint pe' = fp \<Longrightarrow> fp = []" if "gm_get (rg_pending r) rid' = Some pe'" for rid' pe'
    using ix [of fp rid'] none that by auto
  show "index_ok ?r"
    unfolding index_ok_def using none fresh pe(3) other by (auto simp: ix)
next
  show "link_ok ?r"
  proof (rule link_okI)
    fix rid' pe'
    assume "gm_get (rg_pending ?r) rid' = Some pe'" "pe_State pe' = StateRegistered"
    then show "\<exists>ep. getEndpoint (pe_Address pe') ?r = Some ep \<and> same_identity pe' ep"
      using link_okD1 [OF reg_invD(6) [OF inv], of rid' pe'] pe(2) by (auto split: if_splits)
  next
    fix d g i ep
    assume "ep_at ?r d g i = Some ep"
    then obtain rid' pe' where "gm_get (rg_pending r) rid' = Some pe'" "same_identity pe' ep"
      using link_okD2 [OF reg_invD(6) [OF inv]] by simp metis
    with fresh show "\<exists>rid' pe'. gm_get (rg_pending ?r) rid' = Some pe' \<and> same_identity pe' ep"
      by (intro exI [of _ rid'] exI [of _ pe']) auto
  qed
qed (use inv pe(1) in \<open>auto simp: reg_inv_def reach_ok_def split: if_splits\<close>)

lemma reg_inv_failed_challenge:
  assumes inv: "reg_inv P r" and pe: "gm_get (rg_pending r) rid = Some pe"
    and old: "pe_State pe \<noteq> StateRegistered"
  shows "reg_inv P (r\<lparr>rg_pending := gm_del rid (rg_pending r),
      rg_byFingerprint := (if pe_Fingerprint pe \<noteq> [] then gm_del (pe_Fingerprint pe) (rg_byFingerprint r)
                           else rg_byFingerprint r)\<rparr>)" (is "reg_inv P ?r")
proof (rule reg_invI)
  note ix = index_okD [OF reg_invD(4) [OF inv]]
  have same: "rid' = rid"
    if "gm_get (rg_pending r) rid' = Some pe'" "pe_Fingerprint pe' = pe_Fingerprint pe"
      "pe_Fingerprint pe \<noteq> []" for rid' pe'
    using index_same_rid [OF reg_invD(4) [OF inv] that(1) pe] that by simp
  show "index_ok ?r"
    unfolding index_ok_def
  proof (intro allI)
    fix fp' rid'
    show "gm_get (rg_byFingerprint ?r) fp' = Some rid' \<longleftrightarrow>
        fp' \<noteq> [] \<and> (\<exists>pe. gm_get (rg_pending ?r) rid' = Some pe \<and> pe_Fingerprint pe = fp')"
      using ix [of fp' rid'] pe same [of rid'] by (cases "rid' = rid") auto
  qed
next
  show "link_ok ?r"
  proof (rule link_okI)
    fix rid' pe'
    assume "gm_get (rg_pending ?r) rid' = Some pe'" "pe_State pe' = StateRegistered"
    then show "\<exists>ep. getEndpoint (pe_Address pe') ?r = Some ep \<and> same_identity pe' ep"
      using link_okD1 [OF reg_invD(6) [OF inv], of rid' pe'] by (auto split: if_splits)
  next
    fix d g i ep
    assume "ep_at ?r d g i = Some ep"
    then obtain rid' pe' where "gm_get (rg_pending r) rid' = Some pe'" "same_identity pe' ep"
      using link_okD2 [OF reg_invD(6) [OF inv]] by simp metis
    moreover from this pe old have "rid' \<noteq> rid" by (auto simp: same_identity_def)
    ultimately show "\<exists>rid' pe'. gm_get (rg_pending ?r) rid' = Some pe' \<and> same_identity pe' ep"
      by auto
  qed
qed (use inv in \<open>auto simp: reg_inv_def reach_ok_def split: if_splits\<close>)

section \<open>Preservation: endpoint records\<close>

lemma getEndpoint_putEndpoint:
  "getEndpoint a (putEndpoint addr ep r) = (if same_endpoint a addr then Some ep else getEndpoint a r)"
  by (auto simp: getEndpoint_ep_at ep_at_putEndpoint same_endpoint_def)

lemma getEndpoint_cong: "same_endpoint a b \<Longrightarrow> getEndpoint a r = getEndpoint b r"
  by (simp add: getEndpoint_ep_at same_endpoint_def)

lemma isActive_putEndpoint:
  "isActive a (putEndpoint addr ep r) =
     (if same_endpoint a addr then ep_State ep = StateActive else isActive a r)"
  by (auto simp: isActive_def getEndpoint_putEndpoint)

lemma epClaims_state [simp]: "epClaims (ep\<lparr>ep_State := st\<rparr>) now ttl = epClaims ep now ttl"
  by (simp add: epClaims_def)

lemma epClaims_new [simp]:
  "epClaims \<lparr>ep_Addr = addr, ep_PublicKey = pe_PublicKey pe, ep_State = st, ep_Token = t,
     ep_Fingerprint = pe_Fingerprint pe\<rparr> now ttl = claimsFor pe addr now ttl"
  by (simp add: epClaims_def claimsFor_def)

lemma same_identity_state [simp]:
  "same_identity pe (ep\<lparr>ep_State := st\<rparr>) = same_identity pe ep"
  by (simp add: same_identity_def)

lemma endpoint_ok_state:
  "endpoint_ok P r d g i ep \<Longrightarrow> st \<in> {StateRegistered, StateActive, StateRevoked} \<Longrightarrow>
   endpoint_ok P r d g i (ep\<lparr>ep_State := st\<rparr>)"
  unfolding endpoint_ok_def by simp

text \<open>An endpoint's state moves to active or revoked; its identity does not change.\<close>

lemma reg_inv_ep_state:
  assumes inv: "reg_inv P r" and ep: "getEndpoint addr r = Some ep"
    and st: "st \<in> {StateActive, StateRevoked}"
    and reach: "reach_ok (putEndpoint addr (ep\<lparr>ep_State := st\<rparr>) r\<lparr>rg_reachability := m\<rparr>)"
  shows "reg_inv P (putEndpoint addr (ep\<lparr>ep_State := st\<rparr>) r\<lparr>rg_reachability := m\<rparr>)"
    (is "reg_inv P ?r")
proof (rule reg_invI)
  fix d g i e
  assume "ep_at ?r d g i = Some e"
  then show "endpoint_ok P ?r d g i e"
    using reg_invD(5) [OF inv] ep [unfolded getEndpoint_ep_at] st
    by (auto simp: ep_at_putEndpoint intro!: endpoint_ok_state split: if_splits)
next
  show "link_ok ?r"
  proof (rule link_okI)
    fix rid pe
    assume "gm_get (rg_pending ?r) rid = Some pe" "pe_State pe = StateRegistered"
    then obtain e where "getEndpoint (pe_Address pe) r = Some e" "same_identity pe e"
      using link_okD1 [OF reg_invD(6) [OF inv]] by simp metis
    with ep getEndpoint_cong [of "pe_Address pe" addr r]
    show "\<exists>e. getEndpoint (pe_Address pe) ?r = Some e \<and> same_identity pe e"
      by (auto simp: getEndpoint_putEndpoint)
  next
    fix d g i e
    assume "ep_at ?r d g i = Some e"
    then obtain e' where e': "ep_at r d g i = Some e'" "\<And>pe. same_identity pe e' = same_identity pe e"
      using ep [unfolded getEndpoint_ep_at] by (auto simp: ep_at_putEndpoint split: if_splits)
    from link_okD2 [OF reg_invD(6) [OF inv] e'(1)] e'(2)
    show "\<exists>rid pe. gm_get (rg_pending ?r) rid = Some pe \<and> same_identity pe e"
      by simp metis
  qed
qed (use inv reach in \<open>auto simp: reg_inv_def\<close>)

text \<open>A new endpoint for an enrollment that had none.\<close>

lemma reg_inv_new_endpoint:
  assumes inv: "reg_inv P r" and pe: "gm_get (rg_pending r) rid = Some pe"
    and old: "pe_State pe \<noteq> StateRegistered"
    and addr: "addr = newAddr pe d g c" "ep_at r d g c = None" "1 \<le> unat c" "unat c \<le> 65534"
    and dom: "RoleOf (pe_RoleFlags pe) = RoleRelay \<longleftrightarrow> d = RelayDomain" "d = RelayDomain \<Longrightarrow> g = RelayGroup"
    and tok: "SignToken P (claimsFor pe addr now (rg_tokenTTL r)) (rg_privateKey r) = Inr token"
  shows "reg_inv P (storeEndpoint addr (pe_PublicKey pe) token (pe_Fingerprint pe) r
     \<lparr>rg_pending := gm_put rid (pe\<lparr>pe_Address := addr, pe_Token := token,
        pe_State := StateRegistered\<rparr>) (rg_pending r)\<rparr>)" (is "reg_inv P ?r")
proof (rule reg_invI)
  note peok = reg_invD(3) [OF inv pe]
  let ?e = "\<lparr>ep_Addr = addr, ep_PublicKey = pe_PublicKey pe, ep_State = StateRegistered,
    ep_Token = token, ep_Fingerprint = pe_Fingerprint pe\<rparr>"
  have new: "endpoint_ok P r d g c ?e"
    unfolding endpoint_ok_def epClaims_new using peok addr dom tok
    by (auto simp: enrollment_ok_def)
  fix d' g' i' e
  assume "ep_at ?r d' g' i' = Some e"
  then show "endpoint_ok P ?r d' g' i' e"
    using reg_invD(5) [OF inv] new addr(1)
    by (auto simp: storeEndpoint_def ep_at_putEndpoint split: if_splits)
next
  show "index_ok ?r"
    using reg_invD(4) [OF inv] pe by (auto simp: index_ok_def storeEndpoint_def)
next
  fix rid' pe'
  assume "gm_get (rg_pending ?r) rid' = Some pe'"
  then show "enrollment_ok rid' pe'"
    using reg_invD(3) [OF inv] pe by (auto simp: enrollment_ok_def split: if_splits)
next
  show "link_ok ?r"
  proof (rule link_okI)
    fix rid' pe'
    assume new: "gm_get (rg_pending ?r) rid' = Some pe'" "pe_State pe' = StateRegistered"
    show "\<exists>e. getEndpoint (pe_Address pe') ?r = Some e \<and> same_identity pe' e"
    proof (cases "rid' = rid")
      case True
      with new addr(1) show ?thesis
        by (auto simp: storeEndpoint_def getEndpoint_putEndpoint same_identity_def)
    next
      case False
      with new obtain e where e: "getEndpoint (pe_Address pe') r = Some e" "same_identity pe' e"
        using link_okD1 [OF reg_invD(6) [OF inv]] by (simp split: if_splits) metis
      moreover from e addr have "\<not> same_endpoint (pe_Address pe') addr"
        by (auto simp: getEndpoint_ep_at same_endpoint_def)
      ultimately show ?thesis
        by (simp add: storeEndpoint_def getEndpoint_putEndpoint)
    qed
  next
    fix d' g' i' e
    assume e: "ep_at ?r d' g' i' = Some e"
    show "\<exists>rid' pe'. gm_get (rg_pending ?r) rid' = Some pe' \<and> same_identity pe' e"
    proof (cases "d' = d \<and> g' = g \<and> i' = c")
      case True
      with e addr(1) show ?thesis
        by (intro exI [of _ rid]) (auto simp: storeEndpoint_def ep_at_putEndpoint same_identity_def)
    next
      case False
      with e addr(1) have "ep_at r d' g' i' = Some e"
        by (auto simp: storeEndpoint_def ep_at_putEndpoint split: if_splits)
      then obtain rid' pe' where "gm_get (rg_pending r) rid' = Some pe'" "same_identity pe' e"
        using link_okD2 [OF reg_invD(6) [OF inv]] by metis
      moreover from this pe old have "rid' \<noteq> rid" by (auto simp: same_identity_def)
      ultimately show ?thesis by auto
    qed
  qed
next
  have "\<not> same_endpoint a addr" if "isActive a r" for a
    using that addr(1,2) by (auto simp: isActive_def getEndpoint_ep_at same_endpoint_def)
  then show "reach_ok ?r"
    using reg_invD(8) [OF inv]
    by (auto simp: reach_ok_def storeEndpoint_def isActive_putEndpoint)
qed (use inv in \<open>auto simp: reg_inv_def storeEndpoint_def\<close>)

lemma approveStored_inv:
  assumes inv: "reg_inv P r" and pe: "gm_get (rg_pending r) rid = Some pe"
    and old: "pe_State pe \<noteq> StateRegistered"
    and dom: "RoleOf (pe_RoleFlags pe) = RoleRelay \<longleftrightarrow> d = RelayDomain" "d = RelayDomain \<Longrightarrow> g = RelayGroup"
  shows "reg_inv P (snd (approveStored P now rid pe d g r))"
proof (cases "registerApproved P now pe d g r")
  case (Pair res r1)
  show ?thesis
  proof (cases res)
    case (Inl e)
    with Pair show ?thesis
      using registerApproved_Inl [of P now pe d g r e r1] reg_inv_nextID [OF inv, of "rg_nextID r1"]
      by (simp add: approveStored_def)
  next
    case (Inr pe')
    with Pair have ok: "registerApproved P now pe d g r = (Inr pe', r1)" by simp
    from ok show ?thesis
    proof (cases rule: registerApproved_Inr)
      case (reuse a ep)
      with unregistered_find_None [OF inv pe old] show ?thesis by simp
    next
      case (fresh c r2 token)
      let ?r = "r\<lparr>rg_nextID := rg_nextID r2\<rparr>"
      have r2: "r2 = ?r" by (rule allocateID_frame [OF fresh(3)])
      have pend: "rg_pending r2 = rg_pending r" by (subst r2) simp
      have "reg_inv P ?r" by (rule reg_inv_nextID [OF inv])
      then have "reg_inv P (storeEndpoint (newAddr pe d g c) (pe_PublicKey pe) token (pe_Fingerprint pe) ?r
        \<lparr>rg_pending := gm_put rid pe' (rg_pending ?r)\<rparr>)"
        unfolding fresh(5) using fresh(4) allocateID_Inr(1-3) [OF fresh(3)] pe dom
        by (intro reg_inv_new_endpoint [OF _ _ old refl, where g = g and now = now]) auto
      with r2 ok fresh(6) pend show ?thesis
        by (simp add: approveStored_def storeEndpoint_def)
    qed
  qed
qed

section \<open>Every operation preserves the invariant\<close>

lemma snd_result_case [simp]:
  "snd (case x of (Inl e, r1) \<Rightarrow> (Inl e, r1) | (Inr p, r1) \<Rightarrow> (Inr (f p), r1)) = snd x"
  by (simp split: prod.splits sum.splits)

lemma Enroll_inv:
  assumes inv: "reg_inv P r" and fresh: "fresh_op (OpEnroll req ent now) r"
  shows "reg_inv P (snd (Enroll req ent now r))"
proof (cases "snd (Enroll req ent now r) = r")
  case False
  let ?fp = "req_Fingerprint req"
  let ?pe = "\<lambda>rid nonce. \<lparr>pe_RequestID = rid, pe_PublicKey = req_PublicKey req,
    pe_Fingerprint = ?fp, pe_RoleFlags = req_RoleFlags req, pe_Challenge = nonce,
    pe_CreatedAt = now, pe_State = StateChallengeIssued, pe_Address = zero_addr, pe_Token = []\<rparr>"
  from False obtain nonce rid where rid: "randomRequestID ent = Some rid"
    and unused: "existingEnrollment ?fp r = None"
    and ok: "enrollment_ok rid (?pe rid nonce)"
    and eq: "snd (Enroll req ent now r) = r\<lparr>rg_pending := gm_put rid (?pe rid nonce) (rg_pending r),
      rg_byFingerprint := (if ?fp \<noteq> [] then gm_put ?fp rid (rg_byFingerprint r)
                           else rg_byFingerprint r)\<rparr>"
    by (auto simp: Enroll_def Let_def enrollment_ok_def simp del: if_split_asm if_split
        split: option.splits if_split_asm)
  have "gm_get (rg_pending r) rid = None" using fresh rid by simp
  from reg_inv_enroll [OF inv this ok _ _ unused] show ?thesis by (simp add: eq)
qed (simp add: inv)

lemma ConfirmEnrollment_inv:
  assumes "reg_inv P r"
  shows "reg_inv P (snd (ConfirmEnrollment P now c r))"
proof (cases "gm_get (rg_pending r) (conf_RequestID c)")
  case None
  with assms show ?thesis by (simp add: ConfirmEnrollment_def Let_def)
next
  case (Some pe)
  let ?rid = "conf_RequestID c"
  consider "pe_State pe \<noteq> StateChallengeIssued"
    | "pe_State pe = StateChallengeIssued"
      "\<not> ed_Verify P (pe_PublicKey pe) (pe_Challenge pe) (conf_Signature c)"
    | "pe_State pe = StateChallengeIssued"
      "ed_Verify P (pe_PublicKey pe) (pe_Challenge pe) (conf_Signature c)"
    by blast
  then show ?thesis
  proof cases
    case 1
    with assms Some show ?thesis by (simp add: ConfirmEnrollment_def Let_def)
  next
    case 2
    with reg_inv_failed_challenge [OF assms Some] Some show ?thesis
      by (simp add: ConfirmEnrollment_def Let_def)
  next
    case 3
    then have st: "pe_State pe \<noteq> StateRegistered" by simp
    show ?thesis
    proof (cases "RoleOf (pe_RoleFlags pe) = RoleRelay")
      case True
      with approveStored_inv [OF assms Some st, of RelayDomain RelayGroup now] Some 3 show ?thesis
        by (simp add: ConfirmEnrollment_def Let_def)
    next
      case False
      show ?thesis
      proof (cases "gm_get (rg_preApproved r) (pe_Fingerprint pe)")
        case None
        with reg_inv_set_state [OF assms Some st, of StatePending] Some 3 False show ?thesis
          by (simp add: ConfirmEnrollment_def Let_def)
      next
        case (Some m)
        with approveStored_inv [OF assms \<open>gm_get (rg_pending r) ?rid = Some pe\<close> st,
            of "am_Domain m" "am_Group m" now] \<open>gm_get (rg_pending r) ?rid = Some pe\<close> 3 False
          reg_invD(7) [OF assms Some]
        show ?thesis
          by (simp add: ConfirmEnrollment_def Let_def)
      qed
    qed
  qed
qed

lemma PreApprove_inv: "reg_inv P r \<Longrightarrow> reg_inv P (snd (PreApprove fp d g r))"
  by (auto simp: PreApprove_def reg_inv_def reach_ok_def index_ok_def link_ok_def)

lemma ApproveEnrollment_inv:
  assumes "reg_inv P r"
  shows "reg_inv P (snd (ApproveEnrollment P now rid d g r))"
proof (cases "gm_get (rg_pending r) rid")
  case None
  with assms show ?thesis by (simp add: ApproveEnrollment_def)
next
  case (Some pe)
  show ?thesis
  proof (cases "pe_State pe = StatePending \<and> d \<noteq> RelayDomain")
    case True
    with reg_invD(3) [OF assms Some] have "RoleOf (pe_RoleFlags pe) \<noteq> RoleRelay"
      by (auto simp: enrollment_ok_def)
    with True approveStored_inv [OF assms Some, of d g now] Some show ?thesis
      by (simp add: ApproveEnrollment_def)
  next
    case False
    with assms Some show ?thesis by (auto simp: ApproveEnrollment_def)
  qed
qed

lemma DenyEnrollment_inv:
  assumes "reg_inv P r"
  shows "reg_inv P (snd (DenyEnrollment rid r))"
  using assms reg_inv_set_state [OF assms, of rid _ StateDenied]
  by (auto simp: DenyEnrollment_def split: option.splits)

lemma putEndpoint_same_reach:
  "putEndpoint a e r\<lparr>rg_reachability := rg_reachability r\<rparr> = putEndpoint a e r"
  by (simp add: putEndpoint_def Let_def)

lemma ActivateEndpoint_inv:
  assumes "reg_inv P r"
  shows "reg_inv P (snd (ActivateEndpoint P now addr token r))"
proof (cases "snd (ActivateEndpoint P now addr token r) = r")
  case False
  then obtain ep where ep: "getEndpoint addr r = Some ep" "ep_State ep = StateRegistered"
    and r': "snd (ActivateEndpoint P now addr token r)
      = putEndpoint addr (ep\<lparr>ep_State := StateActive\<rparr>) r"
    by (auto simp: ActivateEndpoint_def split: sum.splits option.splits if_splits)
  have "reach_ok (putEndpoint addr (ep\<lparr>ep_State := StateActive\<rparr>) r)"
    using reg_invD(8) [OF assms] by (auto simp: reach_ok_def isActive_putEndpoint)
  with reg_inv_ep_state [OF assms ep(1), of StateActive "rg_reachability r"]
  show ?thesis by (simp add: r' putEndpoint_same_reach)
qed (simp add: assms)

lemma RevokeEndpoint_inv:
  assumes "reg_inv P r"
  shows "reg_inv P (snd (RevokeEndpoint addr r))"
proof (cases "getEndpoint addr r")
  case (Some ep)
  have "reach_ok (putEndpoint addr (ep\<lparr>ep_State := StateRevoked\<rparr>) r
      \<lparr>rg_reachability := gm_del (AddrKey addr) (rg_reachability r)\<rparr>)"
    using reg_invD(8) [OF assms] AddrKey_eq_iff
    by (fastforce simp: reach_ok_def isActive_putEndpoint split: if_splits)
  with reg_inv_ep_state [OF assms Some, of StateRevoked] Some show ?thesis
    by (simp add: RevokeEndpoint_def)
qed (simp add: RevokeEndpoint_def assms)

lemma isActive_cong: "same_endpoint a b \<Longrightarrow> isActive a r = isActive b r"
  using getEndpoint_cong by (simp add: isActive_def)

text \<open>Recording a route for an active endpoint.\<close>

lemma reg_inv_reach_put:
  assumes "reg_inv P r" "isActive addr r"
  shows "reg_inv P (r\<lparr>rg_reachability := gm_put (AddrKey addr)
      (getOrCreateReachability addr r\<lparr>rc_Direct := x, rc_UpdatedAt := t\<rparr>) (rg_reachability r)\<rparr>)"
    "reg_inv P (r\<lparr>rg_reachability := gm_put (AddrKey addr)
      (getOrCreateReachability addr r\<lparr>rc_Relay := y, rc_UpdatedAt := t\<rparr>) (rg_reachability r)\<rparr>)"
proof -
  have "AddrKey (rc_Addr (getOrCreateReachability addr r)) = AddrKey addr \<and>
      isActive (rc_Addr (getOrCreateReachability addr r)) r"
    using reg_invD(8) [OF assms(1)] assms(2)
    by (auto simp: getOrCreateReachability_def reach_ok_def split: option.splits)
  then show "reg_inv P (r\<lparr>rg_reachability := gm_put (AddrKey addr)
      (getOrCreateReachability addr r\<lparr>rc_Direct := x, rc_UpdatedAt := t\<rparr>) (rg_reachability r)\<rparr>)"
    "reg_inv P (r\<lparr>rg_reachability := gm_put (AddrKey addr)
      (getOrCreateReachability addr r\<lparr>rc_Relay := y, rc_UpdatedAt := t\<rparr>) (rg_reachability r)\<rparr>)"
    using reg_invD(8) [OF assms(1)]
    by (auto intro!: reg_inv_reachability [OF assms(1)] simp: reach_ok_def)
qed

lemma ObserveEndpoint_inv: "reg_inv P r \<Longrightarrow> reg_inv P (snd (ObserveEndpoint now addr obs proto r))"
  by (auto simp: ObserveEndpoint_def Let_def isActive_def intro!: reg_inv_reach_put
      split: option.splits)

lemma SetRelayRoute_inv:
  "reg_inv P r \<Longrightarrow> reg_inv P (snd (SetRelayRoute P now addr token relay r))"
  by (auto simp: SetRelayRoute_def Let_def isActive_def intro!: reg_inv_reach_put
      split: option.splits sum.splits)

lemma ClearReachability_inv: "reg_inv P r \<Longrightarrow> reg_inv P (ClearReachability addr r)"
  unfolding ClearReachability_def
  by (rule reg_inv_reachability) (auto simp: reg_inv_def reach_ok_def split: if_splits)

lemma reg_exec_inv:
  assumes "reg_inv P r" "fresh_op x r"
  shows "reg_inv P (reg_exec P x r)"
  using assms
  by (cases x) (auto intro: Enroll_inv ConfirmEnrollment_inv PreApprove_inv ApproveEnrollment_inv
      DenyEnrollment_inv ActivateEndpoint_inv RevokeEndpoint_inv ObserveEndpoint_inv
      SetRelayRoute_inv ClearReachability_inv simp del: fresh_op.simps)

end
