(* ===== verification/Registrar_Progress.thy ===== *)
theory Registrar_Progress
  imports Registrar_Inv
begin

text \<open>
  The registrar over time: the interpretation of the system locales on the registrar's
  operations. \<open>reg_rel r r'\<close> says what no sequence of operations can undo: endpoints are never
  deleted, their identity never changes, an endpoint only moves from registered to active to
  revoked, an enrollment whose challenge was answered is never deleted and moves only from
  pending to registered or denied.
\<close>

section \<open>Progress\<close>

definition ep_le :: "RegisteredEndpoint \<Rightarrow> RegisteredEndpoint \<Rightarrow> bool" where
  "ep_le ep ep' \<longleftrightarrow>
     ep' = ep\<lparr>ep_State := ep_State ep'\<rparr> \<and>
     (ep_State ep' = ep_State ep \<or>
      ep_State ep = StateRegistered \<and> ep_State ep' = StateActive \<or>
      ep_State ep' = StateRevoked)"

definition pe_le :: "pendingEnroll \<Rightarrow> pendingEnroll \<Rightarrow> bool" where
  "pe_le pe pe' \<longleftrightarrow>
     pe' = pe \<or>
     pe_State pe = StatePending \<and> pe_State pe' \<in> {StateRegistered, StateDenied} \<and>
     pe' = pe\<lparr>pe_State := pe_State pe', pe_Address := pe_Address pe', pe_Token := pe_Token pe'\<rparr>"

definition reg_rel :: "Registrar \<Rightarrow> Registrar \<Rightarrow> bool" where
  "reg_rel r r' \<longleftrightarrow>
     rg_publicKey r' = rg_publicKey r \<and> rg_privateKey r' = rg_privateKey r \<and>
     rg_tokenTTL r' = rg_tokenTTL r \<and>
     (\<forall>d g i ep. ep_at r d g i = Some ep \<longrightarrow>
        (\<exists>ep'. ep_at r' d g i = Some ep' \<and> ep_le ep ep')) \<and>
     (\<forall>rid pe. gm_get (rg_pending r) rid = Some pe \<and> pe_State pe \<noteq> StateChallengeIssued \<longrightarrow>
        (\<exists>pe'. gm_get (rg_pending r') rid = Some pe' \<and> pe_le pe pe'))"

lemma ep_le_refl [simp]: "ep_le ep ep"
  by (simp add: ep_le_def)

lemma pe_le_refl [simp]: "pe_le pe pe"
  by (simp add: pe_le_def)

lemma ep_le_trans: "ep_le a b \<Longrightarrow> ep_le b c \<Longrightarrow> ep_le a c"
  unfolding ep_le_def by (cases a; cases b; cases c) auto

lemma pe_le_trans: "pe_le a b \<Longrightarrow> pe_le b c \<Longrightarrow> pe_le a c"
  unfolding pe_le_def by (cases a; cases b; cases c) auto

lemma pe_le_past_challenge:
  "pe_le a b \<Longrightarrow> pe_State a \<noteq> StateChallengeIssued \<Longrightarrow> pe_State b \<noteq> StateChallengeIssued"
  unfolding pe_le_def by auto

lemma reg_relI:
  assumes "rg_publicKey r' = rg_publicKey r" "rg_privateKey r' = rg_privateKey r"
    "rg_tokenTTL r' = rg_tokenTTL r"
    "\<And>d g i ep. ep_at r d g i = Some ep \<Longrightarrow> \<exists>ep'. ep_at r' d g i = Some ep' \<and> ep_le ep ep'"
    "\<And>rid pe. gm_get (rg_pending r) rid = Some pe \<Longrightarrow> pe_State pe \<noteq> StateChallengeIssued \<Longrightarrow>
       \<exists>pe'. gm_get (rg_pending r') rid = Some pe' \<and> pe_le pe pe'"
  shows "reg_rel r r'"
  using assms unfolding reg_rel_def by blast

lemma reg_rel_endpoint:
  assumes "reg_rel r r'" "ep_at r d g i = Some ep"
  obtains ep' where "ep_at r' d g i = Some ep'" "ep_le ep ep'"
  using assms unfolding reg_rel_def by blast

lemma reg_rel_pending:
  assumes "reg_rel r r'" "gm_get (rg_pending r) rid = Some pe" "pe_State pe \<noteq> StateChallengeIssued"
  obtains pe' where "gm_get (rg_pending r') rid = Some pe'" "pe_le pe pe'"
  using assms unfolding reg_rel_def by blast

lemma reg_rel_refl [simp]: "reg_rel r r"
  by (rule reg_relI) auto

lemma reg_rel_trans:
  assumes "reg_rel r s" "reg_rel s t"
  shows "reg_rel r t"
proof (rule reg_relI)
  fix d g i ep
  assume "ep_at r d g i = Some ep"
  then obtain ep' where "ep_at s d g i = Some ep'" "ep_le ep ep'"
    by (rule reg_rel_endpoint [OF assms(1)])
  moreover from this(1) obtain ep'' where "ep_at t d g i = Some ep''" "ep_le ep' ep''"
    by (rule reg_rel_endpoint [OF assms(2)])
  ultimately show "\<exists>ep'. ep_at t d g i = Some ep' \<and> ep_le ep ep'"
    using ep_le_trans by blast
next
  fix rid pe
  assume "gm_get (rg_pending r) rid = Some pe" and st: "pe_State pe \<noteq> StateChallengeIssued"
  then obtain pe' where pe': "gm_get (rg_pending s) rid = Some pe'" "pe_le pe pe'"
    by (rule reg_rel_pending [OF assms(1)])
  with st obtain pe'' where "gm_get (rg_pending t) rid = Some pe''" "pe_le pe' pe''"
    using reg_rel_pending [OF assms(2) pe'(1)] pe_le_past_challenge by blast
  with pe' show "\<exists>pe'. gm_get (rg_pending t) rid = Some pe' \<and> pe_le pe pe'"
    using pe_le_trans by blast
qed (use assms in \<open>simp_all add: reg_rel_def\<close>)

section \<open>Every operation respects it\<close>

lemma reg_rel_update [simp]:
  "reg_rel r (s\<lparr>rg_preApproved := z\<rparr>) = reg_rel r s"
  "reg_rel r (s\<lparr>rg_nextID := u\<rparr>) = reg_rel r s"
  "reg_rel r (s\<lparr>rg_byFingerprint := y\<rparr>) = reg_rel r s"
  "reg_rel r (s\<lparr>rg_reachability := v\<rparr>) = reg_rel r s"
  by (simp_all add: reg_rel_def)

lemma reg_rel_put_pending:
  assumes "\<And>pe. gm_get (rg_pending r) rid = Some pe \<Longrightarrow> pe_State pe \<noteq> StateChallengeIssued
      \<Longrightarrow> pe_le pe pe'"
  shows "reg_rel r (r\<lparr>rg_pending := gm_put rid pe' (rg_pending r)\<rparr>)"
  using assms by (auto simp: reg_rel_def)

lemma reg_rel_del_pending:
  assumes "\<And>pe. gm_get (rg_pending r) rid = Some pe \<Longrightarrow> pe_State pe = StateChallengeIssued"
  shows "reg_rel r (r\<lparr>rg_pending := gm_del rid (rg_pending r)\<rparr>)"
  using assms by (auto simp: reg_rel_def)

lemma reg_rel_put_endpoint:
  assumes "\<And>ep. getEndpoint addr r = Some ep \<Longrightarrow> ep_le ep ep'"
  shows "reg_rel r (putEndpoint addr ep' r)"
  using assms by (auto simp: reg_rel_def ep_at_putEndpoint getEndpoint_ep_at)

lemma approveStored_rel:
  assumes inv: "reg_inv P r" and pe: "gm_get (rg_pending r) rid = Some pe"
    and st: "pe_State pe \<in> {StateChallengeIssued, StatePending}"
  shows "reg_rel r (snd (approveStored P now rid pe d g r))"
proof (cases "registerApproved P now pe d g r")
  case (Pair res r1)
  show ?thesis
  proof (cases res)
    case (Inl e)
    with Pair have "r1 = r\<lparr>rg_nextID := rg_nextID r1\<rparr>" by (auto intro: registerApproved_Inl)
    then have "reg_rel r r1" by (metis reg_rel_refl reg_rel_update(2))
    with Inl Pair show ?thesis by (simp add: approveStored_def)
  next
    case (Inr pe')
    with Pair have ok: "registerApproved P now pe d g r = (Inr pe', r1)" by simp
    from ok show ?thesis
    proof (cases rule: registerApproved_Inr)
      case (reuse a ep)
      have "reg_rel r (r\<lparr>rg_pending := gm_put rid pe' (rg_pending r)\<rparr>)"
        using pe st reuse by (intro reg_rel_put_pending) (auto simp: pe_le_def)
      with ok reuse(2) show ?thesis by (simp add: approveStored_def)
    next
      case (fresh c r2 token)
      have r2: "r2 = r\<lparr>rg_nextID := rg_nextID r2\<rparr>" by (rule allocateID_frame [OF fresh(3)])
      then have "reg_rel r r2" by (metis reg_rel_refl reg_rel_update(2))
      moreover have "getEndpoint (newAddr pe d g c) r2 = None"
        using allocateID_Inr(1) [OF fresh(3)] by (subst r2) (simp add: getEndpoint_ep_at)
      then have "reg_rel r2 r1"
        unfolding fresh(6) storeEndpoint_def by (intro reg_rel_put_endpoint) simp
      moreover have "gm_get (rg_pending r1) rid = Some pe"
        unfolding fresh(6) storeEndpoint_def using pe by (subst r2) simp
      then have "reg_rel r1 (r1\<lparr>rg_pending := gm_put rid pe' (rg_pending r1)\<rparr>)"
        using st fresh(5) by (intro reg_rel_put_pending) (auto simp: pe_le_def)
      ultimately have "reg_rel r (r1\<lparr>rg_pending := gm_put rid pe' (rg_pending r1)\<rparr>)"
        using reg_rel_trans by blast
      with ok show ?thesis by (simp add: approveStored_def)
    qed
  qed
qed

lemma Enroll_rel:
  assumes "fresh_op (OpEnroll req ent now) r"
  shows "reg_rel r (snd (Enroll req ent now r))"
  using assms
  by (auto simp: Enroll_def Let_def intro!: reg_rel_put_pending split: option.splits)

lemma ConfirmEnrollment_rel:
  assumes inv: "reg_inv P r"
  shows "reg_rel r (snd (ConfirmEnrollment P now c r))"
proof (cases "gm_get (rg_pending r) (conf_RequestID c)")
  case None
  then show ?thesis by (simp add: ConfirmEnrollment_def Let_def)
next
  case (Some pe)
  show ?thesis
  proof (cases "pe_State pe = StateChallengeIssued")
    case False
    with Some show ?thesis by (simp add: ConfirmEnrollment_def Let_def)
  next
    case True
    with approveStored_rel [OF inv Some] Some show ?thesis
      by (auto simp: ConfirmEnrollment_def Let_def split: option.splits
          intro!: reg_rel_del_pending reg_rel_put_pending)
  qed
qed

lemma ApproveEnrollment_rel:
  assumes "reg_inv P r"
  shows "reg_rel r (snd (ApproveEnrollment P now rid d g r))"
  using approveStored_rel [OF assms, of rid]
  by (auto simp: ApproveEnrollment_def split: option.splits)

lemma DenyEnrollment_rel: "reg_rel r (snd (DenyEnrollment rid r))"
  by (auto simp: DenyEnrollment_def pe_le_def intro!: reg_rel_put_pending split: option.splits)

lemma ActivateEndpoint_rel: "reg_rel r (snd (ActivateEndpoint P now addr token r))"
  by (auto simp: ActivateEndpoint_def ep_le_def intro!: reg_rel_put_endpoint
      split: option.splits sum.splits)

lemma RevokeEndpoint_rel: "reg_rel r (snd (RevokeEndpoint addr r))"
  by (auto simp: RevokeEndpoint_def ep_le_def intro!: reg_rel_put_endpoint split: option.splits)

lemma reg_exec_rel:
  assumes "reg_inv P r" "fresh_op x r"
  shows "reg_rel r (reg_exec P x r)"
proof (cases x)
  case (OpEnroll req ent now)
  with assms(2) Enroll_rel show ?thesis by simp
qed (use assms in \<open>simp_all add: ConfirmEnrollment_rel ApproveEnrollment_rel DenyEnrollment_rel
    ActivateEndpoint_rel RevokeEndpoint_rel PreApprove_def ObserveEndpoint_def SetRelayRoute_def
    ClearReachability_def Let_def split: option.split sum.split\<close>)

interpretation reg: progress_system fresh_op "reg_exec P" "reg_inv P" reg_rel for P
  by unfold_locales (auto intro: reg_exec_inv reg_exec_rel reg_rel_trans simp del: fresh_op.simps)

end
