(* ===== verification/Registrar_Alloc.thy ===== *)
theory Registrar_Alloc
  imports Registrar_Progress
begin

text \<open>
  The endpoint IDs of a group. As long as no token fails to marshal, the IDs in use in a group
  are \<open>1 .. n\<close> and the hint is the next one, so that a registration below the capacity of
  65534 never fails for lack of an ID and a full group is refused. The probe sequence alone does
  not give this: it leaves out the two values below the hint (\<open>probe_skips\<close>).
\<close>

definition ids_dense :: "DomainID \<Rightarrow> GroupID \<Rightarrow> Registrar \<Rightarrow> bool" where
  "ids_dense d g r \<longleftrightarrow>
     (let n = countEndpoints d g r
      in n \<le> 65534 \<and> (\<forall>i. ep_at r d g i \<noteq> None \<longleftrightarrow> 1 \<le> unat i \<and> unat i \<le> n) \<and>
         hintOf d g r = (if n = 0 then 0 else if n = 65534 then 1 else Suc n))"

definition ids_inv :: "Registrar \<Rightarrow> bool" where
  "ids_inv r \<longleftrightarrow> (\<forall>d g. ids_dense d g r)"

text \<open>The operation does not run into a claims document that cannot be marshalled.\<close>

fun marshals_op :: "prims \<Rightarrow> reg_op \<Rightarrow> Registrar \<Rightarrow> bool" where
  "marshals_op P (OpConfirm now c) r \<longleftrightarrow>
     fst (ConfirmEnrollment P now c r) \<noteq> Inl (TokenProblem TokMarshal)"
| "marshals_op P (OpApprove now rid d g) r \<longleftrightarrow>
     fst (ApproveEnrollment P now rid d g r) \<noteq> Inl (TokenProblem TokMarshal)"
| "marshals_op P _ r \<longleftrightarrow> True"

section \<open>Frame facts\<close>

lemma countEndpoints_update [simp]:
  "countEndpoints d g (r\<lparr>rg_pending := x\<rparr>) = countEndpoints d g r"
  "countEndpoints d g (r\<lparr>rg_byFingerprint := y\<rparr>) = countEndpoints d g r"
  "countEndpoints d g (r\<lparr>rg_preApproved := z\<rparr>) = countEndpoints d g r"
  "countEndpoints d g (r\<lparr>rg_nextID := u\<rparr>) = countEndpoints d g r"
  "countEndpoints d g (r\<lparr>rg_reachability := v\<rparr>) = countEndpoints d g r"
  by (simp_all add: countEndpoints_def)

lemma hintOf_update [simp]:
  "hintOf d g (r\<lparr>rg_pending := x\<rparr>) = hintOf d g r"
  "hintOf d g (r\<lparr>rg_byFingerprint := y\<rparr>) = hintOf d g r"
  "hintOf d g (r\<lparr>rg_preApproved := z\<rparr>) = hintOf d g r"
  "hintOf d g (r\<lparr>rg_reachability := v\<rparr>) = hintOf d g r"
  "hintOf d g (putEndpoint a e r) = hintOf d g r"
  by (simp_all add: hintOf_def)

lemma ids_inv_update [simp]:
  "ids_inv (r\<lparr>rg_pending := x\<rparr>) = ids_inv r"
  "ids_inv (r\<lparr>rg_byFingerprint := y\<rparr>) = ids_inv r"
  "ids_inv (r\<lparr>rg_preApproved := z\<rparr>) = ids_inv r"
  "ids_inv (r\<lparr>rg_reachability := v\<rparr>) = ids_inv r"
  by (simp_all add: ids_inv_def ids_dense_def)

lemma countEndpoints_putEndpoint:
  assumes "endpoints_wf r"
  shows "countEndpoints d g (putEndpoint addr e r) =
    (if d = ea_Domain addr \<and> g = ea_Group addr \<and> getEndpoint addr r = None
     then Suc (countEndpoints d g r) else countEndpoints d g r)"
proof (cases "getEndpoint addr r")
  case None
  then show ?thesis
    using assms by (auto simp: countEndpoints_def putEndpoint_def Let_def endpoints_wf_def
        getEndpoint_ep_at ep_at_def gm.len_put_new)
next
  case (Some ep)
  then show ?thesis
    using assms by (auto simp: countEndpoints_def putEndpoint_def Let_def endpoints_wf_def
        getEndpoint_ep_at ep_at_def gm.len_put_old)
qed

lemma ids_inv_change_endpoint:
  assumes "endpoints_wf r" "getEndpoint addr r = Some ep" "ids_inv r"
  shows "ids_inv (putEndpoint addr e r)"
  using assms
  by (auto simp: ids_inv_def ids_dense_def Let_def countEndpoints_putEndpoint ep_at_putEndpoint
      getEndpoint_ep_at)

section \<open>Registration keeps the IDs dense\<close>

lemma ids_denseD:
  assumes "ids_dense d g r"
  shows "countEndpoints d g r \<le> 65534"
    "ep_at r d g i \<noteq> None \<longleftrightarrow> 1 \<le> unat i \<and> unat i \<le> countEndpoints d g r"
  using assms unfolding ids_dense_def Let_def by blast+

text \<open>Below capacity the allocator returns the successor of the largest ID in use.\<close>

lemma unat_Suc_u16: "n < 65534 \<Longrightarrow> unat (word_of_nat (Suc n) :: u16) = Suc n"
  by (simp add: unat_of_nat take_bit_eq_mod del: of_nat_Suc)

lemma ids_next:
  assumes "ids_dense d g r" "countEndpoints d g r < 65534"
  shows "fst (allocateID d g r) = Inr (word_of_nat (Suc (countEndpoints d g r)))"
proof -
  let ?n = "countEndpoints d g r"
  have u: "unat (word_of_nat (Suc ?n) :: u16) = Suc ?n"
    by (rule unat_Suc_u16 [OF assms(2)])
  have hint: "hintOf d g r \<le> 65534" "max 1 (hintOf d g r) = Suc ?n"
    using assms by (auto simp: ids_dense_def Let_def)
  have "ep_at r d g (word_of_nat (max 1 (hintOf d g r))) = None"
    unfolding hint(2) using ids_denseD(2) [OF assms(1), of "word_of_nat (Suc ?n)"] u
    by (metis Suc_n_not_le_n)
  from allocateID_next [OF refl hint(1) this] show ?thesis by (simp only: hint(2))
qed

lemma ids_inv_register:
  assumes wf: "endpoints_wf r" and ids: "ids_inv r"
    and ok: "registerApproved P now pe d g r = (res, r')" "res \<noteq> Inl (TokenProblem TokMarshal)"
  shows "ids_inv r'"
proof (cases res)
  case (Inr pe')
  with ok(1) have "registerApproved P now pe d g r = (Inr pe', r')" by simp
  then show ?thesis
  proof (cases rule: registerApproved_Inr)
    case (reuse a ep)
    with ids show ?thesis by simp
  next
    case (fresh c r1 token)
    have r1: "r1 = r\<lparr>rg_nextID := rg_nextID r1\<rparr>" by (rule allocateID_frame [OF fresh(3)])
    let ?n = "countEndpoints d g r"
    have dense: "ids_dense d' g' r" for d' g' using ids by (simp add: ids_inv_def)
    have c: "unat c = Suc ?n"
      using ids_next [OF dense fresh(2)] fresh(3) unat_Suc_u16 [OF fresh(2)] by simp
    note al = allocateID_Inr [OF fresh(3)]
    have ep: "ep_at r1 = ep_at r" by (subst r1) simp
    have cnt: "countEndpoints d' g' r1 = countEndpoints d' g' r" for d' g'
      by (subst r1) simp
    have wf1: "endpoints_wf r1" by (subst r1) (simp add: wf)
    have "ids_dense d' g' r'" for d' g'
    proof (cases "d' = d \<and> g' = g")
      case True
      have "i = c \<longleftrightarrow> unat i = Suc ?n" for i using c by (metis word_unat_eq_iff)
      with True c fresh(2) dense [of d g] al(1) show ?thesis
        unfolding fresh(6) storeEndpoint_def
        by (auto simp: ids_dense_def Let_def countEndpoints_putEndpoint [OF wf1] ep_at_putEndpoint
            ep cnt al(4) getEndpoint_ep_at)
    next
      case False
      with dense [of d' g'] show ?thesis
        unfolding fresh(6) storeEndpoint_def
        by (auto simp: ids_dense_def Let_def countEndpoints_putEndpoint [OF wf1] ep_at_putEndpoint
            ep cnt al(4))
    qed
    then show ?thesis by (simp add: ids_inv_def)
  qed
next
  case (Inl e)
  have "\<not> 65534 > countEndpoints d g r \<Longrightarrow> ?thesis"
    using ok(1) ids by (auto simp: registerApproved_def split: option.splits)
  moreover have ?thesis if less: "countEndpoints d g r < 65534"
  proof -
    have "fst (allocateID d g r) = Inr (word_of_nat (Suc (countEndpoints d g r)))"
      using ids less by (intro ids_next) (auto simp: ids_inv_def)
    with ok Inl less show ?thesis
      by (auto simp: registerApproved_def Let_def SignToken_def
          split: option.splits prod.splits sum.splits)
  qed
  ultimately show ?thesis by blast
qed

lemma ids_inv_approveStored:
  assumes "endpoints_wf r" "ids_inv r"
    "fst (approveStored P now rid pe d g r) \<noteq> Inl (TokenProblem TokMarshal)"
  shows "ids_inv (snd (approveStored P now rid pe d g r))"
proof (cases "registerApproved P now pe d g r")
  case (Pair res r')
  with ids_inv_register [OF assms(1,2) Pair] assms(3) show ?thesis
    by (cases res) (auto simp: approveStored_def)
qed

lemma fst_result_case:
  "fst (case x of (Inl e, r1) \<Rightarrow> (Inl e, r1) | (Inr p, r1) \<Rightarrow> (Inr (f p), r1)) = Inl e'
     \<longleftrightarrow> fst x = Inl e'"
  by (auto split: prod.splits sum.splits)

lemma reg_exec_ids:
  assumes inv: "reg_inv P r" and ids: "ids_inv r" and ok: "marshals_op P x r"
  shows "ids_inv (reg_exec P x r)"
proof -
  note wf = reg_invD(1) [OF inv]
  note app = ids_inv_approveStored [OF wf ids]
  show ?thesis
  proof (cases x)
    case (OpConfirm now c)
    then show ?thesis
      using ok ids app by (auto simp: ConfirmEnrollment_def Let_def fst_result_case
          split: option.splits)
  next
    case (OpApprove now rid d g)
    then show ?thesis
      using ok ids app by (auto simp: ApproveEnrollment_def fst_result_case split: option.splits)
  qed (use ids in \<open>auto simp: Enroll_def PreApprove_def DenyEnrollment_def ActivateEndpoint_def
      RevokeEndpoint_def ObserveEndpoint_def SetRelayRoute_def ClearReachability_def Let_def
      ids_inv_change_endpoint [OF wf] split: option.splits sum.splits\<close>)
qed

lemma ids_inv_init: "NewRegistrar key ttl = Inr r \<Longrightarrow> ids_inv r"
  by (auto simp: NewRegistrar_def ids_inv_def ids_dense_def countEndpoints_def hintOf_def ep_at_def
      gm_len_def split: option.splits)

text \<open>The invariant of the allocator is one of the guarded system, with its own guard.\<close>

interpretation reg_ids: guarded_system "\<lambda>x r. fresh_op x r \<and> marshals_op P x r" "reg_exec P"
  "\<lambda>r. reg_inv P r \<and> ids_inv r" for P
  by unfold_locales (simp add: reg_exec_inv reg_exec_ids del: fresh_op.simps marshals_op.simps)

text \<open>Below capacity a registration succeeds if its claims can be marshalled, with the next ID.\<close>

lemma registerApproved_succeeds:
  assumes ids: "ids_dense d g r" and less: "countEndpoints d g r < 65534"
    and none: "findByFingerprint (pe_Fingerprint pe) r = None"
    and addr: "addr = newAddr pe d g (word_of_nat (Suc (countEndpoints d g r)))"
    and sign: "SignToken P (claimsFor pe addr now (rg_tokenTTL r)) (rg_privateKey r) = Inr t"
  obtains m where "registerApproved P now pe d g r =
    (Inr (pe\<lparr>pe_Address := addr, pe_Token := t, pe_State := StateRegistered\<rparr>),
     storeEndpoint addr (pe_PublicKey pe) t (pe_Fingerprint pe) (r\<lparr>rg_nextID := m\<rparr>))"
    "getEndpoint addr r = None"
proof -
  let ?i = "word_of_nat (Suc (countEndpoints d g r)) :: u16"
  obtain r1 where al: "allocateID d g r = (Inr ?i, r1)"
    using ids_next [OF ids less] by (cases "allocateID d g r") (simp del: of_nat_Suc)
  have r1: "r1 = r\<lparr>rg_nextID := rg_nextID r1\<rparr>" by (rule allocateID_frame [OF al])
  have same: "rg_tokenTTL r1 = rg_tokenTTL r" "rg_privateKey r1 = rg_privateKey r"
    by (subst r1, simp)+
  have "registerApproved P now pe d g r =
    (Inr (pe\<lparr>pe_Address := addr, pe_Token := t, pe_State := StateRegistered\<rparr>),
     storeEndpoint addr (pe_PublicKey pe) t (pe_Fingerprint pe) r1)"
    using sign none less al same
    by (simp add: registerApproved_def Let_def claimsFor_def newAddr_def addr del: of_nat_Suc)
  moreover have "getEndpoint addr r = None"
    using allocateID_Inr(1) [OF al] by (simp add: getEndpoint_ep_at addr del: of_nat_Suc)
  ultimately show ?thesis using that r1 by metis
qed

section \<open>What the probe sequence leaves out\<close>

text \<open>
  From hint \<open>h\<close> the 65534 probes cover every residue modulo 65536 except \<open>h - 1\<close> and \<open>h - 2\<close>.
  The ID 1 is still reached through 0 and 65535; any other ID just below the hint is not.
\<close>

lemma probe_skips:
  assumes "3 \<le> h" "h \<le> 65534" "k < 65534"
  shows "probe h k \<noteq> h - 1"
proof
  assume eq: "probe h k = h - 1"
  show False
  proof (cases "h + k < 65536")
    case True
    with eq assms show False by (auto simp: probe_def Let_def split: if_splits)
  next
    case False
    then have "(h + k) mod 65536 = h + k - 65536" using assms by (subst mod_if) simp
    with eq assms False show False by (auto simp: probe_def Let_def split: if_splits)
  qed
qed

lemma probe_covers:
  assumes "1 \<le> h" "h \<le> 65534" "1 \<le> c" "c \<le> 65534" "c \<noteq> h - 1" "c \<noteq> h - 2"
  shows "\<exists>k < 65534. probe h k = c"
proof (cases "h \<le> c")
  case True
  with assms have "probe h (c - h) = c" "c - h < 65534" by (auto simp: probe_def Let_def)
  then show ?thesis by blast
next
  case False
  then have "(h + (c + 65536 - h)) mod 65536 = c" using assms by simp
  with assms have "probe h (c + 65536 - h) = c" by (auto simp: probe_def Let_def)
  moreover have "c + 65536 - h < 65534" using False assms by arith
  ultimately show ?thesis by blast
qed

lemma allocateID_fails_below_capacity:
  assumes "hintOf d g r = h" "3 \<le> h" "h \<le> 65534"
    and taken: "\<And>i. 1 \<le> unat i \<Longrightarrow> unat i \<le> 65534 \<Longrightarrow> unat i \<noteq> h - 1 \<Longrightarrow> ep_at r d g i \<noteq> None"
  shows "fst (allocateID d g r) = Inl NoAvailableIDs"
proof -
  obtain hw where hw: "gm_get (gm_sub (rg_nextID r) d) g = Some hw" "unat hw = h"
    using assms(1,2) by (cases "gm_get (gm_sub (rg_nextID r) d) g") (auto simp: hintOf_def)
  from hw(2) assms(2) have nz: "hw \<noteq> 0" by auto
  have "alloc_loop (isIDTaken d g r) hw 0 = None"
    unfolding alloc_loop_None
  proof (intro allI impI)
    fix j :: u16
    assume "j < 65534"
    then have "unat j < 65534" by (simp add: word_less_nat_alt)
    from probe_skips [OF assms(2,3) this] probe_range [of h "unat j"]
    show "isIDTaken d g r (alloc_candidate hw j)"
      unfolding isIDTaken_ep_at by (intro taken) (simp_all add: unat_alloc_candidate hw(2))
  qed
  with hw nz show ?thesis by (simp add: allocateID_def Let_def)
qed

end
