(* ===== verification/Registrar_History.thy ===== *)
theory Registrar_History
  imports Registrar_Alloc
begin

text \<open>
  What led to a registration. \<open>reg_hist P xs r\<close> relates the operations executed so far to the
  registrar they led to: every enrollment on record was asked for and its challenge was drawn
  then; it is past the challenge only if a confirmation signed that challenge with the
  enrollment's key; and it is registered at an address only if it is a relay, the fingerprint
  was pre-approved for that domain and group, or the administrator approved it for them.
\<close>

definition requested :: "reg_op list \<Rightarrow> string \<Rightarrow> pendingEnroll \<Rightarrow> bool" where
  "requested xs rid pe \<longleftrightarrow>
     (\<exists>req ent now. OpEnroll req ent now \<in> set xs \<and> randomRequestID ent = Some rid \<and>
        ent_nonce ent = Some (pe_Challenge pe) \<and> req_PublicKey req = pe_PublicKey pe \<and>
        req_Fingerprint req = pe_Fingerprint pe \<and> req_RoleFlags req = pe_RoleFlags pe)"

definition challenge_signed :: "prims \<Rightarrow> reg_op list \<Rightarrow> string \<Rightarrow> pendingEnroll \<Rightarrow> bool" where
  "challenge_signed P xs rid pe \<longleftrightarrow>
     (\<exists>now c. OpConfirm now c \<in> set xs \<and> conf_RequestID c = rid \<and>
        ed_Verify P (pe_PublicKey pe) (pe_Challenge pe) (conf_Signature c))"

definition authorised :: "reg_op list \<Rightarrow> string \<Rightarrow> pendingEnroll \<Rightarrow> bool" where
  "authorised xs rid pe \<longleftrightarrow>
     (let d = ea_Domain (pe_Address pe); g = ea_Group (pe_Address pe) in
      RoleOf (pe_RoleFlags pe) = RoleRelay \<and> d = RelayDomain \<and> g = RelayGroup \<or>
      OpPreApprove (pe_Fingerprint pe) d g \<in> set xs \<or>
      (\<exists>now. OpApprove now rid d g \<in> set xs))"

definition enroll_hist :: "prims \<Rightarrow> reg_op list \<Rightarrow> string \<Rightarrow> pendingEnroll \<Rightarrow> bool" where
  "enroll_hist P xs rid pe \<longleftrightarrow>
     requested xs rid pe \<and>
     (pe_State pe \<in> {StatePending, StateRegistered} \<longrightarrow> challenge_signed P xs rid pe) \<and>
     (pe_State pe = StateRegistered \<longrightarrow> authorised xs rid pe)"

definition reg_hist :: "prims \<Rightarrow> reg_op list \<Rightarrow> Registrar \<Rightarrow> bool" where
  "reg_hist P xs r \<longleftrightarrow>
     (\<forall>rid pe. gm_get (rg_pending r) rid = Some pe \<longrightarrow> enroll_hist P xs rid pe) \<and>
     (\<forall>fp m. gm_get (rg_preApproved r) fp = Some m
        \<longrightarrow> OpPreApprove fp (am_Domain m) (am_Group m) \<in> set xs)"

lemma enroll_hist_mono: "enroll_hist P xs rid pe \<Longrightarrow> enroll_hist P (xs @ [x]) rid pe"
  unfolding enroll_hist_def requested_def challenge_signed_def authorised_def Let_def
  by (simp del: split_paired_Ex) blast

lemma reg_hist_same:
  "reg_hist P xs r \<Longrightarrow> rg_pending r' = rg_pending r \<Longrightarrow> rg_preApproved r' = rg_preApproved r
   \<Longrightarrow> reg_hist P (xs @ [x]) r'"
  using enroll_hist_mono by (auto simp: reg_hist_def)

lemma reg_hist_put:
  assumes "reg_hist P xs r" "rg_pending r' = gm_put rid pe (rg_pending r)"
    "rg_preApproved r' = rg_preApproved r" "enroll_hist P (xs @ [x]) rid pe"
  shows "reg_hist P (xs @ [x]) r'"
  using assms enroll_hist_mono by (auto simp: reg_hist_def)

lemma reg_hist_put_pending:
  assumes "reg_hist P xs r" "enroll_hist P (xs @ [x]) rid pe"
  shows "reg_hist P (xs @ [x]) (r\<lparr>rg_pending := gm_put rid pe (rg_pending r)\<rparr>)"
  by (rule reg_hist_put [OF assms(1) _ _ assms(2)]) simp_all

text \<open>The enrollment record \<open>approveStored\<close> leaves behind.\<close>

lemma approveStored_pending:
  assumes inv: "reg_inv P r" and pe: "gm_get (rg_pending r) rid = Some pe"
    and st: "pe_State pe \<noteq> StateRegistered" and res: "approveStored P now rid pe d g r = (res, r')"
  obtains (unchanged) "rg_pending r' = rg_pending r" "rg_preApproved r' = rg_preApproved r"
  | (registered) a t where "ea_Domain a = d" "ea_Group a = g"
      "rg_pending r' = gm_put rid (pe\<lparr>pe_Address := a, pe_Token := t, pe_State := StateRegistered\<rparr>)
         (rg_pending r)" "rg_preApproved r' = rg_preApproved r"
proof (cases "registerApproved P now pe d g r")
  case (Pair out r1)
  show ?thesis
  proof (cases out)
    case (Inl e)
    with Pair have eq: "r1 = r\<lparr>rg_nextID := rg_nextID r1\<rparr>" by (auto intro: registerApproved_Inl)
    have "rg_pending r1 = rg_pending r" "rg_preApproved r1 = rg_preApproved r"
      by (subst eq, simp)+
    moreover have "r' = r1" using res Pair Inl by (simp add: approveStored_def)
    ultimately show ?thesis by (intro unchanged) simp_all
  next
    case (Inr pe')
    with Pair have ok: "registerApproved P now pe d g r = (Inr pe', r1)" by simp
    from ok show ?thesis
    proof (cases rule: registerApproved_Inr)
      case (reuse a ep)
      with unregistered_find_None [OF inv pe st] show ?thesis by simp
    next
      case (fresh c r2 token)
      have r2: "r2 = r\<lparr>rg_nextID := rg_nextID r2\<rparr>" by (rule allocateID_frame [OF fresh(3)])
      have "rg_pending r2 = rg_pending r" "rg_preApproved r2 = rg_preApproved r"
        by (subst r2, simp)+
      with res ok fresh(5,6) show ?thesis
        by (intro registered [of "newAddr pe d g c" token])
          (auto simp: approveStored_def storeEndpoint_def)
    qed
  qed
qed

lemma approveStored_hist:
  assumes inv: "reg_inv P r" and hist: "reg_hist P xs r"
    and pe: "gm_get (rg_pending r) rid = Some pe" and st: "pe_State pe \<noteq> StateRegistered"
    and signed: "challenge_signed P (xs @ [x]) rid pe"
    and auth: "\<And>a. ea_Domain a = d \<Longrightarrow> ea_Group a = g \<Longrightarrow> authorised (xs @ [x]) rid (pe\<lparr>pe_Address := a\<rparr>)"
    and res: "approveStored P now rid pe d g r = (res, r')"
  shows "reg_hist P (xs @ [x]) r'"
  using inv pe st res
proof (cases rule: approveStored_pending)
  case unchanged
  with hist show ?thesis by (rule reg_hist_same)
next
  case (registered a t)
  have "enroll_hist P (xs @ [x]) rid pe"
    using hist pe by (auto simp: reg_hist_def intro: enroll_hist_mono)
  with signed auth [of a] registered(1,2) hist show ?thesis
    by (intro reg_hist_put [OF hist registered(3,4)])
      (simp add: enroll_hist_def requested_def challenge_signed_def authorised_def)
qed

section \<open>Every operation extends the history\<close>

lemma Enroll_hist:
  assumes hist: "reg_hist P xs r"
  shows "reg_hist P (xs @ [OpEnroll req ent now]) (snd (Enroll req ent now r))"
proof (cases "snd (Enroll req ent now r) = r")
  case True
  with hist show ?thesis by (simp add: reg_hist_same)
next
  case False
  then obtain nonce rid pe where rid: "randomRequestID ent = Some rid" "ent_nonce ent = Some nonce"
    and pe: "pe = \<lparr>pe_RequestID = rid, pe_PublicKey = req_PublicKey req,
      pe_Fingerprint = req_Fingerprint req, pe_RoleFlags = req_RoleFlags req, pe_Challenge = nonce,
      pe_CreatedAt = now, pe_State = StateChallengeIssued, pe_Address = zero_addr, pe_Token = []\<rparr>"
    and eq: "rg_pending (snd (Enroll req ent now r)) = gm_put rid pe (rg_pending r)"
      "rg_preApproved (snd (Enroll req ent now r)) = rg_preApproved r"
    by (auto simp: Enroll_def Let_def simp del: if_split_asm if_split
        split: option.splits if_split_asm)
  have "enroll_hist P (xs @ [OpEnroll req ent now]) rid pe"
    using rid by (auto simp: enroll_hist_def requested_def pe)
  with reg_hist_put [OF hist eq] show ?thesis by simp
qed

lemma ConfirmEnrollment_hist:
  assumes inv: "reg_inv P r" and hist: "reg_hist P xs r"
  shows "reg_hist P (xs @ [OpConfirm now c]) (snd (ConfirmEnrollment P now c r))"
proof (cases "gm_get (rg_pending r) (conf_RequestID c)")
  case None
  with hist show ?thesis by (simp add: ConfirmEnrollment_def Let_def reg_hist_same)
next
  case (Some pe)
  let ?xs = "xs @ [OpConfirm now c]" and ?rid = "conf_RequestID c"
  show ?thesis
  proof (cases "pe_State pe = StateChallengeIssued \<and>
      ed_Verify P (pe_PublicKey pe) (pe_Challenge pe) (conf_Signature c)")
    case False
    then consider "pe_State pe \<noteq> StateChallengeIssued"
      | "pe_State pe = StateChallengeIssued"
        "\<not> ed_Verify P (pe_PublicKey pe) (pe_Challenge pe) (conf_Signature c)" by blast
    then show ?thesis
      using Some hist enroll_hist_mono
      by cases (auto simp: ConfirmEnrollment_def Let_def reg_hist_def)
  next
    case True
    then have signed: "challenge_signed P ?xs ?rid pe" by (auto simp: challenge_signed_def)
    have hist_pe: "enroll_hist P ?xs ?rid pe"
      using hist Some by (auto simp: reg_hist_def intro: enroll_hist_mono)
    have st: "pe_State pe \<noteq> StateRegistered" using True by simp
    note app = approveStored_hist [OF inv hist Some st signed _ surjective_pairing]
    show ?thesis
    proof (cases "RoleOf (pe_RoleFlags pe) = RoleRelay")
      case relay: True
      with True Some app [of RelayDomain RelayGroup now] show ?thesis
        by (simp add: ConfirmEnrollment_def Let_def authorised_def)
    next
      case other: False
      show ?thesis
      proof (cases "gm_get (rg_preApproved r) (pe_Fingerprint pe)")
        case None
        have "reg_hist P ?xs (r\<lparr>rg_pending := gm_put ?rid (pe\<lparr>pe_State := StatePending\<rparr>) (rg_pending r)\<rparr>)"
          using hist_pe signed
          by (intro reg_hist_put_pending [OF hist])
            (simp add: enroll_hist_def requested_def challenge_signed_def)
        with True Some other None show ?thesis by (simp add: ConfirmEnrollment_def Let_def)
      next
        case (Some m)
        then have "OpPreApprove (pe_Fingerprint pe) (am_Domain m) (am_Group m) \<in> set ?xs"
          using hist by (auto simp: reg_hist_def)
        with True other Some \<open>gm_get (rg_pending r) ?rid = Some pe\<close>
          app [of "am_Domain m" "am_Group m" now] show ?thesis
          by (simp add: ConfirmEnrollment_def Let_def authorised_def)
      qed
    qed
  qed
qed

lemma ApproveEnrollment_hist:
  assumes inv: "reg_inv P r" and hist: "reg_hist P xs r"
  shows "reg_hist P (xs @ [OpApprove now rid d g]) (snd (ApproveEnrollment P now rid d g r))"
proof (cases "\<exists>pe. gm_get (rg_pending r) rid = Some pe \<and> pe_State pe = StatePending \<and> d \<noteq> RelayDomain")
  case True
  then obtain pe where pe: "gm_get (rg_pending r) rid = Some pe" "pe_State pe = StatePending"
    "d \<noteq> RelayDomain" by blast
  then have "enroll_hist P (xs @ [OpApprove now rid d g]) rid pe"
    using hist by (auto simp: reg_hist_def intro: enroll_hist_mono)
  with pe(2) have "challenge_signed P (xs @ [OpApprove now rid d g]) rid pe"
    by (simp add: enroll_hist_def)
  from approveStored_hist [OF inv hist pe(1) _ this _ surjective_pairing, of d g now] pe
  show ?thesis by (auto simp: ApproveEnrollment_def authorised_def)
next
  case False
  with hist show ?thesis
    by (auto simp: ApproveEnrollment_def intro: reg_hist_same split: option.splits)
qed

lemma PreApprove_hist:
  "reg_hist P xs r \<Longrightarrow> reg_hist P (xs @ [OpPreApprove fp d g]) (snd (PreApprove fp d g r))"
  using enroll_hist_mono by (auto simp: PreApprove_def reg_hist_def)

lemma DenyEnrollment_hist:
  assumes "reg_hist P xs r"
  shows "reg_hist P (xs @ [OpDeny rid]) (snd (DenyEnrollment rid r))"
proof (cases "snd (DenyEnrollment rid r) = r")
  case True
  with assms show ?thesis by (simp add: reg_hist_same)
next
  case False
  then obtain pe where pe: "gm_get (rg_pending r) rid = Some pe"
    and eq: "snd (DenyEnrollment rid r)
      = r\<lparr>rg_pending := gm_put rid (pe\<lparr>pe_State := StateDenied\<rparr>) (rg_pending r)\<rparr>"
    by (auto simp: DenyEnrollment_def split: option.splits if_splits)
  have "enroll_hist P (xs @ [OpDeny rid]) rid pe"
    using assms pe by (auto simp: reg_hist_def intro: enroll_hist_mono)
  then show ?thesis
    unfolding reg_exec.simps eq
    by (intro reg_hist_put_pending [OF assms]) (simp add: enroll_hist_def requested_def)
qed

lemma reg_exec_hist:
  assumes "reg_inv P r" "reg_hist P xs r"
  shows "reg_hist P (xs @ [x]) (reg_exec P x r)"
proof (cases x)
  case (OpActivate now addr token)
  with assms(2) show ?thesis
    by (auto simp: ActivateEndpoint_def intro: reg_hist_same split: option.splits sum.splits)
next
  case (OpRevoke addr)
  with assms(2) show ?thesis
    by (auto simp: RevokeEndpoint_def intro: reg_hist_same split: option.splits)
next
  case (OpObserve now addr obs proto)
  with assms(2) show ?thesis
    by (auto simp: ObserveEndpoint_def Let_def intro: reg_hist_same split: option.splits)
next
  case (OpSetRelayRoute now addr token relay)
  with assms(2) show ?thesis
    by (auto simp: SetRelayRoute_def Let_def intro: reg_hist_same split: option.splits sum.splits)
next
  case (OpClearReachability addr)
  with assms(2) show ?thesis by (auto simp: ClearReachability_def intro: reg_hist_same)
qed (use assms in \<open>simp_all add: Enroll_hist ConfirmEnrollment_hist ApproveEnrollment_hist
    PreApprove_hist DenyEnrollment_hist\<close>)

lemma reg_hist_init: "NewRegistrar key ttl = Inr r \<Longrightarrow> reg_hist P [] r"
  by (auto simp: NewRegistrar_def reg_hist_def split: option.splits)

interpretation reg_history: history_system fresh_op "reg_exec P" "reg_inv P" "reg_hist P" for P
  by unfold_locales (rule reg_exec_hist)

section \<open>Observations\<close>

text \<open>The last address an endpoint was observed at, as the operations say.\<close>

definition observe_step :: "EndpointAddr \<Rightarrow> DirectRoute option \<Rightarrow> reg_op \<Rightarrow> DirectRoute option" where
  "observe_step addr acc x =
     (case x of
        OpObserve now a obs proto \<Rightarrow>
          if same_endpoint a addr then Some \<lparr>dr_ObservedAddr = obs, dr_Proto = proto\<rparr> else acc
      | _ \<Rightarrow> acc)"

definition last_observed :: "reg_op list \<Rightarrow> EndpointAddr \<Rightarrow> DirectRoute option" where
  "last_observed xs addr = foldl (observe_step addr) None xs"

definition observe_hist :: "reg_op list \<Rightarrow> Registrar \<Rightarrow> bool" where
  "observe_hist xs r \<longleftrightarrow> (\<forall>addr d. directOf addr r = Some d \<longrightarrow> last_observed xs addr = Some d)"

lemma approveStored_reachability [simp]:
  "rg_reachability (snd (approveStored P now rid pe d g r)) = rg_reachability r"
proof -
  have al: "rg_reachability r1 = rg_reachability r" if "allocateID d g r = (res, r1)" for res r1
    by (subst allocateID_frame [OF that]) simp
  show ?thesis
    by (auto simp: approveStored_def registerApproved_def Let_def storeEndpoint_def al
        split: prod.splits sum.splits option.splits if_splits dest!: al)
qed

lemma directOf_same: "rg_reachability r' = rg_reachability r \<Longrightarrow> directOf a r' = directOf a r"
  by (simp add: directOf_def)

lemma observe_hist_same:
  assumes "observe_hist xs r" "rg_reachability r' = rg_reachability r"
    and "\<And>now a obs proto. x \<noteq> OpObserve now a obs proto"
  shows "observe_hist (xs @ [x]) r'"
proof -
  have "observe_step a acc x = acc" for a acc
    using assms(3) by (simp add: observe_step_def split: reg_op.split)
  with assms(1) directOf_same [OF assms(2)] show ?thesis
    by (simp add: observe_hist_def last_observed_def)
qed

lemma inactive_no_direct:
  assumes "reg_inv P r" "\<not> isActive a r"
  shows "directOf a r = None"
proof (cases "gm_get (rg_reachability r) (AddrKey a)")
  case None
  then show ?thesis by (simp add: directOf_def)
next
  case (Some info)
  then have "AddrKey a = AddrKey (rc_Addr info) \<and> isActive (rc_Addr info) r"
    using reg_invD(8) [OF assms(1)] unfolding reach_ok_def by blast
  with assms(2) isActive_cong [of a "rc_Addr info" r] show ?thesis by (simp add: AddrKey_eq_iff)
qed

lemma directOf_put:
  "directOf a (r\<lparr>rg_reachability := gm_put (AddrKey b) info (rg_reachability r)\<rparr>) =
     (if same_endpoint a b then rc_Direct info else directOf a r)"
  by (simp add: directOf_def AddrKey_eq_iff)

lemma directOf_del:
  "directOf a (r\<lparr>rg_reachability := gm_del (AddrKey b) (rg_reachability r)\<rparr>) =
     (if same_endpoint a b then None else directOf a r)"
  by (simp add: directOf_def AddrKey_eq_iff)

lemma same_endpoint_sym: "same_endpoint a b \<longleftrightarrow> same_endpoint b a"
  by (auto simp: same_endpoint_def)

lemma ObserveEndpoint_observe_hist:
  assumes inv: "reg_inv P r" and hist: "observe_hist xs r"
  shows "observe_hist (xs @ [OpObserve now b obs proto]) (snd (ObserveEndpoint now b obs proto r))"
proof (cases "isActive b r")
  case False
  then have "snd (ObserveEndpoint now b obs proto r) = r"
    by (auto simp: ObserveEndpoint_def isActive_def split: option.splits)
  moreover have "\<not> isActive a r" if "same_endpoint b a" for a
    using False isActive_cong [OF that] by simp
  ultimately show ?thesis
    using hist inactive_no_direct [OF inv]
    by (auto simp: observe_hist_def last_observed_def observe_step_def)
next
  case True
  then obtain info where
    "snd (ObserveEndpoint now b obs proto r) = r\<lparr>rg_reachability := gm_put (AddrKey b) info (rg_reachability r)\<rparr>"
    "rc_Direct info = Some \<lparr>dr_ObservedAddr = obs, dr_Proto = proto\<rparr>"
    by (auto simp: ObserveEndpoint_def isActive_def Let_def split: option.splits)
  with hist show ?thesis
    by (auto simp: observe_hist_def last_observed_def observe_step_def directOf_put
        same_endpoint_sym [of b])
qed

lemma SetRelayRoute_direct:
  "directOf a (snd (SetRelayRoute P now b token relay r)) = directOf a r"
proof -
  have "rc_Direct (getOrCreateReachability b r) = directOf b r"
    by (simp add: getOrCreateReachability_def directOf_def split: option.split)
  moreover have "same_endpoint a b \<Longrightarrow> directOf a r = directOf b r"
    by (simp add: directOf_def flip: AddrKey_eq_iff)
  ultimately show ?thesis
    by (auto simp: SetRelayRoute_def Let_def directOf_put split: sum.split option.split)
qed

lemma reg_exec_observe_hist:
  assumes "reg_inv P r" "observe_hist xs r"
  shows "observe_hist (xs @ [x]) (reg_exec P x r)"
proof (cases x)
  case (OpObserve now addr obs proto)
  with assms ObserveEndpoint_observe_hist show ?thesis by simp
next
  case (OpRevoke addr)
  have "directOf a (snd (RevokeEndpoint addr r)) = Some d \<Longrightarrow> directOf a r = Some d" for a d
    by (auto simp: RevokeEndpoint_def directOf_def split: option.splits if_splits)
  with assms(2) OpRevoke show ?thesis
    by (auto simp: observe_hist_def last_observed_def observe_step_def)
next
  case (OpClearReachability addr)
  with assms(2) show ?thesis
    by (auto simp: ClearReachability_def observe_hist_def last_observed_def observe_step_def
        directOf_del split: if_splits)
next
  case (OpSetRelayRoute now addr token relay)
  with assms(2) show ?thesis
    by (simp add: observe_hist_def last_observed_def observe_step_def SetRelayRoute_direct)
next
  case (OpConfirm now c)
  have "rg_reachability (snd (ConfirmEnrollment P now c r)) = rg_reachability r"
    by (simp add: ConfirmEnrollment_def Let_def split: option.split)
  with assms(2) OpConfirm show ?thesis by (intro observe_hist_same) auto
next
  case (OpApprove now rid d g)
  have "rg_reachability (snd (ApproveEnrollment P now rid d g r)) = rg_reachability r"
    by (simp add: ApproveEnrollment_def split: option.split)
  with assms(2) OpApprove show ?thesis by (intro observe_hist_same) auto
next
  case (OpEnroll req ent now)
  have "rg_reachability (snd (Enroll req ent now r)) = rg_reachability r"
    by (simp add: Enroll_def Let_def split: option.split)
  with assms(2) OpEnroll show ?thesis by (intro observe_hist_same) auto
next
  case (OpActivate now addr token)
  have "rg_reachability (snd (ActivateEndpoint P now addr token r)) = rg_reachability r"
    by (simp add: ActivateEndpoint_def split: option.split sum.split)
  with assms(2) OpActivate show ?thesis by (intro observe_hist_same) auto
next
  case (OpDeny rid)
  have "rg_reachability (snd (DenyEnrollment rid r)) = rg_reachability r"
    by (simp add: DenyEnrollment_def split: option.split)
  with assms(2) OpDeny show ?thesis by (intro observe_hist_same) auto
next
  case (OpPreApprove fp d g)
  have "rg_reachability (snd (PreApprove fp d g r)) = rg_reachability r"
    by (simp add: PreApprove_def)
  with assms(2) OpPreApprove show ?thesis by (intro observe_hist_same) auto
qed

lemma observe_hist_init: "NewRegistrar key ttl = Inr r \<Longrightarrow> observe_hist [] r"
  by (auto simp: NewRegistrar_def observe_hist_def directOf_def split: option.splits)

interpretation reg_observed: history_system fresh_op "reg_exec P" "reg_inv P" observe_hist for P
  by unfold_locales (rule reg_exec_observe_hist)

end
