(* ===== verification/Registrar_Samples.thy ===== *)
theory Registrar_Samples
  imports Registrar_History
begin

text \<open>
  A registrar run from its creation, and a concrete run to apply the properties to: an agent
  that is pre-approved and a client that an administrator approves enroll, activate and are
  observed. The sample signature scheme accepts one signature; under the registrar's key it
  accepts it for the two documents the registrar signed only.
\<close>

definition reg_run ::
    "prims \<Rightarrow> (bytes \<times> bytes) option \<Rightarrow> duration \<Rightarrow> reg_op list \<Rightarrow> Registrar option" where
  "reg_run P key ttl xs =
     (case NewRegistrar key ttl of
        Inl e \<Rightarrow> None
      | Inr r0 \<Rightarrow> if legal_ops fresh_op (reg_exec P) xs r0 then Some (run_ops (reg_exec P) xs r0)
                  else None)"

lemma reg_run_Some:
  assumes "reg_run P key ttl xs = Some r"
  obtains r0 where "NewRegistrar key ttl = Inr r0" "legal_ops fresh_op (reg_exec P) xs r0"
    "r = run_ops (reg_exec P) xs r0"
  using assms by (auto simp: reg_run_def split: sum.splits if_splits)

lemma reg_run_inv: "reg_run P key ttl xs = Some r \<Longrightarrow> reg_inv P r"
  using reg.run_inv reg_inv_init by (blast elim: reg_run_Some)

lemma reg_run_hist: "reg_run P key ttl xs = Some r \<Longrightarrow> reg_hist P xs r"
  using reg_history.run_hist reg_hist_init reg_inv_init by (blast elim: reg_run_Some)

lemma reg_run_observed: "reg_run P key ttl xs = Some r \<Longrightarrow> observe_hist xs r"
  using reg_observed.run_hist observe_hist_init reg_inv_init by (blast elim: reg_run_Some)

section \<open>The sample\<close>

definition s_sig :: bytes where "s_sig = replicate 64 0"

definition s_agent_claims :: TokenClaims where
  "s_agent_claims =
     \<lparr>cl_EndpointID = 1, cl_Domain = 1, cl_Group = 2, cl_RoleFlags = RoleAgent,
      cl_PublicKey = replicate 32 2, cl_Fingerprint = ''agent'', cl_IssuedAt = 6,
      cl_ExpiresAt = 1006, cl_Issuer = tokenIssuer\<rparr>"

definition s_client_claims :: TokenClaims where
  "s_client_claims =
     \<lparr>cl_EndpointID = 2, cl_Domain = 1, cl_Group = 2, cl_RoleFlags = RoleClient,
      cl_PublicKey = replicate 32 3, cl_Fingerprint = ''client'', cl_IssuedAt = 9,
      cl_ExpiresAt = 1009, cl_Issuer = tokenIssuer\<rparr>"

definition s_P :: prims where
  "s_P = \<lparr>ed_Sign = (\<lambda>k m. s_sig),
     ed_Verify = (\<lambda>pub m s. s = s_sig \<and>
       (pub = replicate 32 1 \<longrightarrow> m = signed_part [1] \<or> m = signed_part [2])),
     json_Marshal = (\<lambda>c. if c = s_agent_claims then Some [1]
       else if c = s_client_claims then Some [2] else None),
     json_Unmarshal = (\<lambda>b. if b = [1] then Some s_agent_claims
       else if b = [2] then Some s_client_claims else None)\<rparr>"

definition s_rid :: "byte \<Rightarrow> string" where "s_rid b = b64url_encode [b]"

definition s_token :: "byte \<Rightarrow> string" where
  "s_token b = pasetoHeader @ b64url_encode (b # s_sig)"

definition s_key :: "(bytes \<times> bytes) option" where "s_key = Some (replicate 32 1, [1])"

definition s_agent_addr :: EndpointAddr where
  "s_agent_addr = \<lparr>ea_Domain = 1, ea_Group = 2, ea_Endpoint = 1, ea_RoleFlags = RoleAgent\<rparr>"

definition s_client_addr :: EndpointAddr where
  "s_client_addr = \<lparr>ea_Domain = 1, ea_Group = 2, ea_Endpoint = 2, ea_RoleFlags = RoleClient\<rparr>"

definition s_agent_req :: EnrollRequest where
  "s_agent_req = \<lparr>req_PublicKey = replicate 32 2, req_Fingerprint = ''agent'', req_RoleFlags = RoleAgent\<rparr>"

definition s_client_req :: EnrollRequest where
  "s_client_req = \<lparr>req_PublicKey = replicate 32 3, req_Fingerprint = ''client'', req_RoleFlags = RoleClient\<rparr>"

definition s_ent :: "byte \<Rightarrow> entropy" where
  "s_ent b = \<lparr>ent_nonce = Some [b], ent_requestID = Some [b]\<rparr>"

definition s_conf :: "byte \<Rightarrow> EnrollConfirm" where
  "s_conf b = \<lparr>conf_RequestID = s_rid b, conf_Signature = s_sig\<rparr>"

text \<open>The agent registers by pre-approval; the client waits for its approval.\<close>

definition s_ops1 :: "reg_op list" where
  "s_ops1 = [OpPreApprove ''agent'' 1 2, OpEnroll s_agent_req (s_ent 1) 5, OpConfirm 6 (s_conf 1),
     OpEnroll s_client_req (s_ent 2) 7, OpConfirm 8 (s_conf 2)]"

text \<open>The client is approved, both activate and are observed.\<close>

definition s_ops2 :: "reg_op list" where
  "s_ops2 = [OpApprove 9 (s_rid 2) 1 2, OpActivate 10 s_agent_addr (s_token 1),
     OpActivate 11 s_client_addr (s_token 2), OpObserve 12 s_agent_addr ''10.0.0.1:9'' ''udp'',
     OpObserve 13 s_client_addr ''10.0.0.2:7'' ''udp'']"

definition s_agent_pe :: pendingEnroll where
  "s_agent_pe = \<lparr>pe_RequestID = s_rid 1, pe_PublicKey = replicate 32 2, pe_Fingerprint = ''agent'',
     pe_RoleFlags = RoleAgent, pe_Challenge = [1], pe_CreatedAt = 5, pe_State = StateRegistered,
     pe_Address = s_agent_addr, pe_Token = s_token 1\<rparr>"

definition s_client_pe :: "byte \<Rightarrow> EndpointAddr \<Rightarrow> string \<Rightarrow> pendingEnroll" where
  "s_client_pe st a t =
     \<lparr>pe_RequestID = s_rid 2, pe_PublicKey = replicate 32 3, pe_Fingerprint = ''client'',
      pe_RoleFlags = RoleClient, pe_Challenge = [2], pe_CreatedAt = 7, pe_State = st,
      pe_Address = a, pe_Token = t\<rparr>"

lemma s_client_pe_sel:
  "pe_State (s_client_pe st a t) = st" "pe_PublicKey (s_client_pe st a t) = replicate 32 3"
  "pe_Fingerprint (s_client_pe st a t) = ''client''" "pe_RoleFlags (s_client_pe st a t) = RoleClient"
  by (simp_all add: s_client_pe_def)

definition s_agent_ep :: "byte \<Rightarrow> RegisteredEndpoint" where
  "s_agent_ep st = \<lparr>ep_Addr = s_agent_addr, ep_PublicKey = replicate 32 2, ep_State = st,
     ep_Token = s_token 1, ep_Fingerprint = ''agent''\<rparr>"

definition s_client_ep :: "byte \<Rightarrow> RegisteredEndpoint" where
  "s_client_ep st = \<lparr>ep_Addr = s_client_addr, ep_PublicKey = replicate 32 3, ep_State = st,
     ep_Token = s_token 2, ep_Fingerprint = ''client''\<rparr>"

definition s_r1 :: Registrar where
  "s_r1 = \<lparr>rg_publicKey = replicate 32 1, rg_privateKey = [1],
     rg_endpoints = [(1, [(2, [(1, s_agent_ep StateRegistered)])])],
     rg_pending = [(s_rid 1, s_agent_pe), (s_rid 2, s_client_pe StatePending zero_addr [])],
     rg_byFingerprint = [(''agent'', s_rid 1), (''client'', s_rid 2)],
     rg_preApproved = [(''agent'', \<lparr>am_Domain = 1, am_Group = 2\<rparr>)],
     rg_nextID = [(1, [(2, 2)])], rg_reachability = [], rg_tokenTTL = 1000\<rparr>"

definition s_r2 :: Registrar where
  "s_r2 = \<lparr>rg_publicKey = replicate 32 1, rg_privateKey = [1],
     rg_endpoints = [(1, [(2, [(1, s_agent_ep StateActive), (2, s_client_ep StateActive)])])],
     rg_pending = [(s_rid 1, s_agent_pe),
       (s_rid 2, s_client_pe StateRegistered s_client_addr (s_token 2))],
     rg_byFingerprint = [(''agent'', s_rid 1), (''client'', s_rid 2)],
     rg_preApproved = [(''agent'', \<lparr>am_Domain = 1, am_Group = 2\<rparr>)],
     rg_nextID = [(1, [(2, 3)])],
     rg_reachability =
       [(AddrKey s_agent_addr, \<lparr>rc_Addr = s_agent_addr,
          rc_Direct = Some \<lparr>dr_ObservedAddr = ''10.0.0.1:9'', dr_Proto = ''udp''\<rparr>,
          rc_Relay = None, rc_UpdatedAt = 12\<rparr>),
        (AddrKey s_client_addr, \<lparr>rc_Addr = s_client_addr,
          rc_Direct = Some \<lparr>dr_ObservedAddr = ''10.0.0.2:7'', dr_Proto = ''udp''\<rparr>,
          rc_Relay = None, rc_UpdatedAt = 13\<rparr>)],
     rg_tokenTTL = 1000\<rparr>"

lemma s_P_sel [simp]:
  "ed_Sign s_P k m = s_sig"
  "ed_Verify s_P pub m s \<longleftrightarrow> s = s_sig \<and>
     (pub = replicate 32 1 \<longrightarrow> m = signed_part [1] \<or> m = signed_part [2])"
  "json_Marshal s_P c = (if c = s_agent_claims then Some [1]
     else if c = s_client_claims then Some [2] else None)"
  "json_Unmarshal s_P b = (if b = [1] then Some s_agent_claims
     else if b = [2] then Some s_client_claims else None)"
  by (simp_all add: s_P_def)

lemma s_rid_eq [simp]: "s_rid a = s_rid b \<longleftrightarrow> a = b"
  by (simp add: s_rid_def)

lemma s_requestID [simp]: "randomRequestID (s_ent b) = Some (s_rid b)" "ent_nonce (s_ent b) = Some [b]"
  by (simp_all add: randomRequestID_def s_ent_def s_rid_def)

lemma s_SignToken [simp]:
  "SignToken s_P s_agent_claims k = Inr (s_token 1)"
  "SignToken s_P s_client_claims k = Inr (s_token 2)"
  by (simp_all add: SignToken_def s_token_def) (simp add: s_client_claims_def s_agent_claims_def)

lemma s_VerifyToken [simp]:
  "VerifyToken s_P now (s_token 1) (replicate 32 1) =
     (if 1006 < now then Inl TokExpired else Inr s_agent_claims)"
  "VerifyToken s_P now (s_token 2) (replicate 32 1) =
     (if 1009 < now then Inl TokExpired else Inr s_client_claims)"
  using VerifyToken_encoded [of s_sig s_P now "[1]" "replicate 32 1"]
    VerifyToken_encoded [of s_sig s_P now "[2]" "replicate 32 1"]
  by (simp_all add: s_token_def s_sig_def s_agent_claims_def s_client_claims_def)

lemmas reg_eval = reg_run_def NewRegistrar_def PreApprove_def Enroll_def RoleOf_def
  existingEnrollment_def ConfirmEnrollment_def Let_def approveStored_def registerApproved_def
  findByFingerprint_def allEndpoints_def countEndpoints_def gm_len_def allocateID_def
  alloc_loop.simps isIDTaken_def alloc_candidate_def gm_vals_def storeEndpoint_def putEndpoint_def
  getEndpoint_def gm_get_def gm_put_def gm_del_def gm_sub_def ApproveEnrollment_def
  ActivateEndpoint_def claims_match_flags_def claims_match_def ObserveEndpoint_def
  getOrCreateReachability_def

lemma s_run1: "reg_run s_P s_key 1000 s_ops1 = Some s_r1"
  by (simp add: reg_eval s_key_def s_ops1_def s_r1_def s_agent_req_def s_client_req_def s_conf_def
      s_agent_pe_def s_client_pe_def s_agent_ep_def s_agent_addr_def flip: s_agent_claims_def)

lemma reg_run_append:
  assumes "reg_run P key ttl xs = Some r" "legal_ops fresh_op (reg_exec P) ys r"
  shows "reg_run P key ttl (xs @ ys) = Some (run_ops (reg_exec P) ys r)"
  using assms
  by (auto simp: reg_run_def run_ops_append legal_ops_append split: sum.splits if_splits)

lemma s_addr_key [simp]: "AddrKey s_agent_addr \<noteq> AddrKey s_client_addr"
  "AddrKey s_client_addr \<noteq> AddrKey s_agent_addr"
  by (simp_all add: AddrKey_eq_iff same_endpoint_def s_agent_addr_def s_client_addr_def)

lemma s_addr_sel [simp]:
  "ea_Domain s_agent_addr = 1" "ea_Group s_agent_addr = 2" "ea_Endpoint s_agent_addr = 1"
  "ea_RoleFlags s_agent_addr = RoleAgent"
  "ea_Domain s_client_addr = 1" "ea_Group s_client_addr = 2" "ea_Endpoint s_client_addr = 2"
  "ea_RoleFlags s_client_addr = RoleClient"
  by (simp_all add: s_agent_addr_def s_client_addr_def)

lemma s_approve:
  "ApproveEnrollment s_P 9 (s_rid 2) 1 2 s_r1 = (Inr (), s_r1
     \<lparr>rg_endpoints := [(1, [(2, [(1, s_agent_ep StateRegistered), (2, s_client_ep StateRegistered)])])],
      rg_pending := [(s_rid 1, s_agent_pe),
        (s_rid 2, s_client_pe StateRegistered s_client_addr (s_token 2))],
      rg_nextID := [(1, [(2, 3)])]\<rparr>)"
  by (simp add: reg_eval s_r1_def s_client_pe_def s_agent_ep_def s_client_ep_def
      s_client_addr_def s_agent_pe_def flip: s_client_claims_def)

lemma s_legal2: "legal_ops fresh_op (reg_exec s_P) s_ops2 s_r1"
  by (simp add: s_ops2_def)

lemma s_steps2: "run_ops (reg_exec s_P) s_ops2 s_r1 = s_r2"
  unfolding s_ops2_def run_ops.simps reg_exec.simps s_approve
  by (simp add: reg_eval s_r1_def s_r2_def s_agent_ep_def s_client_ep_def
      s_agent_claims_def s_client_claims_def)

lemma s_run2: "reg_run s_P s_key 1000 (s_ops1 @ s_ops2) = Some s_r2"
  using reg_run_append [OF s_run1 s_legal2] by (simp add: s_steps2)

end
