(* ===== verification/Registrar_Issued.thy ===== *)
theory Registrar_Issued
  imports Registrar_Samples
begin

text \<open>
  The tokens issued in a run. \<open>registerApproved\<close> is the only caller of \<open>SignToken\<close>, reached from
  a confirmation that is pre-approved (or of a relay) and from an approval: \<open>issued P x r\<close> is the
  token that call returns while operation \<open>x\<close> runs in \<open>r\<close>. What the registrar has signed is a
  matter of the operations executed, whatever became of its records since; that every token ever
  issued still has its record is proved, over all runs (\<open>issued_on_record\<close>).
\<close>

definition issuedToken ::
    "prims \<Rightarrow> time \<Rightarrow> pendingEnroll \<Rightarrow> DomainID \<Rightarrow> GroupID \<Rightarrow> Registrar \<Rightarrow> string option" where
  "issuedToken P now pe d g r =
     (case fst (registerApproved P now pe d g r) of
        Inl e \<Rightarrow> None | Inr pe' \<Rightarrow> Some (pe_Token pe'))"

fun issued :: "prims \<Rightarrow> reg_op \<Rightarrow> Registrar \<Rightarrow> string option" where
  "issued P (OpConfirm now c) r =
     (case gm_get (rg_pending r) (conf_RequestID c) of
        None \<Rightarrow> None
      | Some pe \<Rightarrow>
          if pe_State pe \<noteq> StateChallengeIssued then None
          else if \<not> ed_Verify P (pe_PublicKey pe) (pe_Challenge pe) (conf_Signature c) then None
          else if RoleOf (pe_RoleFlags pe) = RoleRelay
            then issuedToken P now pe RelayDomain RelayGroup r
          else case gm_get (rg_preApproved r) (pe_Fingerprint pe) of
                 Some mapping \<Rightarrow> issuedToken P now pe (am_Domain mapping) (am_Group mapping) r
               | None \<Rightarrow> None)"
| "issued P (OpApprove now rid d g) r =
     (case gm_get (rg_pending r) rid of
        None \<Rightarrow> None
      | Some pe \<Rightarrow>
          if pe_State pe \<noteq> StatePending then None
          else if d = RelayDomain then None
          else issuedToken P now pe d g r)"
| "issued P _ r = None"

fun issued_in :: "prims \<Rightarrow> reg_op list \<Rightarrow> Registrar \<Rightarrow> string set" where
  "issued_in P [] r = {}"
| "issued_in P (x # xs) r = set_option (issued P x r) \<union> issued_in P xs (reg_exec P x r)"

lemma issued_in_append:
  "issued_in P (xs @ ys) r = issued_in P xs r \<union> issued_in P ys (run_ops (reg_exec P) xs r)"
  by (induction xs arbitrary: r) auto

section \<open>Issued tokens stay on record\<close>

definition token_held :: "string \<Rightarrow> Registrar \<Rightarrow> bool" where
  "token_held t r \<longleftrightarrow> (\<exists>d g i ep. ep_at r d g i = Some ep \<and> ep_Token ep = t)"

lemma token_heldI: "ep_at r d g i = Some ep \<Longrightarrow> ep_Token ep = t \<Longrightarrow> token_held t r"
  unfolding token_held_def by blast

lemma token_held_pending [simp]: "token_held t (r\<lparr>rg_pending := p\<rparr>) = token_held t r"
  by (simp add: token_held_def)

lemma token_held_rel:
  assumes "reg_rel r r'" "token_held t r"
  shows "token_held t r'"
proof -
  from assms(2) obtain d g i ep where ep: "ep_at r d g i = Some ep" "ep_Token ep = t"
    by (auto simp: token_held_def)
  from assms(1) ep(1) obtain ep' where ep': "ep_at r' d g i = Some ep'" "ep_le ep ep'"
    by (rule reg_rel_endpoint)
  from ep'(2) have "ep_Token ep' = ep_Token ep" by (cases ep; cases ep') (simp add: ep_le_def)
  with ep(2) ep'(1) show ?thesis unfolding token_held_def by blast
qed

lemma approveStored_held:
  assumes inv: "reg_inv P r" and tok: "issuedToken P now pe d g r = Some t"
  shows "token_held t (snd (approveStored P now rid pe d g r))"
proof -
  from tok obtain pe' r1 where ok: "registerApproved P now pe d g r = (Inr pe', r1)"
    and t: "t = pe_Token pe'"
    by (cases "registerApproved P now pe d g r") (auto simp: issuedToken_def split: sum.splits)
  from ok have "token_held t r1"
  proof (cases rule: registerApproved_Inr)
    case (reuse a ep)
    with findByFingerprint_Some [OF reg_invD(1) [OF inv] reuse(1)] t show ?thesis
      unfolding token_held_def by fastforce
  next
    case (fresh c r2 token)
    then show ?thesis
      by (intro token_heldI [of _ d g c], simp add: storeEndpoint_def ep_at_putEndpoint)
        (simp add: t)
  qed
  then show ?thesis
    by (simp add: approveStored_def ok)
qed

lemma issued_held:
  assumes inv: "reg_inv P r" and iss: "issued P x r = Some t"
  shows "token_held t (reg_exec P x r)"
proof (cases x)
  case (OpConfirm now c)
  with iss inv show ?thesis
    by (auto simp: ConfirmEnrollment_def Let_def approveStored_held
        split: option.splits if_splits)
next
  case (OpApprove now rid d g)
  with iss inv show ?thesis
    by (auto simp: ApproveEnrollment_def approveStored_held split: option.splits if_splits)
qed (use iss in simp_all)

lemma issued_on_record:
  assumes "reg_inv P r" "legal_ops fresh_op (reg_exec P) xs r" "t \<in> issued_in P xs r"
  shows "token_held t (run_ops (reg_exec P) xs r)"
  using assms
proof (induction xs arbitrary: r)
  case (Cons x xs)
  have legal: "fresh_op x r" "legal_ops fresh_op (reg_exec P) xs (reg_exec P x r)"
    using Cons.prems(2) by simp_all
  have inv: "reg_inv P (reg_exec P x r)" by (rule reg.exec_inv [OF Cons.prems(1) legal(1)])
  consider "issued P x r = Some t" | "t \<in> issued_in P xs (reg_exec P x r)"
    using Cons.prems(3) by (cases "issued P x r") auto
  then show ?case
  proof cases
    case 1
    then have "token_held t (reg_exec P x r)" by (rule issued_held [OF Cons.prems(1)])
    with reg.run_rel [OF inv legal(2)] show ?thesis by (auto intro: token_held_rel)
  next
    case 2
    with Cons.IH [OF inv legal(2)] show ?thesis by simp
  qed
qed simp

section \<open>Unforgeability\<close>

text \<open>
  What the code relies on, about the library and not about the registrar's records: under the
  registrar's public key only the documents of tokens that were issued in this run verify
  (Ed25519 is unforgeable), the two keys belong together, and JSON reads back the claims of a
  document that was signed.
\<close>

definition documents :: "string set \<Rightarrow> bytes set" where
  "documents T = {m. \<exists>t \<in> T. token_message t = Some m}"

definition unforgeable ::
    "prims \<Rightarrow> (bytes \<times> bytes) option \<Rightarrow> duration \<Rightarrow> reg_op list \<Rightarrow> bool" where
  "unforgeable P key ttl xs \<longleftrightarrow>
     (case NewRegistrar key ttl of
        Inl e \<Rightarrow> True
      | Inr r0 \<Rightarrow>
          only_signed P (rg_publicKey r0) (signed_part ` documents (issued_in P xs r0)) \<and>
          keypair P (rg_publicKey r0) (rg_privateKey r0) \<and>
          (\<forall>c m. json_Marshal P c = Some m \<longrightarrow> m \<in> documents (issued_in P xs r0) \<longrightarrow> json_ok P c))"

lemma unforgeableD:
  assumes run: "reg_run P key ttl xs = Some r" and unf: "unforgeable P key ttl xs"
  shows "ed_Verify P (rg_publicKey r) m s \<Longrightarrow>
      \<exists>addr ep p. getEndpoint addr r = Some ep \<and> token_message (ep_Token ep) = Some p \<and>
        m = signed_part p \<and> (\<forall>c. json_Marshal P c = Some p \<longrightarrow> json_ok P c)"
    and "keypair P (rg_publicKey r) (rg_privateKey r)"
proof -
  obtain r0 where r0: "NewRegistrar key ttl = Inr r0" "legal_ops fresh_op (reg_exec P) xs r0"
    and r: "r = run_ops (reg_exec P) xs r0"
    by (rule reg_run_Some [OF run])
  have inv: "reg_inv P r0" by (rule reg_inv_init [OF r0(1)])
  have keys: "rg_publicKey r = rg_publicKey r0" "rg_privateKey r = rg_privateKey r0"
    using reg.run_rel [OF inv r0(2)] by (simp_all add: r reg_rel_def)
  note u = unf [unfolded unforgeable_def r0(1), simplified]
  show "keypair P (rg_publicKey r) (rg_privateKey r)" using u keys by simp
  assume "ed_Verify P (rg_publicKey r) m s"
  then obtain t p where t: "t \<in> issued_in P xs r0" "token_message t = Some p" "m = signed_part p"
    using u keys(1) by (auto simp: only_signed_def documents_def)
  then have doc: "p \<in> documents (issued_in P xs r0)" by (auto simp: documents_def)
  from issued_on_record [OF inv r0(2) t(1)] obtain d g i ep
    where "ep_at r d g i = Some ep" "ep_Token ep = t"
    by (auto simp: token_held_def r)
  then have "getEndpoint \<lparr>ea_Domain = d, ea_Group = g, ea_Endpoint = i, ea_RoleFlags = 0\<rparr> r = Some ep"
    by (simp add: getEndpoint_ep_at)
  with t doc u \<open>ep_Token ep = t\<close> show "\<exists>addr ep p. getEndpoint addr r = Some ep \<and> token_message (ep_Token ep) = Some p \<and>
      m = signed_part p \<and> (\<forall>c. json_Marshal P c = Some p \<longrightarrow> json_ok P c)"
    by blast
qed

end
