(* ===== verification/Registrar_Props.thy ===== *)
theory Registrar_Props
  imports Registrar_Issued
begin

text \<open>
  The properties of the registrar, over the runs of \<^verbatim>\<open>swarm/registrar.go\<close> from its creation:
  \<open>reg_run P key ttl xs = Some r\<close> says that the operations \<open>xs\<close>, executed one after the other
  on a new registrar with fresh request IDs, lead to \<open>r\<close>. Each property is followed by its
  application to the sample run.
\<close>

section \<open>Invariant and history\<close>

text \<open>C1. Every run of the registrar keeps its maps consistent: the fingerprint index is exact,
  registered enrollments and endpoints correspond and agree on address, token, key, fingerprint
  and roles, relays and only relays are in domain 0, endpoint IDs are in 1 .. 65534, every stored
  token is the registrar's signature of exactly the endpoint's claims, and only active endpoints
  have a reachability record.\<close>
theorem registrar_invariant:
  assumes "reg_run P key ttl xs = Some r"
  shows "reg_inv P r"
  using assms by (rule reg_run_inv)

theorem registrar_invariant_witness: "reg_inv s_P s_r2"
  by (rule registrar_invariant [OF s_run2])

text \<open>C3. Proof of possession: behind every registered endpoint there is an enrollment for its
  public key, fingerprint and roles whose challenge was drawn then, and a confirmation that
  signed this challenge with this key; and its domain and group were chosen by the administrator
  (by pre-approving the fingerprint or by approving the request) or it is a relay in domain 0.\<close>
theorem proof_of_possession:
  assumes run: "reg_run P key ttl xs = Some r" and ep: "getEndpoint addr r = Some ep"
  shows "\<exists>req ent t now c rid nonce.
    OpEnroll req ent t \<in> set xs \<and> randomRequestID ent = Some rid \<and> ent_nonce ent = Some nonce \<and>
    req_PublicKey req = ep_PublicKey ep \<and> req_Fingerprint req = ep_Fingerprint ep \<and>
    req_RoleFlags req = ea_RoleFlags (ep_Addr ep) \<and>
    OpConfirm now c \<in> set xs \<and> conf_RequestID c = rid \<and>
    ed_Verify P (ep_PublicKey ep) nonce (conf_Signature c) \<and>
    (RoleOf (ea_RoleFlags (ep_Addr ep)) = RoleRelay \<and> ea_Domain addr = RelayDomain \<or>
     OpPreApprove (ep_Fingerprint ep) (ea_Domain addr) (ea_Group addr) \<in> set xs \<or>
     (\<exists>when. OpApprove when rid (ea_Domain addr) (ea_Group addr) \<in> set xs))"
proof -
  from ep have at: "ep_at r (ea_Domain addr) (ea_Group addr) (ea_Endpoint addr) = Some ep"
    by (simp add: getEndpoint_ep_at)
  note inv = reg_run_inv [OF run]
  obtain rid pe where pe: "gm_get (rg_pending r) rid = Some pe" "same_identity pe ep"
    using link_okD2 [OF reg_invD(6) [OF inv] at] .
  have "enroll_hist P xs rid pe" using reg_run_hist [OF run] pe(1) by (simp add: reg_hist_def)
  moreover have "ea_Domain (ep_Addr ep) = ea_Domain addr" "ea_Group (ep_Addr ep) = ea_Group addr"
    using reg_invD(5) [OF inv at] by (simp_all add: endpoint_ok_def)
  ultimately show ?thesis
    using pe(2) unfolding enroll_hist_def requested_def challenge_signed_def authorised_def
      same_identity_def Let_def by (clarsimp, blast)
qed

theorem proof_of_possession_witness:
  "\<exists>req ent t now c rid nonce.
    OpEnroll req ent t \<in> set (s_ops1 @ s_ops2) \<and> randomRequestID ent = Some rid \<and>
    ent_nonce ent = Some nonce \<and> req_PublicKey req = replicate 32 3 \<and>
    req_Fingerprint req = ''client'' \<and> req_RoleFlags req = RoleClient \<and>
    OpConfirm now c \<in> set (s_ops1 @ s_ops2) \<and> conf_RequestID c = rid \<and>
    ed_Verify s_P (replicate 32 3) nonce (conf_Signature c)"
proof -
  have "getEndpoint s_client_addr s_r2 = Some (s_client_ep StateActive)"
    by (simp add: s_r2_def getEndpoint_def gm_get_def)
  from proof_of_possession [OF s_run2 this] show ?thesis
    by (simp add: s_client_ep_def) blast
qed

text \<open>Progress: whatever operations follow, an endpoint is never deleted or moved, its key,
  token, fingerprint and roles never change, and its state only goes from registered to active
  to revoked.\<close>
theorem endpoint_lifecycle:
  assumes "reg_run P key ttl xs = Some r" "legal_ops fresh_op (reg_exec P) ys r"
    and "getEndpoint addr r = Some ep"
  shows "\<exists>ep'. getEndpoint addr (run_ops (reg_exec P) ys r) = Some ep' \<and>
    ep_Addr ep' = ep_Addr ep \<and> ep_PublicKey ep' = ep_PublicKey ep \<and>
    ep_Token ep' = ep_Token ep \<and> ep_Fingerprint ep' = ep_Fingerprint ep \<and>
    (ep_State ep, ep_State ep') \<in>
      {(StateRegistered, StateRegistered), (StateRegistered, StateActive),
       (StateRegistered, StateRevoked), (StateActive, StateActive), (StateActive, StateRevoked),
       (StateRevoked, StateRevoked)}"
proof -
  note inv = reg_run_inv [OF assms(1)]
  from assms(3) have at: "ep_at r (ea_Domain addr) (ea_Group addr) (ea_Endpoint addr) = Some ep"
    by (simp add: getEndpoint_ep_at)
  obtain ep' where ep': "getEndpoint addr (run_ops (reg_exec P) ys r) = Some ep'" "ep_le ep ep'"
    using reg_rel_endpoint [OF reg.run_rel [OF inv assms(2)] at]
    by (auto simp: getEndpoint_ep_at)
  have "endpoint_ok P r (ea_Domain addr) (ea_Group addr) (ea_Endpoint addr) ep"
    by (rule reg_invD(5) [OF inv at])
  moreover have "ep_Addr ep' = ep_Addr ep \<and> ep_PublicKey ep' = ep_PublicKey ep \<and>
      ep_Token ep' = ep_Token ep \<and> ep_Fingerprint ep' = ep_Fingerprint ep"
    using ep'(2) by (cases ep; cases ep') (simp add: ep_le_def)
  moreover have "ep_State ep' = ep_State ep \<or> ep_State ep = StateRegistered \<and> ep_State ep' = StateActive
      \<or> ep_State ep' = StateRevoked"
    using ep'(2) by (simp add: ep_le_def)
  ultimately show ?thesis using ep'(1) by (auto simp: endpoint_ok_def)
qed

theorem endpoint_lifecycle_witness:
  "\<exists>ep'. getEndpoint s_agent_addr (run_ops (reg_exec s_P) s_ops2 s_r1) = Some ep' \<and>
    ep_Token ep' = s_token 1"
proof -
  have "getEndpoint s_agent_addr s_r1 = Some (s_agent_ep StateRegistered)"
    by (simp add: s_r1_def getEndpoint_def gm_get_def)
  from endpoint_lifecycle [OF s_run1 s_legal2 this] show ?thesis
    by (auto simp: s_agent_ep_def)
qed

text \<open>C5. Revocation is permanent and complete: after a successful \<open>RevokeEndpoint\<close>, whatever
  operations follow, the address has no reachability information, it can neither be activated nor
  observed nor given a relay route, no punch is brokered from it or to it, and it is not listed as
  a relay.\<close>
theorem revocation_permanent:
  assumes "reg_run P key ttl xs = Some r" "RevokeEndpoint addr r = (Inr (), r1)"
    and "legal_ops fresh_op (reg_exec P) ys r1" "r' = run_ops (reg_exec P) ys r1"
  shows "LookupReachability addr r' = None \<and> isl (fst (ActivateEndpoint P now addr token r')) \<and>
    isl (fst (ObserveEndpoint now addr obs proto r')) \<and>
    isl (fst (SetRelayRoute P now addr token relay r')) \<and>
    isl (RequestPunch P now addr other token r') \<and> isl (RequestPunch P now other addr token r') \<and>
    \<not> isActive addr r'"
proof -
  note inv = reg_run_inv [OF assms(1)]
  from assms(2) obtain ep where ep: "getEndpoint addr r = Some ep"
    and r1: "r1 = snd (RevokeEndpoint addr r)"
    by (auto simp: RevokeEndpoint_def split: option.splits)
  have inv1: "reg_inv P r1" unfolding r1 by (rule RevokeEndpoint_inv [OF inv])
  have "getEndpoint addr r1 = Some (ep\<lparr>ep_State := StateRevoked\<rparr>)"
    using ep by (simp add: r1 RevokeEndpoint_def getEndpoint_ep_at ep_at_putEndpoint)
  then obtain ep' where ep': "getEndpoint addr r' = Some ep'"
      "ep_le (ep\<lparr>ep_State := StateRevoked\<rparr>) ep'"
    using reg_rel_endpoint [OF reg.run_rel [OF inv1 assms(3)]] unfolding assms(4) getEndpoint_ep_at
    by blast
  from ep'(2) have st: "ep_State ep' = StateRevoked" by (simp add: ep_le_def)
  have inv': "reg_inv P r'" unfolding assms(4) by (rule reg.run_inv [OF inv1 assms(3)])
  have inactive: "\<not> isActive addr r'" using ep'(1) st by (simp add: isActive_def)
  moreover have "gm_get (rg_reachability r') (AddrKey addr) = None"
  proof (rule ccontr)
    assume "gm_get (rg_reachability r') (AddrKey addr) \<noteq> None"
    then obtain info where "gm_get (rg_reachability r') (AddrKey addr) = Some info" by blast
    then have "AddrKey addr = AddrKey (rc_Addr info)" "isActive (rc_Addr info) r'"
      using reg_invD(8) [OF inv'] unfolding reach_ok_def by blast+
    then show False using isActive_cong [of addr "rc_Addr info" r'] inactive
      by (simp add: AddrKey_eq_iff)
  qed
  ultimately show ?thesis
    using ep'(1) st
    by (simp add: LookupReachability_def ActivateEndpoint_def ObserveEndpoint_def
        SetRelayRoute_def RequestPunch_def directOf_def split: sum.split option.split)
qed

theorem revocation_permanent_witness:
  "LookupReachability s_agent_addr (snd (RevokeEndpoint s_agent_addr s_r2)) = None"
proof -
  have "RevokeEndpoint s_agent_addr s_r2 = (Inr (), snd (RevokeEndpoint s_agent_addr s_r2))"
    by (simp add: RevokeEndpoint_def s_r2_def getEndpoint_def gm_get_def)
  from revocation_permanent [OF s_run2 this, of "[]"] show ?thesis by simp
qed

section \<open>Identity\<close>

lemma endpoint_enrollment:
  assumes "reg_inv P r" "getEndpoint addr r = Some ep"
  obtains rid pe where "gm_get (rg_pending r) rid = Some pe" "same_identity pe ep"
    "same_endpoint (ep_Addr ep) addr"
proof -
  from assms(2) have at: "ep_at r (ea_Domain addr) (ea_Group addr) (ea_Endpoint addr) = Some ep"
    by (simp add: getEndpoint_ep_at)
  then have "same_endpoint (ep_Addr ep) addr"
    using reg_invD(5) [OF assms(1) at] by (simp add: endpoint_ok_def same_endpoint_def)
  moreover obtain rid pe where "gm_get (rg_pending r) rid = Some pe" "same_identity pe ep"
    by (rule link_okD2 [OF reg_invD(6) [OF assms(1)] at])
  ultimately show ?thesis using that by blast
qed

lemma fingerprint_endpoint_unique:
  assumes "reg_inv P r" "getEndpoint a r = Some ep" "getEndpoint b r = Some ep'"
    "ep_Fingerprint ep = ep_Fingerprint ep'" "ep_Fingerprint ep \<noteq> []"
  shows "same_endpoint a b"
proof -
  obtain rid pe where pe: "gm_get (rg_pending r) rid = Some pe" "same_identity pe ep"
    "same_endpoint (ep_Addr ep) a" by (rule endpoint_enrollment [OF assms(1,2)])
  obtain rid' pe' where pe': "gm_get (rg_pending r) rid' = Some pe'" "same_identity pe' ep'"
    "same_endpoint (ep_Addr ep') b" by (rule endpoint_enrollment [OF assms(1,3)])
  have "rid = rid'"
    using index_same_rid [OF reg_invD(4) [OF assms(1)] pe(1) pe'(1)] pe(2) pe'(2) assms(4,5)
    by (simp add: same_identity_def)
  with pe pe' have "ep_Addr ep = ep_Addr ep'" by (simp add: same_identity_def)
  with pe(3) pe'(3) show ?thesis by (simp add: same_endpoint_def)
qed

text \<open>One identity, one address, forever: an endpoint registered under a fingerprint excludes
  any other address for that fingerprint in every later state, even after it was revoked.\<close>
theorem fingerprint_one_address:
  assumes "reg_run P key ttl xs = Some r" "getEndpoint a r = Some ep" "ep_Fingerprint ep \<noteq> []"
    and "legal_ops fresh_op (reg_exec P) ys r"
    and "getEndpoint b (run_ops (reg_exec P) ys r) = Some ep'"
    and "ep_Fingerprint ep' = ep_Fingerprint ep"
  shows "same_endpoint a b"
proof -
  note inv = reg_run_inv [OF assms(1)]
  obtain ep1 where ep1: "getEndpoint a (run_ops (reg_exec P) ys r) = Some ep1" "ep_le ep ep1"
    using reg_rel_endpoint [OF reg.run_rel [OF inv assms(4)]] assms(2) unfolding getEndpoint_ep_at
    by blast
  then have "ep_Fingerprint ep1 = ep_Fingerprint ep" by (cases ep; cases ep1) (simp add: ep_le_def)
  with fingerprint_endpoint_unique [OF reg.run_inv [OF inv assms(4)] ep1(1) assms(5)] assms(3,6)
  show ?thesis by simp
qed

theorem fingerprint_one_address_witness:
  "reg_run s_P s_key 1000 (s_ops1 @ s_ops2) = Some s_r2 \<and> s_ops2 \<noteq> [] \<and>
   same_endpoint s_agent_addr (ep_Addr (s_agent_ep StateActive))"
proof -
  have ep: "getEndpoint s_agent_addr s_r1 = Some (s_agent_ep StateRegistered)"
    by (simp add: s_r1_def getEndpoint_def gm_get_def)
  have ep': "getEndpoint (ep_Addr (s_agent_ep StateActive)) (run_ops (reg_exec s_P) s_ops2 s_r1)
      = Some (s_agent_ep StateActive)"
    by (simp add: s_steps2 s_r2_def getEndpoint_def gm_get_def s_agent_ep_def)
  have "same_endpoint s_agent_addr (ep_Addr (s_agent_ep StateActive))"
    by (rule fingerprint_one_address [OF s_run1 ep _ s_legal2 ep']) (simp_all add: s_agent_ep_def)
  then show ?thesis using s_run2 by (simp add: s_ops2_def)
qed

section \<open>Tokens\<close>

lemma stored_token:
  assumes inv: "reg_inv P r" and ep: "getEndpoint addr r = Some ep"
  obtains t0 m where "json_Marshal P (epClaims ep t0 (rg_tokenTTL r)) = Some m"
    "SignToken P (epClaims ep t0 (rg_tokenTTL r)) (rg_privateKey r) = Inr (ep_Token ep)"
    "ep_Token ep = pasetoHeader @ b64url_encode (m @ ed_Sign P (rg_privateKey r) (signed_part m))"
    "same_endpoint (ep_Addr ep) addr"
proof -
  from ep have at: "ep_at r (ea_Domain addr) (ea_Group addr) (ea_Endpoint addr) = Some ep"
    by (simp add: getEndpoint_ep_at)
  from reg_invD(5) [OF inv at] obtain t0
    where "SignToken P (epClaims ep t0 (rg_tokenTTL r)) (rg_privateKey r) = Inr (ep_Token ep)"
      and "same_endpoint (ep_Addr ep) addr"
    by (auto simp: endpoint_ok_def same_endpoint_def)
  then show ?thesis using that by (auto simp: SignToken_Inr)
qed

text \<open>The document in a token is shorter than \<open>2 ^ 64\<close> bytes, as every Go slice is.\<close>

definition token_small :: "string \<Rightarrow> bool" where
  "token_small token \<longleftrightarrow> (\<forall>m. token_message token = Some m \<longrightarrow> length m < 2 ^ 64)"

lemma token_on_record:
  assumes run: "reg_run P key ttl xs = Some r" and unf: "unforgeable P key ttl xs"
    and small: "token_small token" and ver: "VerifyToken P now token (rg_publicKey r) = Inr c"
  shows "\<exists>addr ep t0. getEndpoint addr r = Some ep \<and> same_endpoint (ep_Addr ep) addr \<and>
    c = epClaims ep t0 (rg_tokenTTL r) \<and> now \<le> t0 + rg_tokenTTL r"
proof -
  obtain m s where m: "token_message token = Some m" "json_Unmarshal P m = Some c"
    "ed_Verify P (rg_publicKey r) (signed_part m) s" "now \<le> cl_ExpiresAt c"
    by (rule VerifyToken_message [OF ver])
  from unforgeableD(1) [OF run unf m(3)] obtain addr ep p where ep: "getEndpoint addr r = Some ep"
    "token_message (ep_Token ep) = Some p" "signed_part m = signed_part p"
    and json: "\<And>c. json_Marshal P c = Some p \<Longrightarrow> json_ok P c"
    by blast
  obtain t0 m0 where m0: "json_Marshal P (epClaims ep t0 (rg_tokenTTL r)) = Some m0"
    "ep_Token ep = pasetoHeader @ b64url_encode (m0 @ ed_Sign P (rg_privateKey r) (signed_part m0))"
    "same_endpoint (ep_Addr ep) addr"
    by (rule stored_token [OF reg_run_inv [OF run] ep(1)])
  have "length (ed_Sign P (rg_privateKey r) (signed_part m0)) = SignatureSize"
    using unforgeableD(2) [OF run unf] m0(1) unfolding keypair_def by blast
  then have "p = m0" using ep(2) m0(2) token_message_encoded by simp
  moreover have "json_ok P (epClaims ep t0 (rg_tokenTTL r))"
    using json m0(1) calculation by blast
  then have j: "json_Unmarshal P m0 = Some (epClaims ep t0 (rg_tokenTTL r))" "length m0 < 2 ^ 64"
    using m0(1) by (auto simp: json_ok_def)
  ultimately have "m = m0" 
    using signed_part_inject [OF _ _ ep(3)] small m(1) by (simp add: token_small_def)
  with j(1) m(2) have "c = epClaims ep t0 (rg_tokenTTL r)" by simp
  with m(4) ep(1) m0(3) show ?thesis by (auto simp: epClaims_def)
qed

text \<open>C2. Token authenticity: if signatures cannot be forged (only documents that the registrar
  signed while it executed \<open>xs\<close> verify under its key), a token that verifies after any run carries
  exactly the claims of an endpoint that is still on record then, whatever was revoked, denied or
  approved again since it was signed: its address, its roles, its public key, its fingerprint, and
  an expiry one lifetime after its issue that has not passed.\<close>
theorem token_authentic:
  assumes "reg_run P key ttl xs = Some r" "unforgeable P key ttl xs" "token_small token"
    and "VerifyToken P now token (rg_publicKey r) = Inr c"
  shows "\<exists>addr ep t0. getEndpoint addr r = Some ep \<and> same_endpoint (ep_Addr ep) addr \<and>
    c = epClaims ep t0 (rg_tokenTTL r) \<and> now \<le> t0 + rg_tokenTTL r"
  using assms by (rule token_on_record)

lemma s_token_message: "token_message (s_token b) = Some [b]"
  using token_message_encoded [of s_sig "[b]"] by (simp add: s_token_def s_sig_def)

lemma s_json_ok: "json_Marshal s_P c \<noteq> None \<Longrightarrow> json_ok s_P c"
  by (auto simp: json_ok_def s_agent_claims_def s_client_claims_def split: if_splits)

lemma s_keypair: "keypair s_P (rg_publicKey s_r2) (rg_privateKey s_r2)"
  by (auto simp: keypair_def s_sig_def s_r2_def split: if_splits)

lemma s_get2 [simp]:
  "getEndpoint s_agent_addr s_r2 = Some (s_agent_ep StateActive)"
  "getEndpoint s_client_addr s_r2 = Some (s_client_ep StateActive)"
  by (simp_all add: s_r2_def getEndpoint_def gm_get_def)

lemma s_issued1: "NewRegistrar s_key 1000 = Inr r0 \<Longrightarrow> s_token 1 \<in> issued_in s_P s_ops1 r0"
  by (drule sym) (simp add: reg_eval issuedToken_def s_key_def s_ops1_def s_agent_req_def s_conf_def
      flip: s_agent_claims_def)

lemma s_issued2: "issued s_P (OpApprove 9 (s_rid 2) 1 2) s_r1 = Some (s_token 2)"
  by (simp add: reg_eval issuedToken_def s_r1_def s_client_pe_def s_agent_ep_def
      flip: s_client_claims_def)

lemma s_issued:
  assumes "NewRegistrar s_key 1000 = Inr r0"
  shows "{s_token 1, s_token 2} \<subseteq> issued_in s_P (s_ops1 @ s_ops2) r0"
proof -
  have "run_ops (reg_exec s_P) s_ops1 r0 = s_r1"
    using s_run1 assms by (simp add: reg_run_def split: if_splits)
  then show ?thesis
    using s_issued1 [OF assms] s_issued2 by (simp add: issued_in_append s_ops2_def)
qed

lemma s_unforgeable: "unforgeable s_P s_key 1000 (s_ops1 @ s_ops2)"
proof (cases "NewRegistrar s_key 1000")
  case (Inr r0)
  from s_issued [OF Inr]
  have "{[1], [2]} \<subseteq> documents (issued_in s_P (s_ops1 @ s_ops2) r0)"
    using s_token_message by (auto simp: documents_def)
  moreover from Inr have keys: "rg_publicKey r0 = replicate 32 1" "rg_privateKey r0 = [1]"
    by (auto simp: NewRegistrar_def s_key_def)
  ultimately have "only_signed s_P (rg_publicKey r0)
      (signed_part ` documents (issued_in s_P (s_ops1 @ s_ops2) r0))"
    by (auto simp: only_signed_def)
  moreover have "keypair s_P (rg_publicKey r0) (rg_privateKey r0)"
    using s_keypair by (simp add: keys s_r2_def)
  ultimately show ?thesis using s_json_ok by (simp add: unforgeable_def Inr)
qed (simp add: unforgeable_def)

lemma s_small: "token_small (s_token b)"
  by (simp add: token_small_def s_token_message)

theorem token_authentic_witness:
  "\<exists>addr ep t0. getEndpoint addr s_r2 = Some ep \<and> same_endpoint (ep_Addr ep) addr \<and>
    s_client_claims = epClaims ep t0 (rg_tokenTTL s_r2) \<and> 100 \<le> t0 + rg_tokenTTL s_r2"
proof (rule token_authentic [OF s_run2 s_unforgeable s_small])
  show "VerifyToken s_P 100 (s_token 2) (rg_publicKey s_r2) = Inr s_client_claims"
    by (simp add: s_r2_def)
qed

text \<open>C6. An issued token works: for every registered endpoint there is the time its token was
  issued at, such that the stored token verifies under the registrar's key to the endpoint's
  claims until its lifetime has passed and not after, and until then activating the endpoint with
  it succeeds and makes it active.\<close>
theorem issued_token_activates:
  assumes run: "reg_run P key ttl xs = Some r"
    and pair: "keypair P (rg_publicKey r) (rg_privateKey r)"
    and json: "\<And>addr ep t0. getEndpoint addr r = Some ep \<Longrightarrow>
      json_Marshal P (epClaims ep t0 (rg_tokenTTL r)) \<noteq> None \<Longrightarrow>
      json_ok P (epClaims ep t0 (rg_tokenTTL r))"
    and ep: "getEndpoint addr r = Some ep" "ep_State ep = StateRegistered"
  shows "\<exists>t0. \<forall>now.
    VerifyToken P now (ep_Token ep) (rg_publicKey r) =
      (if t0 + rg_tokenTTL r < now then Inl TokExpired else Inr (epClaims ep t0 (rg_tokenTTL r))) \<and>
    fst (ActivateEndpoint P now (ep_Addr ep) (ep_Token ep) r) =
      (if t0 + rg_tokenTTL r < now then Inl (TokenProblem TokExpired) else Inr ()) \<and>
    (isActive addr (snd (ActivateEndpoint P now (ep_Addr ep) (ep_Token ep) r)) \<longleftrightarrow>
       now \<le> t0 + rg_tokenTTL r)"
proof -
  obtain t0 m where m: "json_Marshal P (epClaims ep t0 (rg_tokenTTL r)) = Some m"
    and sign: "SignToken P (epClaims ep t0 (rg_tokenTTL r)) (rg_privateKey r) = Inr (ep_Token ep)"
    and addr: "same_endpoint (ep_Addr ep) addr"
    by (rule stored_token [OF reg_run_inv [OF run] ep(1)])
  from json [OF ep(1)] m have "json_ok P (epClaims ep t0 (rg_tokenTTL r))" by simp
  note ver = verify_sign [OF pair this sign]
  have exp: "cl_ExpiresAt (epClaims ep t0 (rg_tokenTTL r)) = t0 + rg_tokenTTL r"
    and match: "claims_match_flags (epClaims ep t0 (rg_tokenTTL r)) (ep_Addr ep)"
    by (simp_all add: epClaims_def claims_match_flags_def claims_match_def)
  have get: "getEndpoint (ep_Addr ep) r = Some ep"
    using ep(1) addr by (simp add: getEndpoint_ep_at same_endpoint_def)
  have act: "ActivateEndpoint P now (ep_Addr ep) (ep_Token ep) r =
      (if t0 + rg_tokenTTL r < now then (Inl (TokenProblem TokExpired), r)
       else (Inr (), putEndpoint (ep_Addr ep) (ep\<lparr>ep_State := StateActive\<rparr>) r))" for now
    by (simp add: ActivateEndpoint_def ver exp match get ep(2))
  have "isActive addr (putEndpoint (ep_Addr ep) (ep\<lparr>ep_State := StateActive\<rparr>) r)"
    using addr by (simp add: isActive_def getEndpoint_ep_at ep_at_putEndpoint same_endpoint_def)
  moreover have "\<not> isActive addr r" using ep by (simp add: isActive_def)
  ultimately show ?thesis
    by (intro exI [of _ t0]) (simp add: ver exp act)
qed

theorem issued_token_activates_witness:
  "\<exists>t0. \<forall>now. fst (ActivateEndpoint s_P now s_agent_addr (s_token 1) s_r1) =
      (if t0 + 1000 < now then Inl (TokenProblem TokExpired) else Inr ())"
proof -
  have s_ttl: "rg_tokenTTL s_r1 = 1000" by (simp add: s_r1_def)
  have pair: "keypair s_P (rg_publicKey s_r1) (rg_privateKey s_r1)"
    using s_keypair by (simp add: s_r1_def s_r2_def)
  have "getEndpoint s_agent_addr s_r1 = Some (s_agent_ep StateRegistered)"
    by (simp add: s_r1_def getEndpoint_def gm_get_def)
  note ex = issued_token_activates [OF s_run1 pair s_json_ok this]
  show ?thesis
    by (rule ex_forward [OF ex]) (simp_all add: s_agent_ep_def s_ttl)
qed

section \<open>Addresses\<close>

lemma ids_run:
  assumes "NewRegistrar key ttl = Inr r0"
    and "legal_ops (\<lambda>x r. fresh_op x r \<and> marshals_op P x r) (reg_exec P) xs r0"
  shows "reg_inv P (run_ops (reg_exec P) xs r0) \<and> ids_inv (run_ops (reg_exec P) xs r0)"
  using reg_ids.run_inv [OF _ assms(2)] reg_inv_init [OF assms(1)] ids_inv_init [OF assms(1)] by simp

text \<open>C7. The endpoint IDs of every group are exactly \<open>1 .. n\<close> with \<open>n\<close> the number of its
  endpoints, and \<open>n\<close> is at most 65534, in every state reached by operations none of which runs
  into claims that cannot be marshalled.\<close>
theorem endpoint_ids_contiguous:
  assumes "NewRegistrar key ttl = Inr r0"
    and "legal_ops (\<lambda>x r. fresh_op x r \<and> marshals_op P x r) (reg_exec P) xs r0"
    and "r = run_ops (reg_exec P) xs r0"
  shows "countEndpoints d g r \<le> maxEndpointsPerGroup \<and>
    (\<forall>i. isIDTaken d g r i \<longleftrightarrow> 1 \<le> unat i \<and> unat i \<le> countEndpoints d g r)"
proof -
  have "ids_dense d g r" using ids_run [OF assms(1,2)] assms(3) by (simp add: ids_inv_def)
  from ids_denseD [OF this] show ?thesis by (auto simp: isIDTaken_ep_at)
qed

definition s_r0 :: Registrar where
  "s_r0 = \<lparr>rg_publicKey = replicate 32 1, rg_privateKey = [1], rg_endpoints = [], rg_pending = [],
     rg_byFingerprint = [], rg_preApproved = [], rg_nextID = [], rg_reachability = [],
     rg_tokenTTL = 1000\<rparr>"

lemma s_new: "NewRegistrar s_key 1000 = Inr s_r0"
  by (simp add: NewRegistrar_def s_key_def s_r0_def)

lemma s_marshals1:
  "legal_ops (\<lambda>x r. fresh_op x r \<and> marshals_op s_P x r) (reg_exec s_P) s_ops1 s_r0"
  by (simp add: reg_eval s_r0_def s_ops1_def s_agent_req_def s_client_req_def s_conf_def
      s_agent_addr_def flip: s_agent_claims_def)

lemma s_end1: "run_ops (reg_exec s_P) s_ops1 s_r0 = s_r1"
  using s_run1 by (simp add: reg_run_def s_new split: if_splits)

theorem endpoint_ids_contiguous_witness:
  "countEndpoints 1 2 s_r1 = 1 \<and> isIDTaken 1 2 s_r1 1 \<and> \<not> isIDTaken 1 2 s_r1 2"
proof -
  have "countEndpoints 1 2 s_r1 = 1"
    by (simp add: s_r1_def countEndpoints_def gm_sub_def gm_get_def gm_len_def)
  with endpoint_ids_contiguous [OF s_new s_marshals1 s_end1 [symmetric], of 1 2]
  show ?thesis by simp
qed

text \<open>C8. Approval below capacity always succeeds: a pending enrollment approved for a group with
  \<open>n < 65534\<close> endpoints becomes the endpoint \<open>n + 1\<close> of that group, registered with the
  enrollment's key, fingerprint and roles, and counted; a full group is refused and nothing
  changes.\<close>
theorem approval_allocates:
  assumes "NewRegistrar key ttl = Inr r0"
    and "legal_ops (\<lambda>x r. fresh_op x r \<and> marshals_op P x r) (reg_exec P) xs r0"
    and "r = run_ops (reg_exec P) xs r0"
    and "gm_get (rg_pending r) rid = Some pe" "pe_State pe = StatePending" "d \<noteq> RelayDomain"
    and "fst (ApproveEnrollment P now rid d g r) \<noteq> Inl (TokenProblem TokMarshal)"
  shows "if countEndpoints d g r = maxEndpointsPerGroup
    then ApproveEnrollment P now rid d g r = (Inl GroupCapacity, r)
    else \<exists>r' ep. ApproveEnrollment P now rid d g r = (Inr (), r') \<and>
      getEndpoint (newAddr pe d g (word_of_nat (Suc (countEndpoints d g r)))) r' = Some ep \<and>
      ep_State ep = StateRegistered \<and> ep_PublicKey ep = pe_PublicKey pe \<and>
      ep_Fingerprint ep = pe_Fingerprint pe \<and> ea_RoleFlags (ep_Addr ep) = pe_RoleFlags pe \<and>
      countEndpoints d g r' = Suc (countEndpoints d g r)"
proof -
  have inv: "reg_inv P r" and dense: "ids_dense d g r"
    using ids_run [OF assms(1,2)] assms(3) by (simp_all add: ids_inv_def)
  have none: "findByFingerprint (pe_Fingerprint pe) r = None"
    using unregistered_find_None [OF inv assms(4)] assms(5) by simp
  show ?thesis
  proof (cases "countEndpoints d g r = maxEndpointsPerGroup")
    case True
    with assms(4-6) none show ?thesis
      by (simp add: ApproveEnrollment_def approveStored_def registerApproved_def)
  next
    case False
    with ids_denseD(1) [OF dense] have less: "countEndpoints d g r < 65534" by simp
    let ?addr = "newAddr pe d g (word_of_nat (Suc (countEndpoints d g r)))"
    obtain t where t: "SignToken P (claimsFor pe ?addr now (rg_tokenTTL r)) (rg_privateKey r) = Inr t"
    proof (cases "SignToken P (claimsFor pe ?addr now (rg_tokenTTL r)) (rg_privateKey r)")
      case (Inl e)
      then have none_m: "json_Marshal P (claimsFor pe ?addr now (rg_tokenTTL r)) = None"
        by (auto simp: SignToken_def Let_def split: option.splits)
      obtain r1 where al: "allocateID d g r = (Inr (word_of_nat (Suc (countEndpoints d g r))), r1)"
        using ids_next [OF dense less] by (cases "allocateID d g r") (simp del: of_nat_Suc)
      have "rg_tokenTTL r1 = rg_tokenTTL r" by (subst allocateID_frame [OF al]) simp
      with none_m al assms(4-7) none less have False
        by (simp add: ApproveEnrollment_def approveStored_def registerApproved_def Let_def
            claimsFor_def SignToken_def newAddr_def del: of_nat_Suc)
      then show ?thesis ..
    qed (use that in blast)
    obtain m where reg: "registerApproved P now pe d g r =
        (Inr (pe\<lparr>pe_Address := ?addr, pe_Token := t, pe_State := StateRegistered\<rparr>),
         storeEndpoint ?addr (pe_PublicKey pe) t (pe_Fingerprint pe) (r\<lparr>rg_nextID := m\<rparr>))"
      and new: "getEndpoint ?addr r = None"
      by (rule registerApproved_succeeds [OF dense less none refl t])
    have wf: "endpoints_wf (r\<lparr>rg_nextID := m\<rparr>)" by (simp add: reg_invD(1) [OF inv])
    from False new assms(4-6) reg show ?thesis
      by (simp add: ApproveEnrollment_def approveStored_def storeEndpoint_def getEndpoint_ep_at
          ep_at_putEndpoint countEndpoints_putEndpoint [OF wf] del: of_nat_Suc)
  qed
qed

theorem approval_allocates_witness:
  "\<exists>r' ep. ApproveEnrollment s_P 9 (s_rid 2) 1 2 s_r1 = (Inr (), r') \<and>
    getEndpoint s_client_addr r' = Some ep \<and> ep_PublicKey ep = replicate 32 3"
proof -
  have pe: "gm_get (rg_pending s_r1) (s_rid 2) = Some (s_client_pe StatePending zero_addr [])"
    by (simp add: s_r1_def gm_get_def)
  have cnt: "countEndpoints 1 2 s_r1 = 1"
    by (simp add: s_r1_def countEndpoints_def gm_sub_def gm_get_def gm_len_def)
  have addr: "newAddr (s_client_pe StatePending zero_addr []) 1 2 2 = s_client_addr"
    by (simp add: newAddr_def s_client_pe_def s_client_addr_def)
  from approval_allocates [OF s_new s_marshals1 s_end1 [symmetric] pe, of 1 9 2] show ?thesis
    by (simp add: cnt addr s_approve s_client_pe_sel) blast
qed

text \<open>The probe sequence of \<open>allocateID\<close> is incomplete (a defect the code does not reach while
  IDs are handed out in order): when the hint is \<open>h \<ge> 3\<close> and \<open>h - 1\<close> is the only free ID of the
  group, the allocation fails although the group is below its capacity.\<close>
theorem allocator_probe_gap:
  assumes "hintOf d g r = h" "3 \<le> h" "h \<le> 65534" "endpoints_wf r"
    and "\<And>i. isIDTaken d g r i \<longleftrightarrow> 1 \<le> unat i \<and> unat i \<le> 65534 \<and> unat i \<noteq> h - 1"
  shows "fst (allocateID d g r) = Inl NoAvailableIDs \<and> countEndpoints d g r < maxEndpointsPerGroup"
proof -
  have "fst (allocateID d g r) = Inl NoAvailableIDs"
    using assms(5) by (intro allocateID_fails_below_capacity [OF assms(1-3)]) (auto simp: isIDTaken_ep_at)
  moreover have "countEndpoints d g r = card {i. isIDTaken d g r i}"
    using assms(4) by (simp add: countEndpoints_def endpoints_wf_def gm.len_keys isIDTaken_def dom_def)
  moreover have "card {i. isIDTaken d g r i} \<le> card ({1..65534} - {h - 1})"
    using assms(5) by (intro card_inj_on_le [where f = unat]) (auto simp: inj_on_def word_unat_eq_iff)
  moreover have "card ({1..65534} - {h - 1}) = 65533"
    using assms(2,3) by (subst card_Diff_singleton) auto
  ultimately show ?thesis by simp
qed

definition s_gap_ids :: "nat list" where
  "s_gap_ids = filter (\<lambda>i. i \<noteq> 4) [1..<65535]"

lemma s_gap_ids: "distinct s_gap_ids" "j \<in> set s_gap_ids \<longleftrightarrow> j \<noteq> 4 \<and> 1 \<le> j \<and> j < 65535"
  by (auto simp only: s_gap_ids_def distinct_filter distinct_upt set_filter set_upt
      atLeastLessThan_iff mem_Collect_eq)

definition s_gap :: Registrar where
  "s_gap = s_r0\<lparr>rg_endpoints :=
       [(1, [(2, map (\<lambda>i. (word_of_nat i, s_agent_ep StateActive)) s_gap_ids)])],
     rg_nextID := [(1, [(2, 5)])]\<rparr>"

lemma s_gap_map:
  "gm_sub (gm_sub (rg_endpoints s_gap) 1) 2 =
    map (\<lambda>i. (word_of_nat i, s_agent_ep StateActive)) s_gap_ids"
  by (simp add: s_gap_def gm_sub_def gm_get_def)

lemma s_gap_taken: "isIDTaken 1 2 s_gap i \<longleftrightarrow> 1 \<le> unat i \<and> unat i \<le> 65534 \<and> unat i \<noteq> 4"
proof -
  have "isIDTaken 1 2 s_gap i \<longleftrightarrow> (\<exists>j. j \<noteq> 4 \<and> 1 \<le> j \<and> j < 65535 \<and> i = word_of_nat j)"
    unfolding isIDTaken_def s_gap_map gm_get_def
    by (auto simp: map_of_eq_None_iff image_iff s_gap_ids)
  also have "\<dots> \<longleftrightarrow> 1 \<le> unat i \<and> unat i \<le> 65534 \<and> unat i \<noteq> 4"
  proof
    assume "\<exists>j. j \<noteq> 4 \<and> 1 \<le> j \<and> j < 65535 \<and> i = word_of_nat j"
    then show "1 \<le> unat i \<and> unat i \<le> 65534 \<and> unat i \<noteq> 4"
      by (auto simp: unat_of_nat take_bit_eq_mod)
  next
    assume "1 \<le> unat i \<and> unat i \<le> 65534 \<and> unat i \<noteq> 4"
    then show "\<exists>j. j \<noteq> 4 \<and> 1 \<le> j \<and> j < 65535 \<and> i = word_of_nat j"
      by (intro exI [of _ "unat i"]) auto
  qed
  finally show ?thesis .
qed

lemma s_gap_wf: "endpoints_wf s_gap"
proof -
  have "inj_on (word_of_nat :: nat \<Rightarrow> u16) (set s_gap_ids)"
    by (rule inj_onI) (auto simp: word_unat_eq_iff unat_of_nat take_bit_eq_mod s_gap_ids)
  then have "gm_wf (map (\<lambda>i. (word_of_nat i :: u16, s_agent_ep StateActive)) s_gap_ids)"
    by (simp add: gm_wf_def distinct_map comp_def s_gap_ids)
  then show ?thesis
    by (simp add: endpoints_wf_def s_gap_def gm_sub_def gm_get_def) (simp add: gm_wf_def)
qed

theorem allocator_probe_gap_witness: "fst (allocateID 1 2 s_gap) = Inl NoAvailableIDs"
proof -
  have "hintOf 1 2 s_gap = 5"
    by (simp add: hintOf_def s_gap_def gm_sub_def gm_get_def)
  from allocator_probe_gap [OF this _ _ s_gap_wf] show ?thesis
    by (simp add: s_gap_taken)
qed

section \<open>Rendezvous and relays\<close>

text \<open>C9. A brokered hole punch connects two active endpoints: the request carries the client's
  own token, each side is told the other's address, and the socket addresses handed out are the
  ones of the last observation of each endpoint.\<close>
theorem punch_rendezvous:
  assumes run: "reg_run P key ttl xs = Some r"
    and punch: "RequestPunch P now ca aa token r = Inr (toClient, toAgent)"
  shows "(\<exists>c. VerifyToken P now token (rg_publicKey r) = Inr c \<and> claims_match c ca) \<and>
    isActive ca r \<and> isActive aa r \<and>
    pr_PeerAddr toClient = aa \<and> pr_PeerAddr toAgent = ca \<and>
    last_observed xs aa =
      Some \<lparr>dr_ObservedAddr = pr_ObservedAddr toClient, dr_Proto = pr_Proto toClient\<rparr> \<and>
    last_observed xs ca =
      Some \<lparr>dr_ObservedAddr = pr_ObservedAddr toAgent, dr_Proto = pr_Proto toAgent\<rparr>"
proof -
  obtain c cd ad where "VerifyToken P now token (rg_publicKey r) = Inr c" "claims_match c ca"
    and direct: "directOf ca r = Some cd" "directOf aa r = Some ad"
    and "isActive ca r" "isActive aa r"
    and "toClient = \<lparr>pr_PeerAddr = aa, pr_ObservedAddr = dr_ObservedAddr ad, pr_Proto = dr_Proto ad\<rparr>"
      "toAgent = \<lparr>pr_PeerAddr = ca, pr_ObservedAddr = dr_ObservedAddr cd, pr_Proto = dr_Proto cd\<rparr>"
    using punch by (auto simp: RequestPunch_def split: sum.splits option.splits if_splits)
  moreover have "last_observed xs ca = Some cd" "last_observed xs aa = Some ad"
    using reg_run_observed [OF run] direct by (simp_all add: observe_hist_def)
  ultimately show ?thesis by simp
qed

lemma s_r2_view:
  "isActive s_agent_addr s_r2" "isActive s_client_addr s_r2"
  "directOf s_agent_addr s_r2 = Some \<lparr>dr_ObservedAddr = ''10.0.0.1:9'', dr_Proto = ''udp''\<rparr>"
  "directOf s_client_addr s_r2 = Some \<lparr>dr_ObservedAddr = ''10.0.0.2:7'', dr_Proto = ''udp''\<rparr>"
  "VerifyToken s_P 100 (s_token 2) (rg_publicKey s_r2) = Inr s_client_claims"
  "claims_match s_client_claims s_client_addr"
  by (simp_all add: isActive_def s_agent_ep_def s_client_ep_def claims_match_def s_client_claims_def)
    (simp_all add: s_r2_def directOf_def gm_get_def s_client_claims_def)

theorem punch_rendezvous_witness:
  "last_observed (s_ops1 @ s_ops2) s_agent_addr =
     Some \<lparr>dr_ObservedAddr = ''10.0.0.1:9'', dr_Proto = ''udp''\<rparr>"
proof -
  have "RequestPunch s_P 100 s_client_addr s_agent_addr (s_token 2) s_r2 = Inr
      (\<lparr>pr_PeerAddr = s_agent_addr, pr_ObservedAddr = ''10.0.0.1:9'', pr_Proto = ''udp''\<rparr>,
       \<lparr>pr_PeerAddr = s_client_addr, pr_ObservedAddr = ''10.0.0.2:7'', pr_Proto = ''udp''\<rparr>)"
    using s_r2_view by (simp add: RequestPunch_def)
  from punch_rendezvous [OF s_run2 this] show ?thesis by simp
qed

text \<open>Relay discovery is exact: \<open>ListRelays\<close> lists the active endpoints with the relay role,
  with an unprobed latency, and nothing else, whatever domain it is asked for.\<close>
theorem ListRelays_exact:
  assumes run: "reg_run P key ttl xs = Some r"
  shows "rl \<in> set (ListRelays d r) \<longleftrightarrow>
    (\<exists>addr ep. getEndpoint addr r = Some ep \<and> ep_State ep = StateActive \<and>
       RoleOf (ea_RoleFlags (ep_Addr ep)) = RoleRelay \<and> rl = \<lparr>rl_Addr = ep_Addr ep, rl_Latency = 0\<rparr>)"
proof -
  note inv = reg_run_inv [OF run]
  let ?relays = "gm_sub (gm_sub (rg_endpoints r) RelayDomain) RelayGroup"
  have "gm_wf ?relays" using reg_invD(1) [OF inv] by (simp add: endpoints_wf_def)
  then have "ep \<in> set (gm_vals ?relays) \<longleftrightarrow> (\<exists>i. ep_at r RelayDomain RelayGroup i = Some ep)" for ep
    by (simp add: gm.in_vals ep_at_def)
  then have left: "rl \<in> set (ListRelays d r) \<longleftrightarrow> (\<exists>i ep. ep_at r RelayDomain RelayGroup i = Some ep \<and>
      ep_State ep = StateActive \<and> rl = \<lparr>rl_Addr = ep_Addr ep, rl_Latency = 0\<rparr>)"
    by (auto simp: ListRelays_def listRelaysLocked_def)
  have relay: "RoleOf (ea_RoleFlags (ep_Addr ep)) = RoleRelay \<longleftrightarrow> d' = RelayDomain"
    "d' = RelayDomain \<Longrightarrow> g = RelayGroup" if "ep_at r d' g i = Some ep" for d' g i ep
    using reg_invD(5) [OF inv that] by (simp_all add: endpoint_ok_def)
  show ?thesis
  proof
    assume "rl \<in> set (ListRelays d r)"
    then obtain i ep where ep: "ep_at r RelayDomain RelayGroup i = Some ep" "ep_State ep = StateActive"
      "rl = \<lparr>rl_Addr = ep_Addr ep, rl_Latency = 0\<rparr>" using left by blast
    then have "getEndpoint \<lparr>ea_Domain = RelayDomain, ea_Group = RelayGroup, ea_Endpoint = i,
        ea_RoleFlags = 0\<rparr> r = Some ep" by (simp add: getEndpoint_ep_at)
    with ep relay [OF ep(1)] show "\<exists>addr ep. getEndpoint addr r = Some ep \<and> ep_State ep = StateActive \<and>
       RoleOf (ea_RoleFlags (ep_Addr ep)) = RoleRelay \<and> rl = \<lparr>rl_Addr = ep_Addr ep, rl_Latency = 0\<rparr>"
      by blast
  next
    assume "\<exists>addr ep. getEndpoint addr r = Some ep \<and> ep_State ep = StateActive \<and>
       RoleOf (ea_RoleFlags (ep_Addr ep)) = RoleRelay \<and> rl = \<lparr>rl_Addr = ep_Addr ep, rl_Latency = 0\<rparr>"
    then show "rl \<in> set (ListRelays d r)"
      unfolding left getEndpoint_ep_at using relay by metis
  qed
qed

theorem ListRelays_exact_witness:
  "\<lparr>rl_Addr = s_agent_addr, rl_Latency = 0\<rparr> \<notin> set (ListRelays 1 s_r2)"
proof -
  have role: "RoleOf (ea_RoleFlags (ep_Addr ep)) \<noteq> RoleRelay" if "getEndpoint addr s_r2 = Some ep" for addr ep
    using that by (auto simp: s_r2_def getEndpoint_def gm_get_def s_agent_ep_def s_client_ep_def
        RoleOf_def split: if_splits)
  from ListRelays_exact [OF s_run2, of "\<lparr>rl_Addr = s_agent_addr, rl_Latency = 0\<rparr>" 1] show ?thesis
    using role by blast
qed

section \<open>What a fingerprint gives away\<close>

lemma known_fingerprint_enrolls:
  assumes run: "reg_run P key ttl xs = Some r" and ep: "getEndpoint addr r = Some ep"
    and fp: "ep_Fingerprint ep \<noteq> []"
    and req: "req_Fingerprint req = ep_Fingerprint ep" "RoleOf (req_RoleFlags req) \<noteq> 0"
      "length (req_PublicKey req) = PublicKeySize"
  shows "\<exists>resp. Enroll req ent now r = (Inr resp, r) \<and>
    (\<forall>sig. ConfirmEnrollment P now \<lparr>conf_RequestID = resp_RequestID resp, conf_Signature = sig\<rparr> r =
       (Inr \<lparr>st_State = StateRegistered,
          st_Result = Some \<lparr>res_Address = ep_Addr ep, res_Token = ep_Token ep\<rparr>\<rparr>, r))"
proof -
  note inv = reg_run_inv [OF run]
  obtain rid pe where pe: "gm_get (rg_pending r) rid = Some pe" "same_identity pe ep"
    by (rule endpoint_enrollment [OF inv ep])
  have "gm_get (rg_byFingerprint r) (ep_Fingerprint ep) = Some rid"
    using pe fp by (simp add: index_okD [OF reg_invD(4) [OF inv]] same_identity_def)
  with pe(1) fp req(1) have "existingEnrollment (req_Fingerprint req) r = Some pe"
    by (simp add: existingEnrollment_def)
  moreover have "RoleOf (req_RoleFlags req) \<in> {RoleClient, RoleAgent, RoleRelay}"
    using req(2) RoleOf_cases by auto
  ultimately have "Enroll req ent now r =
      (Inr \<lparr>resp_RequestID = pe_RequestID pe, resp_Challenge = pe_Challenge pe\<rparr>, r)"
    using req fp by (auto simp: Enroll_def Let_def)
  moreover have "pe_RequestID pe = rid" using reg_invD(3) [OF inv pe(1)] by (simp add: enrollment_ok_def)
  ultimately show ?thesis
    using pe by (auto simp: ConfirmEnrollment_def statusFor_def same_identity_def)
qed

text \<open>C10. A registered fingerprint is enough to obtain its endpoint's token (a defect): \<open>Enroll\<close>
  with the fingerprint and any well-formed public key returns the request ID of the original
  enrollment, and \<open>ConfirmEnrollment\<close> then answers with the address and the token whatever the
  signature is. The registrar does not change.\<close>
theorem fingerprint_discloses_token:
  assumes "reg_run P key ttl xs = Some r" and "getEndpoint addr r = Some ep"
    and "ep_Fingerprint ep \<noteq> []"
    and "req_Fingerprint req = ep_Fingerprint ep" "RoleOf (req_RoleFlags req) \<noteq> 0"
      "length (req_PublicKey req) = PublicKeySize"
  shows "\<exists>resp. Enroll req ent now r = (Inr resp, r) \<and>
    (\<forall>sig. ConfirmEnrollment P now \<lparr>conf_RequestID = resp_RequestID resp, conf_Signature = sig\<rparr> r =
       (Inr \<lparr>st_State = StateRegistered,
          st_Result = Some \<lparr>res_Address = ep_Addr ep, res_Token = ep_Token ep\<rparr>\<rparr>, r))"
  using assms by (rule known_fingerprint_enrolls)

theorem fingerprint_discloses_token_witness:
  "\<exists>resp. Enroll \<lparr>req_PublicKey = replicate 32 77, req_Fingerprint = ''agent'',
        req_RoleFlags = RoleClient\<rparr> (s_ent 9) 50 s_r2 = (Inr resp, s_r2) \<and>
    (\<forall>sig. ConfirmEnrollment s_P 50 \<lparr>conf_RequestID = resp_RequestID resp, conf_Signature = sig\<rparr> s_r2 =
       (Inr \<lparr>st_State = StateRegistered,
          st_Result = Some \<lparr>res_Address = s_agent_addr, res_Token = s_token 1\<rparr>\<rparr>, s_r2))"
  using fingerprint_discloses_token [OF s_run2 s_get2(1), of "\<lparr>req_PublicKey = replicate 32 77,
    req_Fingerprint = ''agent'', req_RoleFlags = RoleClient\<rparr>" "s_ent 9" 50]
  by (simp add: s_agent_ep_def RoleOf_def)

end
