(* ===== verification/Membership.thy ===== *)
theory Membership
  imports Registrar_Samples
begin

text \<open>
  What the registrar of \<^verbatim>\<open>swarm/registrar.go\<close> promises, without its maps, tokens, hints and
  indexes: a ledger with one entry per enrollment, and the seven things that can happen to an
  entry, as an inductive step relation. The registrar refines it: every operation is a step of
  the ledger or leaves it alone. What follows from the steps alone is proved on the ledger.
\<close>

section \<open>The ledger\<close>

datatype standing = Joined | Working | Expelled

instantiation standing :: linorder
begin

fun less_standing :: "standing \<Rightarrow> standing \<Rightarrow> bool" where
  "less_standing Joined y = (y \<noteq> Joined)"
| "less_standing Working y = (y = Expelled)"
| "less_standing Expelled y = False"

definition less_eq_standing :: "standing \<Rightarrow> standing \<Rightarrow> bool" where
  "less_eq_standing x y = (x = y \<or> x < (y :: standing))"

instance
proof
  fix x y z :: standing
  show "x < y \<longleftrightarrow> x \<le> y \<and> \<not> y \<le> x" by (cases x; cases y) (auto simp: less_eq_standing_def)
  show "x \<le> x" by (simp add: less_eq_standing_def)
  show "x \<le> y \<Longrightarrow> y \<le> z \<Longrightarrow> x \<le> z" by (cases x; cases y; cases z) (auto simp: less_eq_standing_def)
  show "x \<le> y \<Longrightarrow> y \<le> x \<Longrightarrow> x = y" by (cases x; cases y) (auto simp: less_eq_standing_def)
  show "x \<le> y \<or> y \<le> x" by (cases x; cases y) (auto simp: less_eq_standing_def)
qed

end

lemma le_Expelled [simp]: "s \<le> Expelled" "Joined \<le> s"
  by (cases s; simp add: less_eq_standing_def)+

lemma Expelled_le [simp]: "Expelled \<le> s \<longleftrightarrow> s = Expelled"
  by (cases s) (simp_all add: less_eq_standing_def)

record identity =
  id_key :: bytes
  id_fingerprint :: string
  id_flags :: byte

datatype phase =
    Absent
  | Challenged identity bytes
  | Waiting identity
  | Refused identity
  | Member identity EndpointAddr standing

type_synonym ledger = "string \<Rightarrow> phase"

fun who :: "phase \<Rightarrow> identity option" where
  "who Absent = None"
| "who (Challenged i c) = Some i"
| "who (Waiting i) = Some i"
| "who (Refused i) = Some i"
| "who (Member i a s) = Some i"

definition is_relay :: "identity \<Rightarrow> bool" where
  "is_relay i \<longleftrightarrow> RoleOf (id_flags i) = RoleRelay"

definition valid_identity :: "identity \<Rightarrow> bool" where
  "valid_identity i \<longleftrightarrow>
     length (id_key i) = PublicKeySize \<and> RoleOf (id_flags i) \<noteq> 0 \<and>
     (\<not> is_relay i \<longrightarrow> id_fingerprint i \<noteq> [])"

definition fingerprint_free :: "ledger \<Rightarrow> string \<Rightarrow> bool" where
  "fingerprint_free m fp \<longleftrightarrow> fp = [] \<or> (\<forall>rid i. who (m rid) = Some i \<longrightarrow> id_fingerprint i \<noteq> fp)"

definition seat_free :: "ledger \<Rightarrow> EndpointAddr \<Rightarrow> bool" where
  "seat_free m a \<longleftrightarrow> (\<forall>rid i b s. m rid = Member i b s \<longrightarrow> \<not> same_endpoint b a)"

text \<open>Relays and nothing else sit in domain 0.\<close>

definition seat_fits :: "identity \<Rightarrow> EndpointAddr \<Rightarrow> bool" where
  "seat_fits i a \<longleftrightarrow> ea_RoleFlags a = id_flags i \<and> (is_relay i \<longleftrightarrow> ea_Domain a = RelayDomain)"

inductive admission :: "ledger \<Rightarrow> ledger \<Rightarrow> bool" where
  ask: "m rid = Absent \<Longrightarrow> valid_identity i \<Longrightarrow> fingerprint_free m (id_fingerprint i) \<Longrightarrow>
    admission m (m(rid := Challenged i c))"
| forget: "m rid = Challenged i c \<Longrightarrow> admission m (m(rid := Absent))"
| wait: "m rid = Challenged i c \<Longrightarrow> \<not> is_relay i \<Longrightarrow> admission m (m(rid := Waiting i))"
| refuse: "m rid = Challenged i c \<or> m rid = Waiting i \<Longrightarrow> admission m (m(rid := Refused i))"
| admit: "m rid = Challenged i c \<or> m rid = Waiting i \<Longrightarrow> seat_free m a \<Longrightarrow> seat_fits i a \<Longrightarrow>
    admission m (m(rid := Member i a Joined))"
| activate: "m rid = Member i a Joined \<Longrightarrow> admission m (m(rid := Member i a Working))"
| expel: "m rid = Member i a s \<Longrightarrow> admission m (m(rid := Member i a Expelled))"

inductive_cases admissionE: "admission m m'"

section \<open>What the steps keep\<close>

definition ledger_ok :: "ledger \<Rightarrow> bool" where
  "ledger_ok m \<longleftrightarrow>
     (\<forall>rid i. who (m rid) = Some i \<longrightarrow> valid_identity i) \<and>
     (\<forall>rid i a s. m rid = Member i a s \<longrightarrow> seat_fits i a) \<and>
     (\<forall>rid rid' i j. who (m rid) = Some i \<and> who (m rid') = Some j \<and>
        id_fingerprint i = id_fingerprint j \<and> id_fingerprint i \<noteq> [] \<longrightarrow> rid = rid') \<and>
     (\<forall>rid rid' i j a b s t. m rid = Member i a s \<and> m rid' = Member j b t \<and> same_endpoint a b \<longrightarrow> rid = rid')"

lemma ledger_okI:
  assumes "\<And>rid i. who (m rid) = Some i \<Longrightarrow> valid_identity i"
    "\<And>rid i a s. m rid = Member i a s \<Longrightarrow> seat_fits i a"
    "\<And>rid rid' i j. who (m rid) = Some i \<Longrightarrow> who (m rid') = Some j \<Longrightarrow>
       id_fingerprint i = id_fingerprint j \<Longrightarrow> id_fingerprint i \<noteq> [] \<Longrightarrow> rid = rid'"
    "\<And>rid rid' i j a b s t. m rid = Member i a s \<Longrightarrow> m rid' = Member j b t \<Longrightarrow> same_endpoint a b \<Longrightarrow> rid = rid'"
  shows "ledger_ok m"
  using assms unfolding ledger_ok_def by blast

lemma ledger_okD:
  assumes "ledger_ok m"
  shows "who (m rid) = Some i \<Longrightarrow> valid_identity i"
    "m rid = Member i a s \<Longrightarrow> seat_fits i a"
    "who (m rid) = Some i \<Longrightarrow> who (m rid') = Some j \<Longrightarrow> id_fingerprint i = id_fingerprint j \<Longrightarrow>
       id_fingerprint i \<noteq> [] \<Longrightarrow> rid = rid'"
    "m rid = Member i a s \<Longrightarrow> m rid' = Member j b t \<Longrightarrow> same_endpoint a b \<Longrightarrow> rid = rid'"
  using assms unfolding ledger_ok_def by blast+

text \<open>Changing one entry without changing who it is about, nor where it sits.\<close>

lemma ledger_ok_update:
  assumes ok: "ledger_ok m" and id: "who p = who (m rid) \<or> p = Absent"
    and seat: "\<And>i a s. p = Member i a s \<Longrightarrow> \<exists>j t. m rid = Member j a t"
  shows "ledger_ok (m(rid := p))"
proof (rule ledger_okI)
  have who: "who ((m(rid := p)) x) = Some i \<Longrightarrow> who (m x) = Some i" for x i
    using id by (auto split: if_splits)
  have sits: "(m(rid := p)) x = Member i a s \<Longrightarrow> \<exists>t. m x = Member i a t" for x i a s
    using id seat by (cases "x = rid") fastforce+
  show "valid_identity i" if "who ((m(rid := p)) x) = Some i" for x i
    using ledger_okD(1) [OF ok] who [OF that] .
  show "seat_fits i a" if "(m(rid := p)) x = Member i a s" for x i a s
    using sits [OF that] ledger_okD(2) [OF ok] by blast
  show "x = y" if "who ((m(rid := p)) x) = Some i" "who ((m(rid := p)) y) = Some j"
      "id_fingerprint i = id_fingerprint j" "id_fingerprint i \<noteq> []" for x y i j
    using ledger_okD(3) [OF ok] who that by blast
  show "x = y" if "(m(rid := p)) x = Member i a s" "(m(rid := p)) y = Member j b t" "same_endpoint a b"
    for x y i j a b s t
  proof -
    from sits [OF that(1)] sits [OF that(2)] obtain s' t' where "m x = Member i a s'" "m y = Member j b t'"
      by blast
    then show ?thesis using that(3) by (rule ledger_okD(4) [OF ok])
  qed
qed

lemma ledger_ok_ask:
  assumes ok: "ledger_ok m" and i: "m rid = Absent" "valid_identity i" "fingerprint_free m (id_fingerprint i)"
  shows "ledger_ok (m(rid := Challenged i c))"
proof (rule ledger_okI)
  show "x = y" if "who ((m(rid := Challenged i c)) x) = Some j" "who ((m(rid := Challenged i c)) y) = Some k"
      "id_fingerprint j = id_fingerprint k" "id_fingerprint j \<noteq> []" for x y j k
    using that i(3) ledger_okD(3) [OF ok] by (auto simp: fingerprint_free_def split: if_splits)
qed (use i ledger_okD [OF ok] in \<open>auto split: if_splits\<close>)

lemma ledger_ok_admit:
  assumes ok: "ledger_ok m" and p: "who (m rid) = Some i"
    and a: "seat_free m a" "seat_fits i a"
  shows "ledger_ok (m(rid := Member i a Joined))"
proof (rule ledger_okI)
  let ?m = "m(rid := Member i a Joined)"
  have who: "who (?m x) = Some j \<Longrightarrow> who (m x) = Some j" for x j
    using p by (auto split: if_splits)
  show "valid_identity j" if "who (?m x) = Some j" for x j
    using ledger_okD(1) [OF ok] who [OF that] .
  show "x = y" if "who (?m x) = Some j" "who (?m y) = Some k"
      "id_fingerprint j = id_fingerprint k" "id_fingerprint j \<noteq> []" for x y j k
    using ledger_okD(3) [OF ok] who that by blast
  have sym: "same_endpoint b c \<Longrightarrow> same_endpoint c b" for b c by (simp add: same_endpoint_def)
  show "x = y" if "?m x = Member j b s" "?m y = Member k c t" "same_endpoint b c" for x y j k b c s t
  proof (cases "x = rid \<or> y = rid")
    case True
    with that a(1) sym show ?thesis unfolding seat_free_def by (metis fun_upd_apply phase.inject(4))
  next
    case False
    with that show ?thesis using ledger_okD(4) [OF ok] by simp
  qed
qed (use a ledger_okD(2) [OF ok] in \<open>auto split: if_splits\<close>)

lemma admission_ok: "admission m m' \<Longrightarrow> ledger_ok m \<Longrightarrow> ledger_ok m'"
proof (induction rule: admission.induct)
  case (ask m rid i c)
  then show ?case by (blast intro: ledger_ok_ask)
next
  case (admit m rid i c a)
  then have "who (m rid) = Some i" by auto
  with admit show ?case by (blast intro: ledger_ok_admit)
qed (auto intro!: ledger_ok_update)

text \<open>
  What no sequence of steps undoes: a member keeps its identity and its seat and its standing
  only grows; a refusal is final; whoever waits is later still waiting, a member or refused.
\<close>

definition settled_le :: "phase \<Rightarrow> phase \<Rightarrow> bool" where
  "settled_le p q \<longleftrightarrow>
     (case p of
        Member i a s \<Rightarrow> (\<exists>t \<ge> s. q = Member i a t)
      | Refused i \<Rightarrow> q = Refused i
      | Waiting i \<Rightarrow> q = Waiting i \<or> q = Refused i \<or> (\<exists>a s. q = Member i a s)
      | _ \<Rightarrow> True)"

lemma admission_settled: "admission m m' \<Longrightarrow> settled_le (m rid) (m' rid)"
  by (induction rule: admission.induct)
    (auto simp: settled_le_def split: phase.split)

lemma settled_trans: "settled_le p q \<Longrightarrow> settled_le q u \<Longrightarrow> settled_le p u"
  by (auto simp: settled_le_def split: phase.splits)

lemma admissions_settled: "admission\<^sup>*\<^sup>* m m' \<Longrightarrow> settled_le (m rid) (m' rid)"
proof (induction rule: rtranclp_induct)
  case base
  then show ?case by (auto simp: settled_le_def split: phase.split)
next
  case (step u v)
  then show ?case using settled_trans admission_settled by blast
qed

end
