(* ===== verification/Membership_Refinement.thy ===== *)
theory Membership_Refinement
  imports Membership
begin

text \<open>
  The registrar of \<^verbatim>\<open>swarm/registrar.go\<close> refines the ledger: the abstraction reads an entry off
  the map of enrollments and the state of the endpoint record at its address, and every
  operation is a step of the ledger or leaves it alone.
\<close>

section \<open>The abstraction\<close>

definition identity_of :: "pendingEnroll \<Rightarrow> identity" where
  "identity_of pe = \<lparr>id_key = pe_PublicKey pe, id_fingerprint = pe_Fingerprint pe, id_flags = pe_RoleFlags pe\<rparr>"

definition standing_of :: "byte \<Rightarrow> standing" where
  "standing_of st = (if st = StateRegistered then Joined else if st = StateActive then Working else Expelled)"

definition standing_at :: "Registrar \<Rightarrow> EndpointAddr \<Rightarrow> standing" where
  "standing_at r a = (case getEndpoint a r of None \<Rightarrow> Expelled | Some ep \<Rightarrow> standing_of (ep_State ep))"

definition phase_of :: "Registrar \<Rightarrow> pendingEnroll \<Rightarrow> phase" where
  "phase_of r pe =
     (if pe_State pe = StateChallengeIssued then Challenged (identity_of pe) (pe_Challenge pe)
      else if pe_State pe = StatePending then Waiting (identity_of pe)
      else if pe_State pe = StateRegistered
      then Member (identity_of pe) (pe_Address pe) (standing_at r (pe_Address pe))
      else Refused (identity_of pe))"

definition ledger_of :: "Registrar \<Rightarrow> ledger" where
  "ledger_of r rid = (case gm_get (rg_pending r) rid of None \<Rightarrow> Absent | Some pe \<Rightarrow> phase_of r pe)"

lemma who_ledger: "who (ledger_of r rid) = map_option identity_of (gm_get (rg_pending r) rid)"
  by (simp add: ledger_of_def phase_of_def split: option.split)

lemma ledger_Member:
  "ledger_of r rid = Member i a s \<longleftrightarrow>
     (\<exists>pe. gm_get (rg_pending r) rid = Some pe \<and> pe_State pe = StateRegistered \<and>
        i = identity_of pe \<and> a = pe_Address pe \<and> s = standing_at r a)"
  by (auto simp: ledger_of_def phase_of_def split: option.split)

lemma phase_of_cong: "rg_endpoints r' = rg_endpoints r \<Longrightarrow> phase_of r' pe = phase_of r pe"
  by (simp add: phase_of_def standing_at_def getEndpoint_def)

lemma ledger_cong:
  assumes "rg_pending r' = rg_pending r" "rg_endpoints r' = rg_endpoints r"
  shows "ledger_of r' = ledger_of r"
  using assms by (auto simp: ledger_of_def fun_eq_iff phase_of_cong [OF assms(2)] split: option.split)

lemma ledger_other [simp]:
  "ledger_of (r\<lparr>rg_byFingerprint := y\<rparr>) = ledger_of r"
  "ledger_of (r\<lparr>rg_preApproved := z\<rparr>) = ledger_of r"
  "ledger_of (r\<lparr>rg_nextID := u\<rparr>) = ledger_of r"
  "ledger_of (r\<lparr>rg_reachability := v\<rparr>) = ledger_of r"
  by (rule ledger_cong; simp)+

lemma phase_of_pending [simp]: "phase_of (r\<lparr>rg_pending := x\<rparr>) pe = phase_of r pe"
  by (rule phase_of_cong) simp

lemma ledger_put:
  "ledger_of (r\<lparr>rg_pending := gm_put rid pe (rg_pending r)\<rparr>) = (ledger_of r)(rid := phase_of r pe)"
  by (auto simp: ledger_of_def fun_eq_iff split: option.split)

lemma ledger_del:
  "ledger_of (r\<lparr>rg_pending := gm_del rid (rg_pending r)\<rparr>) = (ledger_of r)(rid := Absent)"
  by (auto simp: ledger_of_def fun_eq_iff split: option.split)

lemma standing_at_put:
  "standing_at (putEndpoint addr ep r) a =
     (if same_endpoint a addr then standing_of (ep_State ep) else standing_at r a)"
  by (simp add: standing_at_def getEndpoint_ep_at ep_at_putEndpoint same_endpoint_def)

section \<open>Every operation is a step\<close>

text \<open>A new endpoint record at a free seat.\<close>

lemma ledger_storeEndpoint:
  assumes "seat_free (ledger_of r) a"
  shows "ledger_of (storeEndpoint a pk tok fp r) = ledger_of r"
proof
  fix rid
  show "ledger_of (storeEndpoint a pk tok fp r) rid = ledger_of r rid"
  proof (cases "gm_get (rg_pending r) rid")
    case None
    then show ?thesis by (simp add: ledger_of_def storeEndpoint_def)
  next
    case (Some pe)
    have "\<not> same_endpoint (pe_Address pe) a" if "pe_State pe = StateRegistered"
      using assms that Some unfolding seat_free_def ledger_Member by blast
    with Some show ?thesis by (simp add: ledger_of_def storeEndpoint_def phase_of_def standing_at_put)
  qed
qed

lemma ledger_set_state:
  assumes inv: "reg_inv P r" and ok: "ledger_ok (ledger_of r)" and ep: "getEndpoint addr r = Some ep"
  obtains rid i a where "ledger_of r rid = Member i a (standing_of (ep_State ep))"
    "ledger_of (putEndpoint addr (ep\<lparr>ep_State := st\<rparr>) r) = (ledger_of r)(rid := Member i a (standing_of st))"
proof -
  from ep have at: "ep_at r (ea_Domain addr) (ea_Group addr) (ea_Endpoint addr) = Some ep"
    by (simp add: getEndpoint_ep_at)
  then obtain rid pe where pe: "gm_get (rg_pending r) rid = Some pe" "same_identity pe ep"
    by (rule link_okD2 [OF reg_invD(6) [OF inv]])
  have a: "same_endpoint (pe_Address pe) addr"
    using reg_invD(5) [OF inv at] pe(2) by (simp add: endpoint_ok_def same_identity_def same_endpoint_def)
  then have here: "getEndpoint (pe_Address pe) r = Some ep"
    using ep by (simp add: getEndpoint_ep_at same_endpoint_def)
  have m: "ledger_of r rid = Member (identity_of pe) (pe_Address pe) (standing_of (ep_State ep))"
    using pe here by (simp add: ledger_Member same_identity_def standing_at_def)
  have "ledger_of (putEndpoint addr (ep\<lparr>ep_State := st\<rparr>) r) x =
      ((ledger_of r)(rid := Member (identity_of pe) (pe_Address pe) (standing_of st))) x" for x
  proof (cases "gm_get (rg_pending r) x")
    case None
    with pe show ?thesis by (auto simp: ledger_of_def)
  next
    case (Some pe')
    show ?thesis
    proof (cases "x = rid")
      case True
      with pe a show ?thesis by (simp add: ledger_of_def phase_of_def standing_at_put same_identity_def)
    next
      case False
      have "\<not> same_endpoint (pe_Address pe') addr" if st: "pe_State pe' = StateRegistered"
      proof
        assume "same_endpoint (pe_Address pe') addr"
        with a have same: "same_endpoint (pe_Address pe') (pe_Address pe)" by (simp add: same_endpoint_def)
        have "ledger_of r x = Member (identity_of pe') (pe_Address pe') (standing_at r (pe_Address pe'))"
          using Some st by (simp add: ledger_Member)
        from ledger_okD(4) [OF ok this m same] False show False by simp
      qed
      with False Some show ?thesis by (simp add: ledger_of_def phase_of_def standing_at_put)
    qed
  qed
  with m show ?thesis by (intro that [of rid]) auto
qed

text \<open>A registration.\<close>

lemma ledger_approveStored:
  assumes inv: "reg_inv P r" and pe: "gm_get (rg_pending r) rid = Some pe"
    and st: "pe_State pe = StateChallengeIssued \<or> pe_State pe = StatePending"
    and dom: "RoleOf (pe_RoleFlags pe) = RoleRelay \<longleftrightarrow> d = RelayDomain"
  shows "ledger_of (snd (approveStored P now rid pe d g r)) = ledger_of r \<or>
    admission (ledger_of r) (ledger_of (snd (approveStored P now rid pe d g r)))"
proof (cases "registerApproved P now pe d g r")
  case (Pair res r1)
  show ?thesis
  proof (cases res)
    case (Inl e)
    with Pair have "r1 = r\<lparr>rg_nextID := rg_nextID r1\<rparr>" by (auto intro: registerApproved_Inl)
    then have "ledger_of r1 = ledger_of r" by (metis ledger_other(3))
    with Inl Pair show ?thesis by (simp add: approveStored_def)
  next
    case (Inr pe')
    with Pair have ok: "registerApproved P now pe d g r = (Inr pe', r1)" by simp
    from ok show ?thesis
    proof (cases rule: registerApproved_Inr)
      case (reuse a ep)
      with unregistered_find_None [OF inv pe] st show ?thesis by auto
    next
      case (fresh c r2 token)
      let ?a = "newAddr pe d g c"
      have "r2 = r\<lparr>rg_nextID := rg_nextID r2\<rparr>" by (rule allocateID_frame [OF fresh(3)])
      then have r2: "ledger_of r2 = ledger_of r" "\<And>x y z. ep_at r2 x y z = ep_at r x y z"
        by (metis ledger_other(3), metis ep_at_update(4))
      have seat: "seat_free (ledger_of r) ?a"
        unfolding seat_free_def
      proof (intro allI impI notI)
        fix x i b s
        assume m: "ledger_of r x = Member i b s" and same: "same_endpoint b ?a"
        from m obtain q where q: "gm_get (rg_pending r) x = Some q" "pe_State q = StateRegistered" "b = pe_Address q"
          unfolding ledger_Member by blast
        obtain ep where "getEndpoint b r = Some ep" by (rule link_okD1 [OF reg_invD(6) [OF inv] q(1,2)]) (simp add: q(3))
        with same allocateID_Inr(1) [OF fresh(3)] show False by (simp add: getEndpoint_ep_at same_endpoint_def)
      qed
      have r1: "ledger_of r1 = ledger_of r"
        unfolding fresh(6) using ledger_storeEndpoint [of r2 ?a] seat r2(1) by simp
      have "standing_at r1 ?a = Joined"
        unfolding fresh(6) storeEndpoint_def by (simp add: standing_at_put standing_of_def)
      then have eq: "ledger_of (r1\<lparr>rg_pending := gm_put rid pe' (rg_pending r1)\<rparr>) =
          (ledger_of r)(rid := Member (identity_of pe) ?a Joined)"
        unfolding ledger_put r1 fresh(5) by (simp add: phase_of_def identity_of_def)
      have now: "ledger_of r rid = Challenged (identity_of pe) (pe_Challenge pe) \<or>
          ledger_of r rid = Waiting (identity_of pe)"
        using pe st by (auto simp: ledger_of_def phase_of_def)
      have "seat_fits (identity_of pe) ?a"
        using dom by (simp add: seat_fits_def is_relay_def identity_of_def)
      then have "admission (ledger_of r) (ledger_of (r1\<lparr>rg_pending := gm_put rid pe' (rg_pending r1)\<rparr>))"
        unfolding eq using now seat by (intro admit)
      with ok show ?thesis by (simp add: approveStored_def)
    qed
  qed
qed

lemma Enroll_admission:
  assumes inv: "reg_inv P r" and fresh: "fresh_op (OpEnroll req ent now) r"
  shows "ledger_of (snd (Enroll req ent now r)) = ledger_of r \<or>
    admission (ledger_of r) (ledger_of (snd (Enroll req ent now r)))"
proof (cases "snd (Enroll req ent now r) = r")
  case False
  then obtain nonce rid pe where rid: "randomRequestID ent = Some rid" "ent_nonce ent = Some nonce"
    and pe: "pe = \<lparr>pe_RequestID = rid, pe_PublicKey = req_PublicKey req,
      pe_Fingerprint = req_Fingerprint req, pe_RoleFlags = req_RoleFlags req, pe_Challenge = nonce,
      pe_CreatedAt = now, pe_State = StateChallengeIssued, pe_Address = zero_addr, pe_Token = []\<rparr>"
    and eq: "rg_pending (snd (Enroll req ent now r)) = gm_put rid pe (rg_pending r)"
      "rg_endpoints (snd (Enroll req ent now r)) = rg_endpoints r"
    and ok: "existingEnrollment (req_Fingerprint req) r = None" "length (req_PublicKey req) = PublicKeySize"
      "RoleOf (req_RoleFlags req) \<in> {RoleClient, RoleAgent, RoleRelay}"
      "RoleOf (req_RoleFlags req) \<noteq> RoleRelay \<Longrightarrow> req_Fingerprint req \<noteq> []"
    by (auto simp: Enroll_def Let_def simp del: if_split_asm if_split
        split: option.splits if_split_asm)
  have absent: "ledger_of r rid = Absent" using fresh rid by (simp add: ledger_of_def)
  have valid: "valid_identity (identity_of pe)"
    using ok(2-4) by (auto simp: valid_identity_def is_relay_def identity_of_def pe)
  have "fingerprint_free (ledger_of r) (req_Fingerprint req)"
  proof (cases "req_Fingerprint req = []")
    case False
    have "pe_Fingerprint q \<noteq> req_Fingerprint req" if "gm_get (rg_pending r) x = Some q" for x q
    proof
      assume "pe_Fingerprint q = req_Fingerprint req"
      with that False have "gm_get (rg_byFingerprint r) (req_Fingerprint req) = Some x"
        using index_okD [OF reg_invD(4) [OF inv]] by blast
      with that ok(1) False show False by (simp add: existingEnrollment_def)
    qed
    then show ?thesis by (auto simp: fingerprint_free_def who_ledger identity_of_def)
  qed (simp add: fingerprint_free_def)
  then have free: "fingerprint_free (ledger_of r) (id_fingerprint (identity_of pe))"
    by (simp add: identity_of_def pe)
  have "ledger_of (snd (Enroll req ent now r)) = (ledger_of r)(rid := phase_of r pe)"
    using ledger_cong [of "snd (Enroll req ent now r)" "r\<lparr>rg_pending := gm_put rid pe (rg_pending r)\<rparr>"] eq
    by (simp add: ledger_put)
  moreover have "phase_of r pe = Challenged (identity_of pe) nonce" by (simp add: phase_of_def pe)
  ultimately show ?thesis using absent valid free by (metis ask)
qed simp

lemma approve_case:
  "snd (case approveStored P now rid pe d g r of (Inl e, r1) \<Rightarrow> (Inl e, r1) | (Inr pe', r1) \<Rightarrow> (Inr (f pe'), r1)) =
    snd (approveStored P now rid pe d g r)"
  by (auto split: prod.split sum.split)

lemma ConfirmEnrollment_admission:
  assumes inv: "reg_inv P r"
  shows "ledger_of (snd (ConfirmEnrollment P now c r)) = ledger_of r \<or>
    admission (ledger_of r) (ledger_of (snd (ConfirmEnrollment P now c r)))"
proof (cases "gm_get (rg_pending r) (conf_RequestID c)")
  case None
  then show ?thesis by (simp add: ConfirmEnrollment_def Let_def)
next
  case (Some pe)
  show ?thesis
  proof (cases "pe_State pe = StateChallengeIssued")
    case False
    with Some show ?thesis by (simp add: ConfirmEnrollment_def Let_def)
  next
    case True
    let ?rid = "conf_RequestID c" and ?ok = "ed_Verify P (pe_PublicKey pe) (pe_Challenge pe) (conf_Signature c)"
    have m: "ledger_of r ?rid = Challenged (identity_of pe) (pe_Challenge pe)"
      using Some True by (simp add: ledger_of_def phase_of_def)
    consider (bad) "\<not> ?ok" | (relay) ?ok "RoleOf (pe_RoleFlags pe) = RoleRelay"
      | (pre) mp where ?ok "RoleOf (pe_RoleFlags pe) \<noteq> RoleRelay" "gm_get (rg_preApproved r) (pe_Fingerprint pe) = Some mp"
      | (pending) ?ok "RoleOf (pe_RoleFlags pe) \<noteq> RoleRelay" "gm_get (rg_preApproved r) (pe_Fingerprint pe) = None"
      by blast
    then show ?thesis
    proof cases
      case bad
      with Some True have "ledger_of (snd (ConfirmEnrollment P now c r)) = (ledger_of r)(?rid := Absent)"
        by (simp add: ConfirmEnrollment_def Let_def ledger_del)
      with forget [of "ledger_of r" ?rid, OF m] show ?thesis by simp
    next
      case relay
      with Some True ledger_approveStored [OF inv Some, of RelayDomain now RelayGroup] show ?thesis
        by (simp add: ConfirmEnrollment_def Let_def approve_case)
    next
      case pre
      with Some True ledger_approveStored [OF inv Some, of "am_Domain mp" now "am_Group mp"]
        reg_invD(7) [OF inv pre(3)] show ?thesis
        by (simp add: ConfirmEnrollment_def Let_def approve_case)
    next
      case pending
      with Some True have "ledger_of (snd (ConfirmEnrollment P now c r)) = (ledger_of r)(?rid := Waiting (identity_of pe))"
        by (simp add: ConfirmEnrollment_def Let_def ledger_put phase_of_def identity_of_def)
      moreover have "\<not> is_relay (identity_of pe)" using pending by (simp add: is_relay_def identity_of_def)
      ultimately show ?thesis using wait [of "ledger_of r" ?rid, OF m] by simp
    qed
  qed
qed

lemma ApproveEnrollment_admission:
  assumes inv: "reg_inv P r"
  shows "ledger_of (snd (ApproveEnrollment P now rid d g r)) = ledger_of r \<or>
    admission (ledger_of r) (ledger_of (snd (ApproveEnrollment P now rid d g r)))"
proof (cases "gm_get (rg_pending r) rid")
  case (Some pe)
  show ?thesis
  proof (cases "pe_State pe = StatePending \<and> d \<noteq> RelayDomain")
    case True
    with reg_invD(3) [OF inv Some] have "RoleOf (pe_RoleFlags pe) \<noteq> RoleRelay" by (auto simp: enrollment_ok_def)
    with True Some ledger_approveStored [OF inv Some, of d now g] show ?thesis
      by (simp add: ApproveEnrollment_def approve_case)
  qed (use Some in \<open>auto simp: ApproveEnrollment_def\<close>)
qed (simp add: ApproveEnrollment_def)

lemma DenyEnrollment_admission:
  "ledger_of (snd (DenyEnrollment rid r)) = ledger_of r \<or>
    admission (ledger_of r) (ledger_of (snd (DenyEnrollment rid r)))"
proof (cases "gm_get (rg_pending r) rid")
  case (Some pe)
  show ?thesis
  proof (cases "pe_State pe = StatePending \<or> pe_State pe = StateChallengeIssued")
    case True
    with Some have "ledger_of (snd (DenyEnrollment rid r)) = (ledger_of r)(rid := Refused (identity_of pe))"
      by (auto simp: DenyEnrollment_def ledger_put phase_of_def identity_of_def)
    moreover have "ledger_of r rid = Challenged (identity_of pe) (pe_Challenge pe) \<or> ledger_of r rid = Waiting (identity_of pe)"
      using Some True by (auto simp: ledger_of_def phase_of_def)
    ultimately show ?thesis by (metis refuse)
  qed (use Some in \<open>auto simp: DenyEnrollment_def\<close>)
qed (simp add: DenyEnrollment_def)

lemma ActivateEndpoint_admission:
  assumes inv: "reg_inv P r" and ok: "ledger_ok (ledger_of r)"
  shows "ledger_of (snd (ActivateEndpoint P now addr token r)) = ledger_of r \<or>
    admission (ledger_of r) (ledger_of (snd (ActivateEndpoint P now addr token r)))"
proof (cases "snd (ActivateEndpoint P now addr token r) = r")
  case False
  then obtain ep where ep: "getEndpoint addr r = Some ep" "ep_State ep = StateRegistered"
    and r': "snd (ActivateEndpoint P now addr token r) = putEndpoint addr (ep\<lparr>ep_State := StateActive\<rparr>) r"
    by (auto simp: ActivateEndpoint_def split: sum.splits option.splits if_splits)
  from ledger_set_state [OF inv ok ep(1), of StateActive] obtain rid i a
    where "ledger_of r rid = Member i a Joined"
      "ledger_of (snd (ActivateEndpoint P now addr token r)) = (ledger_of r)(rid := Member i a Working)"
    unfolding r' ep(2) by (auto simp: standing_of_def)
  then show ?thesis by (metis activate)
qed simp

lemma RevokeEndpoint_admission:
  assumes inv: "reg_inv P r" and ok: "ledger_ok (ledger_of r)"
  shows "ledger_of (snd (RevokeEndpoint addr r)) = ledger_of r \<or>
    admission (ledger_of r) (ledger_of (snd (RevokeEndpoint addr r)))"
proof (cases "getEndpoint addr r")
  case (Some ep)
  obtain rid i a where "ledger_of r rid = Member i a (standing_of (ep_State ep))"
    and "ledger_of (putEndpoint addr (ep\<lparr>ep_State := StateRevoked\<rparr>) r) =
      (ledger_of r)(rid := Member i a (standing_of StateRevoked))"
    by (rule ledger_set_state [OF inv ok Some])
  moreover from this(2) Some
  have "ledger_of (snd (RevokeEndpoint addr r)) = (ledger_of r)(rid := Member i a Expelled)"
    by (simp add: RevokeEndpoint_def standing_of_def)
  ultimately show ?thesis by (metis expel)
qed (simp add: RevokeEndpoint_def)

lemma reg_exec_admission:
  assumes inv: "reg_inv P r" and ok: "ledger_ok (ledger_of r)" and fresh: "fresh_op x r"
  shows "ledger_of (reg_exec P x r) = ledger_of r \<or> admission (ledger_of r) (ledger_of (reg_exec P x r))"
proof (cases x)
  case (OpEnroll req ent now)
  with Enroll_admission [OF inv] fresh show ?thesis by simp
next
  case (OpActivate now addr token)
  with ActivateEndpoint_admission [OF inv ok] show ?thesis by simp
next
  case (OpRevoke addr)
  with RevokeEndpoint_admission [OF inv ok] show ?thesis by simp
qed (use inv in \<open>simp_all add: ConfirmEnrollment_admission ApproveEnrollment_admission DenyEnrollment_admission
    PreApprove_def ObserveEndpoint_def SetRelayRoute_def ClearReachability_def Let_def
    split: option.split sum.split\<close>)

interpretation membership: simulation fresh_op "reg_exec P" "\<lambda>r. reg_inv P r \<and> ledger_ok (ledger_of r)"
    ledger_of admission for P
proof
  fix r x
  assume r: "reg_inv P r \<and> ledger_ok (ledger_of r)" and x: "fresh_op x r"
  show sim: "ledger_of (reg_exec P x r) = ledger_of r \<or> admission (ledger_of r) (ledger_of (reg_exec P x r))"
    using r x reg_exec_admission by blast
  show "reg_inv P (reg_exec P x r) \<and> ledger_ok (ledger_of (reg_exec P x r))"
    using r x sim reg_exec_inv admission_ok by metis
qed

section \<open>The refinement\<close>

lemma ledger_init: "NewRegistrar key ttl = Inr r0 \<Longrightarrow> ledger_of r0 = (\<lambda>_. Absent) \<and> ledger_ok (ledger_of r0)"
  by (auto simp: NewRegistrar_def ledger_of_def ledger_ok_def split: option.splits)

text \<open>C4. The registrar refines the membership ledger: whatever sequence of operations it executes, its
  maps, read as a ledger, have got there from the empty ledger by steps of the ledger (ask,
  forget, wait, refuse, admit, activate, expel), and stay on such steps for ever. So in every
  state no fingerprint is enrolled twice, no seat taken twice and domain 0 is for relays; and
  from any state on a member keeps its identity and seat while its standing can only grow
  from joined to working to expelled, and a refusal is final.\<close>
theorem registrar_refines_ledger:
  assumes "reg_run P key ttl xs = Some r" "legal_ops fresh_op (reg_exec P) ys r"
  shows "admission\<^sup>*\<^sup>* (\<lambda>_. Absent) (ledger_of r) \<and> ledger_ok (ledger_of r) \<and>
    admission\<^sup>*\<^sup>* (ledger_of r) (ledger_of (run_ops (reg_exec P) ys r)) \<and>
    (\<forall>rid. settled_le (ledger_of r rid) (ledger_of (run_ops (reg_exec P) ys r) rid))"
proof -
  from assms(1) obtain r0 where r0: "NewRegistrar key ttl = Inr r0" "legal_ops fresh_op (reg_exec P) xs r0"
    and r: "r = run_ops (reg_exec P) xs r0" by (rule reg_run_Some)
  have inv0: "reg_inv P r0 \<and> ledger_ok (ledger_of r0)" using r0 reg_inv_init ledger_init by blast
  have inv: "reg_inv P r \<and> ledger_ok (ledger_of r)" unfolding r by (rule membership.run_inv [OF inv0 r0(2)])
  have from_empty: "admission\<^sup>*\<^sup>* (\<lambda>_. Absent) (ledger_of r)"
    using membership.run_simulates [OF inv0 r0(2)] ledger_init [OF r0(1)] unfolding r by simp
  have on: "admission\<^sup>*\<^sup>* (ledger_of r) (ledger_of (run_ops (reg_exec P) ys r))"
    by (rule membership.run_simulates [OF inv assms(2)])
  with inv from_empty admissions_settled [OF on] show ?thesis by blast
qed

theorem registrar_refines_ledger_witness:
  "admission\<^sup>*\<^sup>* (\<lambda>_. Absent) (ledger_of s_r2) \<and>
   settled_le (ledger_of s_r2 (s_rid 1)) (ledger_of (snd (RevokeEndpoint s_agent_addr s_r2)) (s_rid 1)) \<and>
   (\<exists>i. ledger_of s_r2 (s_rid 1) = Member i s_agent_addr Working)"
proof -
  have "legal_ops fresh_op (reg_exec s_P) [OpRevoke s_agent_addr] s_r2" by simp
  note registrar_refines_ledger [OF s_run2 this]
  moreover have "\<exists>i. ledger_of s_r2 (s_rid 1) = Member i s_agent_addr Working"
    by (simp add: ledger_of_def phase_of_def standing_at_def standing_of_def s_r2_def reg_eval
        s_agent_pe_def s_agent_ep_def s_agent_addr_def)
  ultimately show ?thesis by simp
qed

end
