(* ===== verification/Relay.thy ===== *)
theory Relay
  imports Relay_Wire Paseto
begin

text \<open>
  The relay server of \<^verbatim>\<open>swarm/relay.go\<close>. Its state is the session map and the connections:
  what each peer will still send before its stream ends, the \<open>Write\<close> calls made on it so far, how
  many more of them succeed (\<open>None\<close>: no limit), and where \<open>HandleConn\<close> is on it. \<open>HandleConn\<close>
  is one authentication step followed by one step per frame, each executed without interruption;
  its deferred calls are part of the step that returns. A session is identified by its connection,
  since \<open>HandleConn\<close> makes one session per connection. The code has no lock around a step: the
  handlers as goroutines whose single \<open>Write\<close> calls, lock operations and map operations
  interleave are in \<open>Relay_Threads\<close>, where a handler that is not interrupted is proved to do what
  these steps say, and interrupted ones are shown to do worse.
\<close>

section \<open>State\<close>

record RelaySession =
  se_Addr :: EndpointAddr
  se_conn :: nat
  se_claims :: TokenClaims

datatype conn_phase = Accepted | Serving RelaySession | Closed

record conn =
  cn_in :: bytes
  cn_out :: "bytes list"
  cn_quota :: "nat option"
  cn_phase :: conn_phase

record RelayServer =
  rs_controllerPubKey :: bytes
  rs_sessions :: "(string, RelaySession) gomap"
  rs_conns :: "nat \<Rightarrow> conn"

text \<open>
  \<open>RelayRouter\<close> is an interface: a router delivers a frame of a session to a destination. The
  first result says whether the frame was handled; \<open>None\<close> is an error.
\<close>

type_synonym router =
  "RelaySession \<Rightarrow> EndpointAddr \<Rightarrow> RelayFrameHeader \<Rightarrow> bytes \<Rightarrow> RelayServer \<Rightarrow> bool option \<times> RelayServer"

definition NewRelayServer :: "bytes \<Rightarrow> (nat \<Rightarrow> conn) \<Rightarrow> RelayServer" where
  "NewRelayServer registrarPubKey conns =
     \<lparr>rs_controllerPubKey = registrarPubKey, rs_sessions = [], rs_conns = conns\<rparr>"

definition set_conn :: "nat \<Rightarrow> conn \<Rightarrow> RelayServer \<Rightarrow> RelayServer" where
  "set_conn c cn r = r\<lparr>rs_conns := (rs_conns r)(c := cn)\<rparr>"

section \<open>Sessions\<close>

definition SessionCount :: "RelayServer \<Rightarrow> nat" where
  "SessionCount r = gm_len (rs_sessions r)"

definition addSession :: "RelaySession \<Rightarrow> RelayServer \<Rightarrow> RelayServer" where
  "addSession s r = r\<lparr>rs_sessions := gm_put (AddrKey (se_Addr s)) s (rs_sessions r)\<rparr>"

definition removeSession :: "RelaySession \<Rightarrow> RelayServer \<Rightarrow> RelayServer" where
  "removeSession s r =
     (case gm_get (rs_sessions r) (AddrKey (se_Addr s)) of
        Some cur \<Rightarrow>
          if se_conn cur = se_conn s
          then r\<lparr>rs_sessions := gm_del (AddrKey (se_Addr s)) (rs_sessions r)\<rparr> else r
      | None \<Rightarrow> r)"

definition getSession :: "string \<Rightarrow> RelayServer \<Rightarrow> RelaySession option" where
  "getSession key r = gm_get (rs_sessions r) key"

section \<open>Writing to a connection\<close>

text \<open>The \<open>Write\<close> calls of one frame, in order, up to the first that fails.\<close>

fun conn_write :: "bytes list \<Rightarrow> conn \<Rightarrow> bool \<times> conn" where
  "conn_write [] cn = (True, cn)"
| "conn_write (b # bs) cn =
     (case cn_quota cn of
        Some 0 \<Rightarrow> (False, cn)
      | Some (Suc n) \<Rightarrow> conn_write bs (cn\<lparr>cn_out := cn_out cn @ [b], cn_quota := Some n\<rparr>)
      | None \<Rightarrow> conn_write bs (cn\<lparr>cn_out := cn_out cn @ [b]\<rparr>))"

definition writeTo :: "nat \<Rightarrow> RelayFrameHeader \<Rightarrow> bytes \<Rightarrow> RelayServer \<Rightarrow> bool \<times> RelayServer" where
  "writeTo c hdr payload r =
     (case conn_write (writeFrame hdr payload) (rs_conns r c) of (ok, cn) \<Rightarrow> (ok, set_conn c cn r))"

definition writeControlFrame :: "nat \<Rightarrow> byte \<Rightarrow> RelayServer \<Rightarrow> RelayServer" where
  "writeControlFrame c ft r = snd (writeTo c (control_header ft) [] r)"

definition writeNoRoute :: "nat \<Rightarrow> RelayFrameHeader \<Rightarrow> RelayServer \<Rightarrow> RelayServer" where
  "writeNoRoute c orig r = snd (writeTo c (noRoute_header orig) [] r)"

text \<open>\<open>conn.Close\<close>: nothing more is read, and every later \<open>Write\<close> fails.\<close>

definition closeConn :: "nat \<Rightarrow> RelayServer \<Rightarrow> RelayServer" where
  "closeConn c r = set_conn c ((rs_conns r c)\<lparr>cn_quota := Some 0, cn_phase := Closed\<rparr>) r"

section \<open>Routing\<close>

definition LocalRouter_Route :: router where
  "LocalRouter_Route src dst hdr payload r =
     (case getSession (AddrKey dst) r of
        None \<Rightarrow> (Some False, r)
      | Some target \<Rightarrow>
          let fwdHdr = data_header (se_Addr src) payload in
          (case writeTo (se_conn target) fwdHdr payload r of
             (False, r1) \<Rightarrow> (None, removeSession target r1)
           | (True, r1) \<Rightarrow> (Some True, r1)))"

definition MeshRouter_Route :: router where
  "MeshRouter_Route src dst hdr payload r =
     (case LocalRouter_Route src dst hdr payload r of
        (None, r1) \<Rightarrow> (None, r1)
      | (Some True, r1) \<Rightarrow> (Some True, r1)
      | (Some False, r1) \<Rightarrow> (Some False, r1))"

section \<open>\<open>HandleConn\<close>\<close>

datatype auth_error = AuthRead frame_error | AuthWrongType byte | AuthToken token_error

definition addr_of_claims :: "TokenClaims \<Rightarrow> EndpointAddr" where
  "addr_of_claims claims =
     \<lparr>ea_Domain = cl_Domain claims, ea_Group = cl_Group claims, ea_Endpoint = cl_EndpointID claims,
      ea_RoleFlags = cl_RoleFlags claims\<rparr>"

definition authenticate ::
    "prims \<Rightarrow> time \<Rightarrow> bytes \<Rightarrow> nat \<Rightarrow> bytes \<Rightarrow> auth_error + (RelaySession \<times> bytes)" where
  "authenticate P now controllerPubKey c stream =
     (case readFrame stream of
        Inl e \<Rightarrow> Inl (AuthRead e)
      | Inr (hdr, payload, rest) \<Rightarrow>
          if hdr_Type hdr \<noteq> FrameAuth then Inl (AuthWrongType (hdr_Type hdr))
          else case VerifyToken P now (string_of_bytes payload) controllerPubKey of
            Inl e \<Rightarrow> Inl (AuthToken e)
          | Inr claims \<Rightarrow>
              Inr (\<lparr>se_Addr = addr_of_claims claims, se_conn = c, se_claims = claims\<rparr>, rest))"

text \<open>From the start of \<open>HandleConn\<close> to its loop.\<close>

definition handle_auth :: "prims \<Rightarrow> time \<Rightarrow> nat \<Rightarrow> RelayServer \<Rightarrow> RelayServer" where
  "handle_auth P now c r =
     (case cn_phase (rs_conns r c) of
        Accepted \<Rightarrow>
          (case authenticate P now (rs_controllerPubKey r) c (cn_in (rs_conns r c)) of
             Inl e \<Rightarrow> closeConn c (writeControlFrame c FrameAuthFail r)
           | Inr (session, rest) \<Rightarrow>
               addSession session
                 (writeControlFrame c FrameAuthOK
                   (set_conn c ((rs_conns r c)\<lparr>cn_in := rest, cn_phase := Serving session\<rparr>) r)))
      | _ \<Rightarrow> r)"

definition pong_header :: "bytes \<Rightarrow> RelayFrameHeader" where
  "pong_header payload =
     zero_header\<lparr>hdr_Type := FramePong, hdr_PayloadLen := word_of_nat (length payload)\<rparr>"

definition dst_of_header :: "RelayFrameHeader \<Rightarrow> EndpointAddr" where
  "dst_of_header hdr =
     \<lparr>ea_Domain = hdr_DstDomain hdr, ea_Group = hdr_DstGroup hdr, ea_Endpoint = hdr_DstEndpoint hdr,
      ea_RoleFlags = 0\<rparr>"

text \<open>What \<open>HandleConn\<close> does when it returns from its loop: the deferred calls, last one first.\<close>

definition handle_return :: "RelaySession \<Rightarrow> nat \<Rightarrow> RelayServer \<Rightarrow> RelayServer" where
  "handle_return session c r = closeConn c (removeSession session r)"

text \<open>One iteration of the loop.\<close>

definition handle_frame :: "router \<Rightarrow> nat \<Rightarrow> RelayServer \<Rightarrow> RelayServer" where
  "handle_frame Route c r =
     (case cn_phase (rs_conns r c) of
        Serving session \<Rightarrow>
          (case readFrame (cn_in (rs_conns r c)) of
             Inl e \<Rightarrow> handle_return session c r
           | Inr (hdr, payload, rest) \<Rightarrow>
               let r1 = set_conn c ((rs_conns r c)\<lparr>cn_in := rest\<rparr>) r in
               if hdr_Type hdr = FramePing
               then (case writeTo c (pong_header payload) payload r1 of
                       (False, r2) \<Rightarrow> handle_return session c r2
                     | (True, r2) \<Rightarrow> r2)
               else if hdr_Type hdr = FrameData
               then (case Route session (dst_of_header hdr) hdr payload r1 of
                       (None, r2) \<Rightarrow> r2
                     | (Some False, r2) \<Rightarrow> writeNoRoute c hdr r2
                     | (Some True, r2) \<Rightarrow> r2)
               else r1)
      | _ \<Rightarrow> r)"

text \<open>
  The steps of the server: a connection is authenticated, a connection handles its next frame, or
  a connection fails (from now on only \<open>n\<close> more \<open>Write\<close> calls succeed on it).
\<close>

datatype relay_op = OpAuth time nat | OpFrame nat | OpFail nat nat

fun relay_exec :: "prims \<Rightarrow> router \<Rightarrow> relay_op \<Rightarrow> RelayServer \<Rightarrow> RelayServer" where
  "relay_exec P Route (OpAuth now c) r = handle_auth P now c r"
| "relay_exec P Route (OpFrame c) r = handle_frame Route c r"
| "relay_exec P Route (OpFail c n) r =
     set_conn c ((rs_conns r c)\<lparr>cn_quota := (case cn_quota (rs_conns r c) of
        None \<Rightarrow> Some n | Some m \<Rightarrow> Some (min m n))\<rparr>) r"

end
