(* ===== verification/Relay_Inv.thy ===== *)
theory Relay_Inv
  imports Relay
begin

text \<open>
  The relay server's invariant and the contract of a router. \<open>relay_router\<close> states what
  \<open>HandleConn\<close> relies on when it calls \<open>Route\<close>; the steps of the server are proved to keep the
  invariant for any router that meets it, and both routers of \<^verbatim>\<open>swarm/relay.go\<close> do.
\<close>

section \<open>What was written to a connection\<close>

text \<open>An address that a token verified under the relay's key speaks for.\<close>

definition verified_source :: "prims \<Rightarrow> bytes \<Rightarrow> EndpointAddr \<Rightarrow> bool" where
  "verified_source P key a \<longleftrightarrow>
     (\<exists>now token claims. VerifyToken P now token key = Inr claims \<and> same_endpoint (addr_of_claims claims) a)"

definition frame_ok :: "prims \<Rightarrow> bytes \<Rightarrow> frame \<Rightarrow> bool" where
  "frame_ok P key f \<longleftrightarrow> valid_frame f \<and>
     (hdr_Type (fst f) = FrameData \<longrightarrow> verified_source P key (dst_of_header (fst f)))"

text \<open>Whole frames, except that a connection that takes no more may end inside one.\<close>

definition out_ok :: "prims \<Rightarrow> bytes \<Rightarrow> conn \<Rightarrow> bool" where
  "out_ok P key cn \<longleftrightarrow>
     (\<exists>fs. list_all (frame_ok P key) fs \<and>
        (concat (cn_out cn) = concat (map enc_frame fs) \<or>
         cn_quota cn = Some 0 \<and> (\<exists>h. concat (cn_out cn) = concat (map enc_frame fs) @ header_bytes h)))"

lemma conn_write_other [simp]:
  "cn_in (snd (conn_write bs cn)) = cn_in cn" "cn_phase (snd (conn_write bs cn)) = cn_phase cn"
  by (induction bs cn rule: conn_write.induct) (auto split: option.split nat.split)

lemma conn_write_stuck: "cn_quota cn = Some 0 \<Longrightarrow> snd (conn_write bs cn) = cn"
  by (cases bs) auto

lemma conn_write_True:
  "fst (conn_write bs cn) \<Longrightarrow> cn_out (snd (conn_write bs cn)) = cn_out cn @ bs"
  by (induction bs cn rule: conn_write.induct) (auto split: option.splits nat.splits)

lemma out_okI:
  assumes "list_all (frame_ok P key) fs" "concat (cn_out cn) = concat (map enc_frame fs)"
  shows "out_ok P key cn"
  using assms unfolding out_ok_def by blast

lemma out_ok_quota:
  assumes "out_ok P key cn" "cn_quota cn = Some 0 \<Longrightarrow> q = Some 0"
  shows "out_ok P key (cn\<lparr>cn_quota := q\<rparr>)"
  using assms unfolding out_ok_def by simp blast

lemma out_ok_write:
  assumes ok: "out_ok P key cn" and f: "frame_ok P key (hdr, payload)"
  shows "out_ok P key (snd (conn_write (writeFrame hdr payload) cn))"
proof (cases "cn_quota cn = Some 0")
  case True
  with ok show ?thesis by (simp add: conn_write_stuck)
next
  case False
  with ok obtain fs where fs: "list_all (frame_ok P key) fs"
    "concat (cn_out cn) = concat (map enc_frame fs)" by (auto simp: out_ok_def)
  show ?thesis
  proof (cases "fst (conn_write (writeFrame hdr payload) cn)")
    case True
    with fs f show ?thesis
      by (intro out_okI [where fs = "fs @ [(hdr, payload)]"])
        (simp_all add: conn_write_True enc_frame_def)
  next
    case fail: False
    with False have "cn_quota cn = Some 1"
      "snd (conn_write (writeFrame hdr payload) cn) = cn\<lparr>cn_out := cn_out cn @ [header_bytes hdr], cn_quota := Some 0\<rparr>"
      by (auto simp: writeFrame_def split: option.splits nat.splits if_splits)
    with fs show ?thesis by (auto simp: out_ok_def)
  qed
qed

section \<open>The invariant\<close>

definition relay_inv :: "prims \<Rightarrow> RelayServer \<Rightarrow> bool" where
  "relay_inv P r \<longleftrightarrow>
     gm_wf (rs_sessions r) \<and>
     (\<forall>k s. gm_get (rs_sessions r) k = Some s \<longrightarrow>
        k = AddrKey (se_Addr s) \<and> cn_phase (rs_conns r (se_conn s)) = Serving s) \<and>
     (\<forall>c s. cn_phase (rs_conns r c) = Serving s \<longrightarrow>
        se_conn s = c \<and> verified_source P (rs_controllerPubKey r) (se_Addr s)) \<and>
     (\<forall>c. cn_phase (rs_conns r c) = Accepted \<longrightarrow> cn_out (rs_conns r c) = []) \<and>
     (\<forall>c. out_ok P (rs_controllerPubKey r) (rs_conns r c))"

lemma relay_invD:
  assumes "relay_inv P r"
  shows "gm_wf (rs_sessions r)"
    "gm_get (rs_sessions r) k = Some s \<Longrightarrow> k = AddrKey (se_Addr s) \<and> cn_phase (rs_conns r (se_conn s)) = Serving s"
    "cn_phase (rs_conns r c) = Serving s \<Longrightarrow> se_conn s = c \<and> verified_source P (rs_controllerPubKey r) (se_Addr s)"
    "cn_phase (rs_conns r c) = Accepted \<Longrightarrow> cn_out (rs_conns r c) = []"
    "out_ok P (rs_controllerPubKey r) (rs_conns r c)"
  using assms by (auto simp: relay_inv_def)

lemma set_conn_sel [simp]:
  "rs_conns (set_conn c cn r) c' = (if c' = c then cn else rs_conns r c')"
  "rs_sessions (set_conn c cn r) = rs_sessions r"
  "rs_controllerPubKey (set_conn c cn r) = rs_controllerPubKey r"
  by (simp_all add: set_conn_def)

lemma writeTo_sel [simp]:
  "rs_conns (snd (writeTo c hdr payload r)) c' =
     (if c' = c then snd (conn_write (writeFrame hdr payload) (rs_conns r c)) else rs_conns r c')"
  "rs_sessions (snd (writeTo c hdr payload r)) = rs_sessions r"
  "rs_controllerPubKey (snd (writeTo c hdr payload r)) = rs_controllerPubKey r"
  by (simp_all add: writeTo_def split: prod.split)

lemma writeTo_fst: "fst (writeTo c hdr payload r) = fst (conn_write (writeFrame hdr payload) (rs_conns r c))"
  by (simp add: writeTo_def split: prod.split)

lemma relay_inv_set_conn:
  assumes "relay_inv P r" "out_ok P (rs_controllerPubKey r) cn" "cn_phase cn = cn_phase (rs_conns r c)"
    and "cn_phase cn \<noteq> Accepted \<or> cn_out cn = []"
  shows "relay_inv P (set_conn c cn r)"
  using assms by (auto simp: relay_inv_def)

lemma relay_inv_write:
  assumes inv: "relay_inv P r" and f: "frame_ok P (rs_controllerPubKey r) (hdr, payload)"
    and c: "cn_phase (rs_conns r c) \<noteq> Accepted"
  shows "relay_inv P (snd (writeTo c hdr payload r))"
proof -
  have "snd (writeTo c hdr payload r) = set_conn c (snd (conn_write (writeFrame hdr payload) (rs_conns r c))) r"
    by (simp add: writeTo_def split: prod.split)
  with relay_inv_set_conn [OF inv out_ok_write [OF relay_invD(5) [OF inv] f], of c] c
  show ?thesis by simp
qed

lemma relay_inv_read:
  assumes "relay_inv P r"
  shows "relay_inv P (set_conn c ((rs_conns r c)\<lparr>cn_in := rest\<rparr>) r)"
  using relay_invD [OF assms]
  by (intro relay_inv_set_conn [OF assms]) (auto simp: out_ok_def)

lemma removeSession_sel [simp]:
  "rs_conns (removeSession s r) = rs_conns r"
  "rs_controllerPubKey (removeSession s r) = rs_controllerPubKey r"
  by (simp_all add: removeSession_def split: option.split)

lemma removeSession_sub:
  "gm_get (rs_sessions (removeSession s r)) k = Some t \<Longrightarrow> gm_get (rs_sessions r) k = Some t"
  by (auto simp: removeSession_def split: option.splits if_splits)

lemma relay_inv_removeSession: "relay_inv P r \<Longrightarrow> relay_inv P (removeSession s r)"
  by (auto simp: relay_inv_def removeSession_def split: option.splits)

text \<open>Closing a connection after its session was removed.\<close>

lemma relay_inv_close:
  assumes inv: "relay_inv P r" and gone: "\<And>k s. gm_get (rs_sessions r) k = Some s \<Longrightarrow> se_conn s \<noteq> c"
  shows "relay_inv P (closeConn c r)"
proof -
  have "out_ok P (rs_controllerPubKey r) ((rs_conns r c)\<lparr>cn_quota := Some 0, cn_phase := Closed\<rparr>)"
    using relay_invD(5) [OF inv, of c] by (auto simp: out_ok_def)
  with inv gone show ?thesis
    unfolding closeConn_def by (auto simp: relay_inv_def)
qed

lemma relay_inv_return:
  assumes inv: "relay_inv P r" and c: "cn_phase (rs_conns r c) = Serving s"
  shows "relay_inv P (handle_return s c r)"
  unfolding handle_return_def
proof (rule relay_inv_close [OF relay_inv_removeSession [OF inv]])
  fix k t
  assume t: "gm_get (rs_sessions (removeSession s r)) k = Some t"
  then have "gm_get (rs_sessions r) k = Some t" by (rule removeSession_sub)
  from relay_invD(2) [OF inv this] have k: "k = AddrKey (se_Addr t)" "cn_phase (rs_conns r (se_conn t)) = Serving t"
    by simp_all
  show "se_conn t \<noteq> c"
  proof
    assume "se_conn t = c"
    with k c have "t = s" by simp
    with t k(1) show False by (auto simp: removeSession_def split: option.splits if_splits)
  qed
qed

section \<open>The contract of a router\<close>

locale relay_router =
  fixes Route :: router
  assumes route_key: "rs_controllerPubKey (snd (Route src dst hdr payload r)) = rs_controllerPubKey r"
    and route_sessions: "gm_get (rs_sessions (snd (Route src dst hdr payload r))) k = Some s
      \<Longrightarrow> gm_get (rs_sessions r) k = Some s"
    and route_sessions_wf: "gm_wf (rs_sessions r) \<Longrightarrow> gm_wf (rs_sessions (snd (Route src dst hdr payload r)))"
    and route_conns: "rs_conns (snd (Route src dst hdr payload r)) c = rs_conns r c \<or>
      (\<exists>t. getSession (AddrKey dst) r = Some t \<and> se_conn t = c \<and>
         rs_conns (snd (Route src dst hdr payload r)) c =
           snd (conn_write (writeFrame (data_header (se_Addr src) payload) payload) (rs_conns r c)))"
    and route_handled: "fst (Route src dst hdr payload r) = Some True \<Longrightarrow>
      \<exists>t. getSession (AddrKey dst) r = Some t \<and>
        cn_out (rs_conns (snd (Route src dst hdr payload r)) (se_conn t)) =
          cn_out (rs_conns r (se_conn t)) @ writeFrame (data_header (se_Addr src) payload) payload"
    and route_unhandled: "fst (Route src dst hdr payload r) = Some False \<longleftrightarrow> getSession (AddrKey dst) r = None"
    and route_unhandled_same: "fst (Route src dst hdr payload r) = Some False \<Longrightarrow>
      snd (Route src dst hdr payload r) = r"
    and route_delivers: "getSession (AddrKey dst) r = Some t \<Longrightarrow> cn_quota (rs_conns r (se_conn t)) = None \<Longrightarrow>
      fst (Route src dst hdr payload r) = Some True"

lemma conn_write_unlimited: "cn_quota cn = None \<Longrightarrow> fst (conn_write bs cn)"
  by (induction bs cn rule: conn_write.induct) auto

lemma LocalRouter_cases:
  "LocalRouter_Route src dst hdr payload r =
     (case getSession (AddrKey dst) r of
        None \<Rightarrow> (Some False, r)
      | Some t \<Rightarrow>
          (if fst (writeTo (se_conn t) (data_header (se_Addr src) payload) payload r)
           then (Some True, snd (writeTo (se_conn t) (data_header (se_Addr src) payload) payload r))
           else (None, removeSession t (snd (writeTo (se_conn t) (data_header (se_Addr src) payload) payload r)))))"
  by (auto simp: LocalRouter_Route_def Let_def
      split: option.split prod.split bool.split)

interpretation local_router: relay_router LocalRouter_Route
proof (unfold_locales, goal_cases)
  case (3 r src dst hdr payload)
  then show ?case by (auto simp: LocalRouter_cases removeSession_def split: option.split)
qed (auto simp: LocalRouter_cases writeTo_fst conn_write_True conn_write_unlimited split: option.splits if_splits
    dest: removeSession_sub)

lemma MeshRouter_eq: "MeshRouter_Route = LocalRouter_Route"
  by (intro ext) (auto simp: MeshRouter_Route_def split: prod.split option.split bool.split)

interpretation mesh_router: relay_router MeshRouter_Route
  unfolding MeshRouter_eq by unfold_locales

section \<open>Every step keeps the invariant\<close>

lemma control_frame_ok [simp]: "frame_ok P key (control_header ft, []) \<longleftrightarrow> ft \<noteq> FrameData \<or> verified_source P key zero_addr"
  by (simp add: frame_ok_def valid_frame_def control_header_def zero_header_def dst_of_header_def zero_addr_def)

lemma noRoute_frame_ok [simp]: "frame_ok P key (noRoute_header h, [])"
  by (simp add: frame_ok_def valid_frame_def noRoute_header_def)

lemma unat_u32_length: "length p \<le> MaxRelayPayload \<Longrightarrow> unat (word_of_nat (length p) :: u32) = length p"
  by (simp add: unat_of_nat take_bit_eq_mod)

lemma pong_frame_ok [simp]: "length p \<le> MaxRelayPayload \<Longrightarrow> frame_ok P key (pong_header p, p)"
  by (simp add: frame_ok_def valid_frame_def pong_header_def zero_header_def unat_u32_length)

lemma data_frame_ok [simp]:
  "length p \<le> MaxRelayPayload \<Longrightarrow> verified_source P key a \<Longrightarrow> frame_ok P key (data_header a p, p)"
  by (auto simp: frame_ok_def valid_frame_def data_header_def unat_u32_length dst_of_header_def
      verified_source_def same_endpoint_def)

lemma handle_auth_inv:
  assumes inv: "relay_inv P r"
  shows "relay_inv P (handle_auth P now c r)"
proof (cases "cn_phase (rs_conns r c)")
  case Accepted
  let ?key = "rs_controllerPubKey r" and ?cn = "rs_conns r c"
  have empty: "cn_out ?cn = []" using relay_invD(4) [OF inv] Accepted by simp
  have nosession: "gm_get (rs_sessions r) k = Some s \<Longrightarrow> se_conn s \<noteq> c" for k s
    using relay_invD(2) [OF inv] Accepted by fastforce
  show ?thesis
  proof (cases "authenticate P now ?key c (cn_in ?cn)")
    case (Inl e)
    have "out_ok P ?key (snd (conn_write (writeFrame (control_header FrameAuthFail) []) ?cn))"
      by (intro out_ok_write relay_invD(5) [OF inv]) simp
    then have "relay_inv P (closeConn c (writeControlFrame c FrameAuthFail r))"
      using inv nosession unfolding relay_inv_def closeConn_def writeControlFrame_def
      by (auto simp: out_ok_def)
    with Inl Accepted show ?thesis by (simp add: handle_auth_def)
  next
    case (Inr p)
    then obtain s rest where auth: "authenticate P now ?key c (cn_in ?cn) = Inr (s, rest)"
      by (cases p) simp
    then have s: "se_conn s = c" "verified_source P ?key (se_Addr s)"
      by (auto simp: authenticate_def verified_source_def same_endpoint_def
          split: sum.splits if_splits) blast
    let ?cn1 = "snd (conn_write (writeFrame (control_header FrameAuthOK) []) (?cn\<lparr>cn_in := rest, cn_phase := Serving s\<rparr>))"
    have "out_ok P ?key (?cn\<lparr>cn_in := rest, cn_phase := Serving s\<rparr>)"
      using relay_invD(5) [OF inv, of c] by (simp add: out_ok_def)
    then have out: "out_ok P ?key ?cn1" by (rule out_ok_write) simp
    have "handle_auth P now c r = addSession s (set_conn c ?cn1 r)"
      using auth Accepted
      by (simp add: handle_auth_def writeControlFrame_def writeTo_def set_conn_def split: prod.split)
    with inv nosession s out show ?thesis
      by (auto simp: relay_inv_def addSession_def)
  qed
qed (use inv in \<open>simp_all add: handle_auth_def\<close>)

lemma relay_inv_fail:
  assumes "relay_inv P r"
  shows "relay_inv P (set_conn c ((rs_conns r c)\<lparr>cn_quota := (case cn_quota (rs_conns r c) of
        None \<Rightarrow> Some n | Some m \<Rightarrow> Some (min m n))\<rparr>) r)"
  using relay_invD(4,5) [OF assms]
  by (intro relay_inv_set_conn [OF assms] out_ok_quota) (auto split: option.splits)

context relay_router
begin

lemma Route_phase:
  "cn_phase (rs_conns (snd (Route src dst hdr payload r)) c) = cn_phase (rs_conns r c)"
  using route_conns [of src dst hdr payload r c] by auto

lemma Route_inv:
  assumes inv: "relay_inv P r" and src: "verified_source P (rs_controllerPubKey r) (se_Addr src)"
    and len: "length payload \<le> MaxRelayPayload"
  shows "relay_inv P (snd (Route src dst hdr payload r))"
proof -
  let ?r = "snd (Route src dst hdr payload r)"
  have session: "k = AddrKey (se_Addr s) \<and> cn_phase (rs_conns ?r (se_conn s)) = Serving s"
    if "gm_get (rs_sessions ?r) k = Some s" for k s
    using relay_invD(2) [OF inv route_sessions [OF that]] by (simp add: Route_phase)
  have out: "out_ok P (rs_controllerPubKey r) (rs_conns ?r c)" for c
    using route_conns [of src dst hdr payload r c] relay_invD(5) [OF inv, of c] src len
    by (auto intro!: out_ok_write data_frame_ok)
  have silent: "cn_out (rs_conns ?r c) = []" if "cn_phase (rs_conns r c) = Accepted" for c
    using route_conns [of src dst hdr payload r c] relay_invD(2,4) [OF inv] that
    unfolding getSession_def by fastforce
  show ?thesis
    unfolding relay_inv_def route_key
    using session out silent route_sessions_wf [OF relay_invD(1) [OF inv]] relay_invD(3) [OF inv]
    by (auto simp: Route_phase)
qed

lemma handle_frame_inv:
  assumes inv: "relay_inv P r"
  shows "relay_inv P (handle_frame Route c r)"
proof (cases "cn_phase (rs_conns r c)")
  case (Serving s)
  show ?thesis
  proof (cases "readFrame (cn_in (rs_conns r c))")
    case (Inl e)
    with relay_inv_return [OF inv Serving] Serving show ?thesis by (simp add: handle_frame_def)
  next
    case (Inr p)
    then obtain hdr payload rest where read: "readFrame (cn_in (rs_conns r c)) = Inr (hdr, payload, rest)"
      by (cases p) auto
    define r1 where "r1 = set_conn c ((rs_conns r c)\<lparr>cn_in := rest\<rparr>) r"
    have len: "length payload \<le> MaxRelayPayload" using readFrame_Inr [OF read] by (simp add: valid_frame_def)
    have inv1: "relay_inv P r1" unfolding r1_def by (rule relay_inv_read [OF inv])
    have c1: "cn_phase (rs_conns r1 c) = Serving s" using Serving by (simp add: r1_def)
    let ?w = "writeTo c (pong_header payload) payload r1"
    have inv2: "relay_inv P (snd ?w)"
      using c1 len by (intro relay_inv_write [OF inv1]) simp_all
    have ret: "relay_inv P (handle_return s c (snd ?w))"
      using c1 by (intro relay_inv_return [OF inv2]) simp
    let ?rt = "Route s (dst_of_header hdr) hdr payload r1"
    have inv3: "relay_inv P (snd ?rt)"
      using relay_invD(3) [OF inv1 c1] len by (intro Route_inv [OF inv1]) simp_all
    then have inv4: "relay_inv P (writeNoRoute c hdr (snd ?rt))"
      unfolding writeNoRoute_def using c1 by (intro relay_inv_write) (simp_all add: Route_phase)
    have eq: "handle_frame Route c r =
      (if hdr_Type hdr = FramePing then (if fst ?w then snd ?w else handle_return s c (snd ?w))
       else if hdr_Type hdr = FrameData
         then (if fst ?rt = Some False then writeNoRoute c hdr (snd ?rt) else snd ?rt)
       else r1)"
      using Serving read
      by (auto simp: handle_frame_def Let_def simp flip: r1_def split: prod.split option.split bool.split)
    show ?thesis unfolding eq using inv1 inv2 inv3 inv4 ret by simp
  qed
qed (use inv in \<open>simp_all add: handle_frame_def\<close>)

lemma Route_in: "cn_in (rs_conns (snd (Route src dst hdr payload r)) c) = cn_in (rs_conns r c)"
  using route_conns [of src dst hdr payload r c] by auto

text \<open>What one iteration does to the reading side of the connections.\<close>

lemma handle_frame_cases:
  assumes "cn_phase (rs_conns r c) = Serving s" "readFrame (cn_in (rs_conns r c)) = Inr (hdr, payload, rest)"
  shows "cn_in (rs_conns (handle_frame Route c r) i) = (if i = c then rest else cn_in (rs_conns r i))"
    "cn_phase (rs_conns (handle_frame Route c r) i) = cn_phase (rs_conns r i) \<or>
     i = c \<and> cn_phase (rs_conns (handle_frame Route c r) i) = Closed"
    "rs_controllerPubKey (handle_frame Route c r) = rs_controllerPubKey r"
proof -
  define r1 where "r1 = set_conn c ((rs_conns r c)\<lparr>cn_in := rest\<rparr>) r"
  let ?w = "writeTo c (pong_header payload) payload r1"
  let ?rt = "Route s (dst_of_header hdr) hdr payload r1"
  have eq: "handle_frame Route c r =
    (if hdr_Type hdr = FramePing then (if fst ?w then snd ?w else handle_return s c (snd ?w))
     else if hdr_Type hdr = FrameData
       then (if fst ?rt = Some False then writeNoRoute c hdr (snd ?rt) else snd ?rt)
     else r1)"
    using assms
    by (auto simp: handle_frame_def Let_def simp flip: r1_def split: prod.split option.split bool.split)
  show "cn_in (rs_conns (handle_frame Route c r) i) = (if i = c then rest else cn_in (rs_conns r i))"
    "cn_phase (rs_conns (handle_frame Route c r) i) = cn_phase (rs_conns r i) \<or>
     i = c \<and> cn_phase (rs_conns (handle_frame Route c r) i) = Closed"
    "rs_controllerPubKey (handle_frame Route c r) = rs_controllerPubKey r"
    unfolding eq
    by (auto simp: handle_return_def closeConn_def writeNoRoute_def Route_in Route_phase route_key)
      (auto simp: r1_def)
qed

lemma handle_frame_return:
  assumes "cn_phase (rs_conns r c) = Serving s" "readFrame (cn_in (rs_conns r c)) = Inl e"
  shows "handle_frame Route c r = handle_return s c r"
  using assms by (simp add: handle_frame_def)

text \<open>The loop returns: a connection is closed after as many iterations as it has bytes left,
  and one.\<close>

lemma handle_frame_closed: "cn_phase (rs_conns r c) = Closed \<Longrightarrow> handle_frame Route c r = r"
  by (simp add: handle_frame_def)

lemma frames_closed:
  "cn_phase (rs_conns r c) = Closed \<Longrightarrow> run_ops (relay_exec P Route) (replicate n (OpFrame c)) r = r"
  by (induction n) (simp_all add: handle_frame_closed)

lemma loop_returns:
  assumes "cn_phase (rs_conns r c) = Serving s" "length (cn_in (rs_conns r c)) < n"
  shows "cn_phase (rs_conns (run_ops (relay_exec P Route) (replicate n (OpFrame c)) r) c) = Closed"
  using assms
proof (induction n arbitrary: r)
  case (Suc n)
  show ?case
  proof (cases "readFrame (cn_in (rs_conns r c))")
    case (Inl e)
    have "cn_phase (rs_conns (handle_return s c r) c) = Closed"
      by (simp add: handle_return_def closeConn_def)
    with handle_frame_return [OF Suc.prems(1) Inl] frames_closed show ?thesis by simp
  next
    case (Inr p)
    then obtain hdr payload rest where read: "readFrame (cn_in (rs_conns r c)) = Inr (hdr, payload, rest)"
      by (cases p) auto
    note step = handle_frame_cases(1,2) [OF Suc.prems(1) read, of c]
    consider "cn_phase (rs_conns (handle_frame Route c r) c) = Serving s"
      | "cn_phase (rs_conns (handle_frame Route c r) c) = Closed"
      using step(2) Suc.prems(1) by auto
    then show ?thesis
    proof cases
      case 1
      have "length rest < length (cn_in (rs_conns r c))" by (rule readFrame_progress [OF read])
      with Suc.IH [OF 1] step(1) Suc.prems(2) show ?thesis by simp
    next
      case 2
      with frames_closed show ?thesis by simp
    qed
  qed
qed simp

lemma relay_exec_inv: "relay_inv P r \<Longrightarrow> relay_inv P (relay_exec P Route x r)"
  by (cases x) (simp_all add: handle_auth_inv handle_frame_inv relay_inv_fail)

end

section \<open>Where sessions come from\<close>

text \<open>\<open>streams c\<close> is what the peer of connection \<open>c\<close> sends from the start.\<close>

definition opened ::
    "prims \<Rightarrow> (nat \<Rightarrow> bytes) \<Rightarrow> bytes \<Rightarrow> relay_op list \<Rightarrow> nat \<Rightarrow> RelaySession \<Rightarrow> bool" where
  "opened P streams key xs c s \<longleftrightarrow>
     se_Addr s = addr_of_claims (se_claims s) \<and>
     (\<exists>now hdr token rest. OpAuth now c \<in> set xs \<and> readFrame (streams c) = Inr (hdr, token, rest) \<and>
        hdr_Type hdr = FrameAuth \<and> VerifyToken P now (string_of_bytes token) key = Inr (se_claims s))"

definition relay_hist ::
    "prims \<Rightarrow> (nat \<Rightarrow> bytes) \<Rightarrow> relay_op list \<Rightarrow> RelayServer \<Rightarrow> bool" where
  "relay_hist P streams xs r \<longleftrightarrow>
     (\<forall>c. (cn_phase (rs_conns r c) = Accepted \<longrightarrow> cn_in (rs_conns r c) = streams c) \<and>
          (\<forall>s. cn_phase (rs_conns r c) = Serving s \<longrightarrow> opened P streams (rs_controllerPubKey r) xs c s))"

lemma opened_mono: "opened P streams key xs c s \<Longrightarrow> opened P streams key (xs @ [x]) c s"
  unfolding opened_def by fastforce

lemma relay_hist_step:
  assumes hist: "relay_hist P streams xs r"
    and key: "rs_controllerPubKey r' = rs_controllerPubKey r"
    and accepted: "\<And>i. cn_phase (rs_conns r' i) = Accepted \<Longrightarrow>
      cn_phase (rs_conns r i) = Accepted \<and> cn_in (rs_conns r' i) = cn_in (rs_conns r i)"
    and serving: "\<And>i s. cn_phase (rs_conns r' i) = Serving s \<Longrightarrow>
      cn_phase (rs_conns r i) = Serving s \<or> opened P streams (rs_controllerPubKey r) (xs @ [x]) i s"
  shows "relay_hist P streams (xs @ [x]) r'"
  using hist accepted serving opened_mono unfolding relay_hist_def key by metis

lemma handle_auth_hist:
  assumes hist: "relay_hist P streams xs r"
  shows "relay_hist P streams (xs @ [OpAuth now c]) (handle_auth P now c r)"
proof (cases "cn_phase (rs_conns r c)")
  case Accepted
  with hist have stream: "cn_in (rs_conns r c) = streams c" by (simp add: relay_hist_def)
  have "opened P streams (rs_controllerPubKey r) (xs @ [OpAuth now c]) c s"
    if "authenticate P now (rs_controllerPubKey r) c (streams c) = Inr (s, rest)" for s rest
    using that unfolding opened_def
    by (fastforce simp: authenticate_def split: sum.splits if_splits)
  then show ?thesis
    using Accepted stream
    by (intro relay_hist_step [OF hist])
      (auto simp: handle_auth_def closeConn_def writeControlFrame_def addSession_def
        split: sum.splits if_splits)
next
  case (Serving s)
  then show ?thesis by (intro relay_hist_step [OF hist]) (auto simp: handle_auth_def)
next
  case Closed
  then show ?thesis by (intro relay_hist_step [OF hist]) (auto simp: handle_auth_def)
qed

context relay_router
begin

lemma handle_frame_hist:
  assumes hist: "relay_hist P streams xs r"
  shows "relay_hist P streams (xs @ [OpFrame c]) (handle_frame Route c r)"
proof (cases "cn_phase (rs_conns r c)")
  case (Serving s)
  show ?thesis
  proof (cases "readFrame (cn_in (rs_conns r c))")
    case (Inl e)
    show ?thesis
      unfolding handle_frame_return [OF Serving Inl]
      by (intro relay_hist_step [OF hist])
        (auto simp: handle_return_def closeConn_def split: if_splits)
  next
    case (Inr p)
    then obtain hdr payload rest where "readFrame (cn_in (rs_conns r c)) = Inr (hdr, payload, rest)"
      by (cases p) auto
    note step = handle_frame_cases [OF Serving this]
    have same: "cn_phase (rs_conns r i) = cn_phase (rs_conns (handle_frame Route c r) i)"
      if "cn_phase (rs_conns (handle_frame Route c r) i) \<noteq> Closed" for i
      using step(2) [of i] that by auto
    show ?thesis
      using Serving same by (intro relay_hist_step [OF hist]) (auto simp: step(1,3))
  qed
next
  case Accepted
  then show ?thesis by (intro relay_hist_step [OF hist]) (auto simp: handle_frame_def)
next
  case Closed
  then show ?thesis by (intro relay_hist_step [OF hist]) (auto simp: handle_frame_def)
qed

lemma relay_exec_hist:
  assumes hist: "relay_hist P streams xs r"
  shows "relay_hist P streams (xs @ [x]) (relay_exec P Route x r)"
proof (cases x)
  case (OpFail c n)
  then show ?thesis by (intro relay_hist_step [OF hist]) (auto split: if_splits)
qed (use hist in \<open>simp_all add: handle_auth_hist handle_frame_hist\<close>)

end

interpretation relay: history_system "\<lambda>x r. True" "relay_exec P LocalRouter_Route" "relay_inv P"
  "relay_hist P streams" for P streams
  by unfold_locales (rule local_router.relay_exec_inv local_router.relay_exec_hist; assumption)+

lemma relay_inv_init:
  assumes "\<And>c. cn_phase (conns c) = Accepted" "\<And>c. cn_out (conns c) = []"
  shows "relay_inv P (NewRelayServer key conns)"
  using assms by (auto simp: relay_inv_def NewRelayServer_def out_ok_def intro: exI [of _ "[]"])

end
