(* ===== verification/Relay_Props.thy ===== *)
theory Relay_Props
  imports Relay_Inv Registrar_Samples
begin

text \<open>
  The properties of the relay server: what endpoints receive, who can send, how sessions are
  replaced, and that \<open>HandleConn\<close> returns. Here each handler step is executed without
  interruption; what a connection receives when handlers interleave is in \<open>Relay_Threads\<close>.
\<close>

section \<open>Frames on the wire\<close>

lemma data_frame_read:
  assumes "length payload < 2 ^ 32"
  shows "readFrame (concat (WriteDataFrame dst payload) @ rest) =
    (if length payload \<le> MaxRelayPayload then Inr (data_header dst payload, payload, rest)
     else Inl TooLarge)"
proof -
  have "unat (word_of_nat (length payload) :: u32) = length payload"
    using assms by (simp add: unat_of_nat take_bit_eq_mod)
  then have len: "unat (hdr_PayloadLen (data_header dst payload)) = length payload"
    by (simp add: data_header_def)
  have "concat (WriteDataFrame dst payload) = header_bytes (data_header dst payload) @ payload"
    by (simp add: WriteDataFrame_def writeFrame_def)
  then show ?thesis by (simp add: readFrame_header len)
qed

text \<open>C16. Wire round trip and bounds: what \<open>ReadRelayFrame\<close> reads from a data frame that
  \<open>WriteDataFrame\<close> wrote with a payload shorter than \<open>2 ^ 32\<close> bytes (the length field has 32 bits), whatever follows it in the stream, is the destination and the payload,
  up to the 1 MB limit; the writer does not check the limit, and the reader refuses what is
  above it.\<close>
theorem data_frame_roundtrip:
  assumes "length payload < 2 ^ 32"
  shows "ReadRelayFrame (concat (WriteDataFrame dst payload) @ rest) =
    (if length payload \<le> MaxRelayPayload then Inr (data_header dst payload, payload, rest)
     else Inl TooLarge)"
  using data_frame_read [OF assms] by (simp add: ReadRelayFrame_def)

theorem data_frame_roundtrip_witness:
  "ReadRelayFrame (concat (WriteDataFrame s_agent_addr [7, 8, 9]) @ [1]) =
     Inr (data_header s_agent_addr [7, 8, 9], [7, 8, 9], [1])"
  by (simp add: data_frame_roundtrip)

section \<open>Runs of the server\<close>

definition relay_run ::
    "prims \<Rightarrow> bytes \<Rightarrow> (nat \<Rightarrow> conn) \<Rightarrow> relay_op list \<Rightarrow> RelayServer" where
  "relay_run P key conns xs = run_ops (relay_exec P LocalRouter_Route) xs (NewRelayServer key conns)"

definition new_conn :: "bytes \<Rightarrow> conn" where
  "new_conn stream = \<lparr>cn_in = stream, cn_out = [], cn_quota = None, cn_phase = Accepted\<rparr>"

lemma legal_True: "legal_ops (\<lambda>x r. True) exec xs s"
  by (induction xs arbitrary: s) auto

lemma relay_run_inv: "relay_inv P (relay_run P key (\<lambda>c. new_conn (streams c)) xs)"
  unfolding relay_run_def
  by (rule relay.run_inv [OF relay_inv_init legal_True]) (simp_all add: new_conn_def)

lemma relay_exec_key: "rs_controllerPubKey (relay_exec P LocalRouter_Route x r) = rs_controllerPubKey r"
proof (cases x)
  case (OpAuth now c)
  then show ?thesis
    by (auto simp: handle_auth_def closeConn_def writeControlFrame_def addSession_def
        split: conn_phase.split sum.split)
next
  case (OpFrame c)
  then show ?thesis
    by (auto simp: handle_frame_def Let_def handle_return_def closeConn_def writeNoRoute_def
        writeTo_def MeshRouter_Route_def LocalRouter_cases
        split: conn_phase.split sum.split prod.split bool.split option.split)
qed simp

lemma relay_run_key: "rs_controllerPubKey (relay_run P key conns xs) = key"
proof -
  have "rs_controllerPubKey (run_ops (relay_exec P LocalRouter_Route) xs r) = rs_controllerPubKey r" for r
    by (induction xs arbitrary: r) (auto simp: relay_exec_key)
  then show ?thesis by (simp add: relay_run_def NewRelayServer_def)
qed

lemma relay_run_hist:
  "relay_hist P streams xs (relay_run P key (\<lambda>c. new_conn (streams c)) xs)"
  unfolding relay_run_def
  by (rule relay.run_hist [OF relay_inv_init _ legal_True])
    (simp_all add: new_conn_def relay_hist_def NewRelayServer_def)

section \<open>The sample relay\<close>

definition s_streams :: "nat \<Rightarrow> bytes" where
  "s_streams c =
     (if c = 0 then concat (WriteAuthFrame (s_token 2)) @ concat (WriteDataFrame s_agent_addr [7, 8, 9])
      else if c = 1 then concat (WriteAuthFrame (s_token 1)) else [])"

definition s_relay :: "relay_op list \<Rightarrow> RelayServer" where
  "s_relay xs = relay_run s_P (replicate 32 1) (\<lambda>c. new_conn (s_streams c)) xs"

lemma length_b64_digits: "length (b64_digits bs) \<le> 4 * length bs"
  by (induction bs rule: b64_digits.induct) (simp_all add: Let_def)

lemma s_token_short: "length (s_token b) < 1000"
  using length_b64_digits [of "b # s_sig"]
  by (simp add: s_token_def s_sig_def pasetoHeader_def b64url_encode_def)

lemma auth_frame_read:
  assumes "length token \<le> MaxRelayPayload"
  shows "readFrame (concat (WriteAuthFrame token) @ rest) =
    Inr (zero_header\<lparr>hdr_Type := FrameAuth, hdr_PayloadLen := word_of_nat (length token)\<rparr>,
         bytes_of_string token, rest)"
proof -
  let ?h = "zero_header\<lparr>hdr_Type := FrameAuth, hdr_PayloadLen := word_of_nat (length token)\<rparr>"
  have "valid_frame (?h, bytes_of_string token)"
    using assms unat_of_nat [of "length token", where 'a = 32]
    by (simp add: valid_frame_def take_bit_eq_mod)
  from readFrame_enc [OF this, of rest] show ?thesis
    by (simp add: enc_frame_def WriteAuthFrame_def Let_def)
qed

definition s_session :: "nat \<Rightarrow> TokenClaims \<Rightarrow> RelaySession" where
  "s_session c claims = \<lparr>se_Addr = addr_of_claims claims, se_conn = c, se_claims = claims\<rparr>"

lemma authenticate_frame:
  assumes "length token \<le> MaxRelayPayload" "VerifyToken P now token key = Inr claims"
  shows "authenticate P now key c (concat (WriteAuthFrame token) @ rest) = Inr (s_session c claims, rest)"
  using assms by (simp add: authenticate_def auth_frame_read s_session_def)

definition s_steps :: "relay_op list" where
  "s_steps = [OpAuth 10 0, OpAuth 10 1]"

lemma s_addr_of_claims: "addr_of_claims s_client_claims = s_client_addr" "addr_of_claims s_agent_claims = s_agent_addr"
  by (simp_all add: addr_of_claims_def s_client_claims_def s_agent_claims_def s_client_addr_def s_agent_addr_def)

lemma s_authenticate:
  "authenticate s_P 10 (replicate 32 1) 0 (s_streams 0) =
     Inr (s_session 0 s_client_claims, concat (WriteDataFrame s_agent_addr [7, 8, 9]))"
  "authenticate s_P 10 (replicate 32 1) 1 (s_streams 1) = Inr (s_session 1 s_agent_claims, [])"
  using authenticate_frame [of "s_token 2" s_P 10 "replicate 32 1" s_client_claims 0
      "concat (WriteDataFrame s_agent_addr [7, 8, 9])"]
    authenticate_frame [of "s_token 1" s_P 10 "replicate 32 1" s_agent_claims 1 "[]"]
    s_token_short [of 1] s_token_short [of 2]
  by (simp_all add: s_streams_def)

text \<open>Both endpoints are authenticated; the client's data frame is still to be handled.\<close>

definition s_relay2 :: RelayServer where
  "s_relay2 = \<lparr>rs_controllerPubKey = replicate 32 1,
     rs_sessions = [(AddrKey s_client_addr, s_session 0 s_client_claims),
       (AddrKey s_agent_addr, s_session 1 s_agent_claims)],
     rs_conns = (\<lambda>c. new_conn (s_streams c))
       (0 := \<lparr>cn_in = concat (WriteDataFrame s_agent_addr [7, 8, 9]),
              cn_out = [header_bytes (control_header FrameAuthOK)], cn_quota = None,
              cn_phase = Serving (s_session 0 s_client_claims)\<rparr>,
        1 := \<lparr>cn_in = [], cn_out = [header_bytes (control_header FrameAuthOK)], cn_quota = None,
              cn_phase = Serving (s_session 1 s_agent_claims)\<rparr>)\<rparr>"

lemma s_session_sel [simp]: "se_conn (s_session c cl) = c" "se_Addr (s_session c cl) = addr_of_claims cl"
  "se_claims (s_session c cl) = cl"
  by (simp_all add: s_session_def)

lemma s_relay_steps: "s_relay s_steps = s_relay2"
  using s_authenticate
  by (simp add: s_relay_def s_steps_def relay_run_def NewRelayServer_def handle_auth_def new_conn_def
      set_conn_def writeControlFrame_def writeTo_def writeFrame_def addSession_def s_relay2_def
      s_addr_of_claims gm_put_def)

section \<open>Delivery\<close>

lemma delivered:
  assumes "cn_phase (rs_conns r c) = Serving src"
    and "cn_in (rs_conns r c) = concat (WriteDataFrame dst payload) @ rest"
    and "length payload \<le> MaxRelayPayload" and "cn_quota (rs_conns r c) = None"
    and "r' = handle_frame LocalRouter_Route c r"
    and "\<forall>t. gm_get (rs_sessions r) (AddrKey dst) = Some t \<longrightarrow> cn_quota (rs_conns r (se_conn t)) = None"
  shows "rs_sessions r' = rs_sessions r \<and> cn_in (rs_conns r' c) = rest \<and>
    (\<forall>i. cn_out (rs_conns r' i) = cn_out (rs_conns r i) @
       (case gm_get (rs_sessions r) (AddrKey dst) of
          Some t \<Rightarrow> if i = se_conn t then WriteDataFrame (se_Addr src) payload else []
        | None \<Rightarrow> if i = c then writeFrame (noRoute_header (data_header dst payload)) [] else []))"
proof -
  have read: "readFrame (cn_in (rs_conns r c)) = Inr (data_header dst payload, payload, rest)"
    using data_frame_read [of payload dst rest] assms(2,3) by simp
  have hdr: "hdr_Type (data_header dst payload) = FrameData" by (simp add: data_header_def)
  have key: "AddrKey (dst_of_header (data_header dst payload)) = AddrKey dst"
    by (rule AddrKey_cong) (simp_all add: dst_of_header_def data_header_def)
  show ?thesis
  proof (cases "gm_get (rs_sessions r) (AddrKey dst)")
    case None
    have r': "r' = writeNoRoute c (data_header dst payload) (set_conn c ((rs_conns r c)\<lparr>cn_in := rest\<rparr>) r)"
      using assms(1,5) read hdr None
      by (simp add: handle_frame_def Let_def LocalRouter_cases key getSession_def)
    show ?thesis
      using None conn_write_True conn_write_unlimited assms(4) by (simp add: r' writeNoRoute_def)
  next
    case (Some t)
    let ?r1 = "set_conn c ((rs_conns r c)\<lparr>cn_in := rest\<rparr>) r"
    have unlimited: "cn_quota (rs_conns ?r1 (se_conn t)) = None" using assms(4,6) Some by simp
    then have r': "r' = snd (writeTo (se_conn t) (data_header (se_Addr src) payload) payload ?r1)"
      using assms(1,5) read hdr Some
      by (simp add: handle_frame_def Let_def LocalRouter_cases key getSession_def writeTo_fst
          conn_write_unlimited split: prod.split)
    show ?thesis
      using Some conn_write_True [OF conn_write_unlimited [OF unlimited]] unfolding r'
      by (auto simp: WriteDataFrame_def)
  qed
qed

text \<open>C13. Delivery: when a connection with a session sends a data frame of at most 1 MB, its
  handling forwards it. If the destination has a session whose connection takes writes, that
  connection gets exactly the data frame with the sender's address as its source and the payload
  unchanged, and nobody else gets anything; without a session for the destination the sender
  gets the no-route reply with the destination it asked for. The session map stays as it is.\<close>
theorem relay_delivery:
  assumes "cn_phase (rs_conns r c) = Serving src"
    and "cn_in (rs_conns r c) = concat (WriteDataFrame dst payload) @ rest"
    and "length payload \<le> MaxRelayPayload" and "cn_quota (rs_conns r c) = None"
    and "r' = handle_frame LocalRouter_Route c r"
    and "\<forall>t. gm_get (rs_sessions r) (AddrKey dst) = Some t \<longrightarrow> cn_quota (rs_conns r (se_conn t)) = None"
  shows "rs_sessions r' = rs_sessions r \<and> cn_in (rs_conns r' c) = rest \<and>
    (\<forall>i. cn_out (rs_conns r' i) = cn_out (rs_conns r i) @
       (case gm_get (rs_sessions r) (AddrKey dst) of
          Some t \<Rightarrow> if i = se_conn t then WriteDataFrame (se_Addr src) payload else []
        | None \<Rightarrow> if i = c then writeFrame (noRoute_header (data_header dst payload)) [] else []))"
  using assms by (rule delivered)

theorem relay_delivery_witness:
  "cn_out (rs_conns (handle_frame LocalRouter_Route 0 s_relay2) 1) =
     [header_bytes (control_header FrameAuthOK)] @ WriteDataFrame s_client_addr [7, 8, 9]"
proof -
  have t: "gm_get (rs_sessions s_relay2) (AddrKey s_agent_addr) = Some (s_session 1 s_agent_claims)"
    by (simp add: s_relay2_def gm_get_def)
  have "cn_phase (rs_conns s_relay2 0) = Serving (s_session 0 s_client_claims)"
    "cn_in (rs_conns s_relay2 0) = concat (WriteDataFrame s_agent_addr [7, 8, 9]) @ []"
    "length [7, 8, 9 :: byte] \<le> MaxRelayPayload" "cn_quota (rs_conns s_relay2 0) = None"
    by (simp_all add: s_relay2_def)
  note deliver = relay_delivery [OF this refl]
  have "cn_quota (rs_conns s_relay2 1) = None"
    "cn_out (rs_conns s_relay2 1) = [header_bytes (control_header FrameAuthOK)]"
    by (simp_all add: s_relay2_def)
  with deliver t show ?thesis by (simp add: s_addr_of_claims)
qed

section \<open>Sessions\<close>

text \<open>C11. Only token holders have sessions: the session the relay routes an address to is on a live
  connection that serves it, and the first frame this connection ever sent was an authentication
  frame with a token that verified under the relay's key, at a time the relay authenticated it, to
  claims with exactly this address.\<close>
theorem relay_sessions_authenticated:
  assumes "r = relay_run P key (\<lambda>c. new_conn (streams c)) xs" "getSession k r = Some s"
  shows "k = AddrKey (se_Addr s) \<and> cn_phase (rs_conns r (se_conn s)) = Serving s \<and>
    se_Addr s = addr_of_claims (se_claims s) \<and>
    (\<exists>now hdr token rest. OpAuth now (se_conn s) \<in> set xs \<and>
       ReadRelayFrame (streams (se_conn s)) = Inr (hdr, token, rest) \<and> hdr_Type hdr = FrameAuth \<and>
       VerifyToken P now (string_of_bytes token) key = Inr (se_claims s))"
proof -
  have s: "k = AddrKey (se_Addr s)" "cn_phase (rs_conns r (se_conn s)) = Serving s"
    using relay_invD(2) [OF relay_run_inv] assms unfolding getSession_def by blast+
  then have "opened P streams key xs (se_conn s) s"
    using relay_run_hist relay_run_key unfolding assms(1) relay_hist_def by metis
  with s show ?thesis by (auto simp: opened_def ReadRelayFrame_def)
qed

theorem relay_sessions_authenticated_witness:
  "\<exists>now hdr token rest. OpAuth now 1 \<in> set s_steps \<and>
     ReadRelayFrame (s_streams 1) = Inr (hdr, token, rest) \<and> hdr_Type hdr = FrameAuth \<and>
     VerifyToken s_P now (string_of_bytes token) (replicate 32 1) = Inr s_agent_claims"
proof -
  have "getSession (AddrKey s_agent_addr) (s_relay s_steps) = Some (s_session 1 s_agent_claims)"
    by (simp add: s_relay_steps s_relay2_def getSession_def gm_get_def)
  from relay_sessions_authenticated [OF s_relay_def this] show ?thesis by simp
qed

text \<open>C15. Reconnecting is safe: when an endpoint has authenticated again on another connection and
  its old connection then ends, the old handler closes its connection and leaves the session map
  as it is, so that the address keeps being routed to the new connection.\<close>
theorem reconnect_keeps_session:
  assumes "r = relay_run P key (\<lambda>c. new_conn (streams c)) xs"
    and "cn_phase (rs_conns r c) = Serving old" "readFrame (cn_in (rs_conns r c)) = Inl e"
    and "getSession (AddrKey (se_Addr old)) r = Some cur" "se_conn cur \<noteq> c"
    and "r' = handle_frame LocalRouter_Route c r"
  shows "cn_phase (rs_conns r' c) = Closed \<and> rs_sessions r' = rs_sessions r \<and>
    (\<forall>i. i \<noteq> c \<longrightarrow> rs_conns r' i = rs_conns r i)"
proof -
  have "se_conn old = c" using relay_invD(3) [OF relay_run_inv] assms(1,2) by blast
  then have "removeSession old r = r"
    using assms(4,5) by (simp add: removeSession_def getSession_def)
  moreover have "r' = handle_return old c r"
    using local_router.handle_frame_return [OF assms(2,3)] assms(6) by simp
  ultimately show ?thesis by (simp add: handle_return_def closeConn_def)
qed

definition s_streams' :: "nat \<Rightarrow> bytes" where
  "s_streams' c = (if c \<le> 1 then concat (WriteAuthFrame (s_token 1)) else [])"

lemma s_reconnect:
  "relay_run s_P (replicate 32 1) (\<lambda>c. new_conn (s_streams' c)) s_steps =
     \<lparr>rs_controllerPubKey = replicate 32 1,
      rs_sessions = [(AddrKey s_agent_addr, s_session 1 s_agent_claims)],
      rs_conns = (\<lambda>c. new_conn (s_streams' c))
       (0 := \<lparr>cn_in = [], cn_out = [header_bytes (control_header FrameAuthOK)], cn_quota = None,
              cn_phase = Serving (s_session 0 s_agent_claims)\<rparr>,
        1 := \<lparr>cn_in = [], cn_out = [header_bytes (control_header FrameAuthOK)], cn_quota = None,
              cn_phase = Serving (s_session 1 s_agent_claims)\<rparr>)\<rparr>"
proof -
  have "authenticate s_P 10 (replicate 32 1) c (s_streams' c) = Inr (s_session c s_agent_claims, [])"
    if "c \<le> 1" for c
    using that authenticate_frame [of "s_token 1" s_P 10 "replicate 32 1" s_agent_claims c "[]"]
      s_token_short [of 1] by (simp add: s_streams'_def)
  from this [of 0] this [of 1] show ?thesis
    by (simp add: s_steps_def relay_run_def NewRelayServer_def handle_auth_def new_conn_def
        set_conn_def writeControlFrame_def writeTo_def writeFrame_def addSession_def
        s_addr_of_claims gm_put_def)
qed

theorem reconnect_keeps_session_witness:
  "getSession (AddrKey s_agent_addr) (handle_frame LocalRouter_Route 0
     (relay_run s_P (replicate 32 1) (\<lambda>c. new_conn (s_streams' c)) s_steps)) =
   Some (s_session 1 s_agent_claims)"
proof -
  let ?r = "relay_run s_P (replicate 32 1) (\<lambda>c. new_conn (s_streams' c)) s_steps"
  have "cn_phase (rs_conns ?r 0) = Serving (s_session 0 s_agent_claims)"
    "readFrame (cn_in (rs_conns ?r 0)) = Inl ShortRead"
    by (simp_all add: s_reconnect readFrame_def readFull_def)
  note old = this
  have cur: "getSession (AddrKey (se_Addr (s_session 0 s_agent_claims))) ?r = Some (s_session 1 s_agent_claims)"
    by (simp add: s_reconnect getSession_def gm_get_def s_addr_of_claims)
  have "se_conn (s_session 1 s_agent_claims) \<noteq> 0" by simp
  from reconnect_keeps_session [OF refl old cur this refl]
  have "rs_sessions (handle_frame LocalRouter_Route 0 ?r) = rs_sessions ?r" by (elim conjE)
  with cur show ?thesis unfolding getSession_def s_session_sel s_addr_of_claims by (simp only:)
qed

text \<open>C14. \<open>HandleConn\<close> returns: whatever the peer sent, a connection with a session is closed after at
  most as many iterations of its loop as it has bytes left to read, plus one, and then no
  address is routed to it.\<close>
theorem HandleConn_returns:
  assumes "r = relay_run P key (\<lambda>c. new_conn (streams c)) xs"
    and "cn_phase (rs_conns r c) = Serving s" "length (cn_in (rs_conns r c)) < n"
    and "r' = run_ops (relay_exec P LocalRouter_Route) (replicate n (OpFrame c)) r"
  shows "cn_phase (rs_conns r' c) = Closed \<and>
    (\<forall>k t. getSession k r' = Some t \<longrightarrow> se_conn t \<noteq> c)"
proof -
  have closed: "cn_phase (rs_conns r' c) = Closed"
    unfolding assms(4) by (rule local_router.loop_returns [OF assms(2,3)])
  have inv: "relay_inv P r'"
    unfolding assms(1,4) by (rule relay.run_inv [OF relay_run_inv legal_True])
  have "se_conn t \<noteq> c" if "getSession k r' = Some t" for k t
    using relay_invD(2) [OF inv that [unfolded getSession_def]] closed by auto
  with closed show ?thesis by blast
qed

theorem HandleConn_returns_witness:
  "cn_phase (rs_conns (run_ops (relay_exec s_P LocalRouter_Route) (replicate 13 (OpFrame 0)) s_relay2) 0) = Closed"
proof -
  have "cn_phase (rs_conns s_relay2 0) = Serving (s_session 0 s_client_claims)"
    "length (cn_in (rs_conns s_relay2 0)) < 13"
    by (simp_all add: s_relay2_def WriteDataFrame_def writeFrame_def)
  with HandleConn_returns [OF s_relay_steps [symmetric, unfolded s_relay_def], of 0] show ?thesis by blast
qed

end
