(* ===== verification/Relay_Threads.thy ===== *)
theory Relay_Threads
  imports Relay_Props "HOL-Library.Sublist"
begin

text \<open>
  \<open>HandleConn\<close> of \<^verbatim>\<open>swarm/relay.go\<close> as the goroutines it runs in. Each connection has a handler
  with its own program counter; one step is one operation on the session map, one \<open>Lock\<close> or
  \<open>Unlock\<close> of a session's \<open>mu\<close>, one \<open>Write\<close> call, or one frame read from the own connection, and
  the steps of all handlers interleave freely. \<open>Lock\<close> blocks while the lock is held (the guard of
  \<open>thread_ready\<close>). Pongs and forwarded frames are written under the lock of the session written
  to; the authentication answers and the no-route replies are written without it.

  The invariant \<open>threads_inv\<close> says who writes to a connection: before its session is in the map
  only its own handler, then the holder of its lock, and, without a lock, a no-route reply.
\<close>

section \<open>Handlers\<close>

text \<open>What a frame written under a lock is for: the answer to a ping, or a frame to forward.\<close>

datatype purpose = Pong | Forward

text \<open>Where the handler of a connection is, with the \<open>Write\<close> calls its \<open>writeFrame\<close> still has to
  make. \<open>HLocking s t j ws\<close> waits for \<open>t.mu\<close>, \<open>HWriting\<close> and \<open>HFailed\<close> hold it.\<close>

datatype handler =
    HStart
  | HFailing "bytes list"
  | HGreeting RelaySession "bytes list"
  | HReading RelaySession
  | HRouting RelaySession RelayFrameHeader bytes
  | HLocking RelaySession RelaySession purpose "bytes list"
  | HWriting RelaySession RelaySession purpose "bytes list"
  | HFailed RelaySession RelaySession purpose
  | HDropping RelaySession RelaySession
  | HReplying RelaySession "bytes list"
  | HReturning RelaySession
  | HClosing
  | HDone

text \<open>\<open>th_lock d\<close> is the handler that holds \<open>mu\<close> of the session on connection \<open>d\<close>;
  \<open>th_noroute d\<close> records that handler \<open>d\<close> has begun a no-route reply.\<close>

record threads =
  th_server :: RelayServer
  th_lock :: "nat \<Rightarrow> nat option"
  th_pc :: "nat \<Rightarrow> handler"
  th_noroute :: "nat \<Rightarrow> bool"

definition start_threads :: "bytes \<Rightarrow> (nat \<Rightarrow> conn) \<Rightarrow> threads" where
  "start_threads key conns =
     \<lparr>th_server = NewRelayServer key conns, th_lock = (\<lambda>d. None), th_pc = (\<lambda>c. HStart),
      th_noroute = (\<lambda>d. False)\<rparr>"

definition goto :: "nat \<Rightarrow> handler \<Rightarrow> threads \<Rightarrow> threads" where
  "goto c h st = st\<lparr>th_pc := (th_pc st)(c := h)\<rparr>"

definition writeOne :: "nat \<Rightarrow> bytes \<Rightarrow> RelayServer \<Rightarrow> bool \<times> RelayServer" where
  "writeOne d w r = (case conn_write [w] (rs_conns r d) of (ok, cn) \<Rightarrow> (ok, set_conn d cn r))"

text \<open>\<open>HandleConn\<close> up to its loop: the authentication frame is read and answered, and only then
  is the session put into the map.\<close>

definition step_start :: "prims \<Rightarrow> time \<Rightarrow> nat \<Rightarrow> threads \<Rightarrow> threads" where
  "step_start P now c st =
     (let r = th_server st in
      case authenticate P now (rs_controllerPubKey r) c (cn_in (rs_conns r c)) of
        Inl e \<Rightarrow> goto c (HFailing (writeFrame (control_header FrameAuthFail) [])) st
      | Inr (s, rest) \<Rightarrow>
          goto c (HGreeting s (writeFrame (control_header FrameAuthOK) []))
            (st\<lparr>th_server := set_conn c ((rs_conns r c)\<lparr>cn_in := rest, cn_phase := Serving s\<rparr>) r\<rparr>))"

text \<open>The head of the loop, to the switch on the frame type.\<close>

definition step_read :: "nat \<Rightarrow> RelaySession \<Rightarrow> threads \<Rightarrow> threads" where
  "step_read c s st =
     (let r = th_server st in
      case readFrame (cn_in (rs_conns r c)) of
        Inl e \<Rightarrow> goto c (HReturning s) st
      | Inr (hdr, payload, rest) \<Rightarrow>
          goto c
            (if hdr_Type hdr = FramePing
             then HLocking s s Pong (writeFrame (pong_header payload) payload)
             else if hdr_Type hdr = FrameData then HRouting s hdr payload
             else HReading s)
            (st\<lparr>th_server := set_conn c ((rs_conns r c)\<lparr>cn_in := rest\<rparr>) r\<rparr>))"

text \<open>\<open>LocalRouter.Route\<close> to its lock, or the branch of an unhandled frame.\<close>

definition step_route :: "nat \<Rightarrow> RelaySession \<Rightarrow> RelayFrameHeader \<Rightarrow> bytes \<Rightarrow> threads \<Rightarrow> threads" where
  "step_route c s hdr payload st =
     (case getSession (AddrKey (dst_of_header hdr)) (th_server st) of
        None \<Rightarrow>
          goto c (HReplying s (writeFrame (noRoute_header hdr) []))
            (st\<lparr>th_noroute := (th_noroute st)(c := True)\<rparr>)
      | Some t \<Rightarrow>
          goto c (HLocking s t Forward (writeFrame (data_header (se_Addr s) payload) payload)) st)"

text \<open>The statement after \<open>Unlock\<close> when the write failed.\<close>

definition after_failure :: "RelaySession \<Rightarrow> RelaySession \<Rightarrow> purpose \<Rightarrow> handler" where
  "after_failure s t j = (case j of Pong \<Rightarrow> HReturning s | Forward \<Rightarrow> HDropping s t)"

fun handler_step :: "prims \<Rightarrow> time \<Rightarrow> nat \<Rightarrow> handler \<Rightarrow> threads \<Rightarrow> threads" where
  "handler_step P now c HStart st = step_start P now c st"
| "handler_step P now c (HFailing []) st = goto c HClosing st"
| "handler_step P now c (HFailing (w # ws)) st =
     (case writeOne c w (th_server st) of
        (ok, r) \<Rightarrow> goto c (HFailing (if ok then ws else [])) (st\<lparr>th_server := r\<rparr>))"
| "handler_step P now c (HGreeting s []) st =
     goto c (HReading s) (st\<lparr>th_server := addSession s (th_server st)\<rparr>)"
| "handler_step P now c (HGreeting s (w # ws)) st =
     (case writeOne c w (th_server st) of
        (ok, r) \<Rightarrow> goto c (HGreeting s (if ok then ws else [])) (st\<lparr>th_server := r\<rparr>))"
| "handler_step P now c (HReading s) st = step_read c s st"
| "handler_step P now c (HRouting s hdr payload) st = step_route c s hdr payload st"
| "handler_step P now c (HLocking s t j ws) st =
     goto c (HWriting s t j ws) (st\<lparr>th_lock := (th_lock st)(se_conn t := Some c)\<rparr>)"
| "handler_step P now c (HWriting s t j []) st =
     goto c (HReading s) (st\<lparr>th_lock := (th_lock st)(se_conn t := None)\<rparr>)"
| "handler_step P now c (HWriting s t j (w # ws)) st =
     (case writeOne (se_conn t) w (th_server st) of
        (ok, r) \<Rightarrow> goto c (if ok then HWriting s t j ws else HFailed s t j) (st\<lparr>th_server := r\<rparr>))"
| "handler_step P now c (HFailed s t j) st =
     goto c (after_failure s t j) (st\<lparr>th_lock := (th_lock st)(se_conn t := None)\<rparr>)"
| "handler_step P now c (HDropping s t) st =
     goto c (HReading s) (st\<lparr>th_server := removeSession t (th_server st)\<rparr>)"
| "handler_step P now c (HReplying s []) st = goto c (HReading s) st"
| "handler_step P now c (HReplying s (w # ws)) st =
     (case writeOne c w (th_server st) of
        (ok, r) \<Rightarrow> goto c (HReplying s (if ok then ws else [])) (st\<lparr>th_server := r\<rparr>))"
| "handler_step P now c (HReturning s) st =
     goto c HClosing (st\<lparr>th_server := removeSession s (th_server st)\<rparr>)"
| "handler_step P now c HClosing st =
     goto c HDone (st\<lparr>th_server := closeConn c (th_server st)\<rparr>)"
| "handler_step P now c HDone st = st"

text \<open>A step of a handler, or a connection that fails: only \<open>n\<close> more \<open>Write\<close> calls succeed on it.\<close>

datatype thread_op = Thread time nat | Fails nat nat

fun thread_exec :: "prims \<Rightarrow> thread_op \<Rightarrow> threads \<Rightarrow> threads" where
  "thread_exec P (Thread now c) st = handler_step P now c (th_pc st c) st"
| "thread_exec P (Fails c n) st =
     st\<lparr>th_server := relay_exec P LocalRouter_Route (OpFail c n) (th_server st)\<rparr>"

fun lock_free :: "handler \<Rightarrow> threads \<Rightarrow> bool" where
  "lock_free (HLocking s t j ws) st \<longleftrightarrow> th_lock st (se_conn t) = None"
| "lock_free h st \<longleftrightarrow> True"

fun thread_ready :: "thread_op \<Rightarrow> threads \<Rightarrow> bool" where
  "thread_ready (Thread now c) st \<longleftrightarrow> lock_free (th_pc st c) st"
| "thread_ready (Fails c n) st \<longleftrightarrow> True"

section \<open>The invariant\<close>

text \<open>Before its session is in the map, only the handler itself writes to a connection.\<close>

fun early :: "handler \<Rightarrow> bool" where
  "early HStart \<longleftrightarrow> True"
| "early (HFailing ws) \<longleftrightarrow> True"
| "early (HGreeting s ws) \<longleftrightarrow> True"
| "early _ \<longleftrightarrow> False"

text \<open>What is left to write of a frame begun without a lock, and of one begun under a lock; the
  connection whose lock is held.\<close>

fun own_rest :: "handler \<Rightarrow> bytes" where
  "own_rest (HFailing ws) = concat ws"
| "own_rest (HGreeting s ws) = concat ws"
| "own_rest _ = []"

fun locked_rest :: "handler \<Rightarrow> bytes" where
  "locked_rest (HWriting s t j ws) = concat ws"
| "locked_rest _ = []"

fun holds :: "handler \<Rightarrow> nat option" where
  "holds (HWriting s t j ws) = Some (se_conn t)"
| "holds (HFailed s t j) = Some (se_conn t)"
| "holds _ = None"

definition pending :: "threads \<Rightarrow> nat \<Rightarrow> bytes" where
  "pending st d = own_rest (th_pc st d) @
     (case th_lock st d of None \<Rightarrow> [] | Some a \<Rightarrow> locked_rest (th_pc st a))"

text \<open>Together with what is left to write, a connection's output is whole frames; once a \<open>Write\<close>
  failed, it is the beginning of such a sequence.\<close>

definition lines_ok :: "prims \<Rightarrow> bytes \<Rightarrow> conn \<Rightarrow> bytes \<Rightarrow> bool" where
  "lines_ok P key cn rest \<longleftrightarrow>
     (\<exists>fs. list_all (frame_ok P key) fs \<and>
        (concat (cn_out cn) @ rest = concat (map enc_frame fs) \<or>
         cn_quota cn = Some 0 \<and> prefix (concat (cn_out cn)) (concat (map enc_frame fs))))"

definition session_ok :: "prims \<Rightarrow> threads \<Rightarrow> nat \<Rightarrow> RelaySession \<Rightarrow> bool" where
  "session_ok P st c s \<longleftrightarrow>
     se_conn s = c \<and> verified_source P (rs_controllerPubKey (th_server st)) (se_Addr s)"

definition whole_frame :: "prims \<Rightarrow> threads \<Rightarrow> bytes list \<Rightarrow> bool" where
  "whole_frame P st ws \<longleftrightarrow>
     (\<exists>f. frame_ok P (rs_controllerPubKey (th_server st)) f \<and> concat ws = enc_frame f)"

fun pc_ok :: "prims \<Rightarrow> threads \<Rightarrow> nat \<Rightarrow> handler \<Rightarrow> bool" where
  "pc_ok P st c (HGreeting s ws) \<longleftrightarrow> session_ok P st c s"
| "pc_ok P st c (HReading s) \<longleftrightarrow> session_ok P st c s"
| "pc_ok P st c (HRouting s hdr payload) \<longleftrightarrow>
     session_ok P st c s \<and> length payload \<le> MaxRelayPayload"
| "pc_ok P st c (HLocking s t j ws) \<longleftrightarrow>
     session_ok P st c s \<and> \<not> early (th_pc st (se_conn t)) \<and> whole_frame P st ws"
| "pc_ok P st c (HWriting s t j ws) \<longleftrightarrow>
     session_ok P st c s \<and> \<not> early (th_pc st (se_conn t))"
| "pc_ok P st c (HFailed s t j) \<longleftrightarrow>
     session_ok P st c s \<and> \<not> early (th_pc st (se_conn t))"
| "pc_ok P st c (HDropping s t) \<longleftrightarrow> session_ok P st c s"
| "pc_ok P st c (HReplying s ws) \<longleftrightarrow> session_ok P st c s \<and> th_noroute st c"
| "pc_ok P st c (HReturning s) \<longleftrightarrow> session_ok P st c s"
| "pc_ok P st c _ \<longleftrightarrow> True"

definition locks_ok :: "threads \<Rightarrow> bool" where
  "locks_ok st \<longleftrightarrow> (\<forall>d a. th_lock st d = Some a \<longleftrightarrow> holds (th_pc st a) = Some d)"

definition mapped_ok :: "threads \<Rightarrow> bool" where
  "mapped_ok st \<longleftrightarrow> (\<forall>k s. gm_get (rs_sessions (th_server st)) k = Some s \<longrightarrow>
     \<not> early (th_pc st (se_conn s)))"

definition outputs_ok :: "prims \<Rightarrow> threads \<Rightarrow> bool" where
  "outputs_ok P st \<longleftrightarrow> (\<forall>d. \<not> th_noroute st d \<longrightarrow>
     lines_ok P (rs_controllerPubKey (th_server st)) (rs_conns (th_server st) d) (pending st d))"

definition threads_inv :: "prims \<Rightarrow> threads \<Rightarrow> bool" where
  "threads_inv P st \<longleftrightarrow>
     (\<forall>c. pc_ok P st c (th_pc st c)) \<and> locks_ok st \<and> mapped_ok st \<and> outputs_ok P st"

lemma threads_invD:
  assumes "threads_inv P st"
  shows "pc_ok P st c (th_pc st c)" "locks_ok st" "mapped_ok st" "outputs_ok P st"
  using assms by (simp_all add: threads_inv_def)

lemma locks_okD: "locks_ok st \<Longrightarrow> th_lock st d = Some a \<longleftrightarrow> holds (th_pc st a) = Some d"
  by (simp add: locks_ok_def)

lemma pc_ok_mono:
  assumes "\<And>d. early (th_pc st' d) \<Longrightarrow> early (th_pc st d)"
    and "rs_controllerPubKey (th_server st') = rs_controllerPubKey (th_server st)"
    and "th_noroute st c \<Longrightarrow> th_noroute st' c" "pc_ok P st c h"
  shows "pc_ok P st' c h"
  using assms by (cases h) (auto simp: session_ok_def whole_frame_def)

text \<open>A step of one handler keeps the invariant if the handler's own state, its locks, the session
  map and the outputs are in order.\<close>

lemma threads_inv_step:
  assumes inv: "threads_inv P st"
    and pc: "th_pc st' = (th_pc st)(c := h')"
    and key: "rs_controllerPubKey (th_server st') = rs_controllerPubKey (th_server st)"
    and early: "early h' \<Longrightarrow> early (th_pc st c)"
    and ok: "pc_ok P st' c h'"
    and nr: "\<And>d. th_noroute st d \<Longrightarrow> th_noroute st' d"
    and lock: "\<And>d. th_lock st' d = (if holds h' = Some d then Some c
       else if holds (th_pc st c) = Some d then None else th_lock st d)"
    and free: "\<And>d. holds h' = Some d \<Longrightarrow> th_lock st d = None \<or> th_lock st d = Some c"
    and mapped: "\<And>k s. gm_get (rs_sessions (th_server st')) k = Some s \<Longrightarrow>
       gm_get (rs_sessions (th_server st)) k = Some s \<or> se_conn s = c \<and> \<not> early h'"
    and out: "outputs_ok P st'"
  shows "threads_inv P st'"
proof -
  have mono: "early (th_pc st' d) \<Longrightarrow> early (th_pc st d)" for d
    using early by (auto simp: pc split: if_splits)
  have "pc_ok P st' a (th_pc st' a)" for a
    using ok pc_ok_mono [OF mono key nr threads_invD(1) [OF inv], of a] by (simp add: pc)
  moreover have "locks_ok st'"
    unfolding locks_ok_def
  proof (intro allI)
    fix d a
    note old = locks_okD [OF threads_invD(2) [OF inv]]
    show "th_lock st' d = Some a \<longleftrightarrow> holds (th_pc st' a) = Some d"
      using old [of d a] old [of d c] free [of d] unfolding lock pc by auto
  qed
  moreover have "mapped_ok st'"
    unfolding mapped_ok_def
  proof (intro allI impI)
    fix k s
    assume "gm_get (rs_sessions (th_server st')) k = Some s"
    from mapped [OF this] show "\<not> early (th_pc st' (se_conn s))"
    proof
      assume "gm_get (rs_sessions (th_server st)) k = Some s"
      with threads_invD(3) [OF inv] have "\<not> early (th_pc st (se_conn s))" by (simp add: mapped_ok_def)
      with mono show ?thesis by blast
    qed (simp add: pc)
  qed
  ultimately show ?thesis using out by (simp add: threads_inv_def)
qed

text \<open>The steps that take or release no lock.\<close>

lemma threads_inv_step_same_locks:
  assumes inv: "threads_inv P st"
    and "th_pc st' = (th_pc st)(c := h')"
    and "rs_controllerPubKey (th_server st') = rs_controllerPubKey (th_server st)"
    and "early h' \<Longrightarrow> early (th_pc st c)" "pc_ok P st' c h'"
    and "\<And>d. th_noroute st d \<Longrightarrow> th_noroute st' d"
    and lock: "th_lock st' = th_lock st" and holds: "holds h' = holds (th_pc st c)"
    and "\<And>k s. gm_get (rs_sessions (th_server st')) k = Some s \<Longrightarrow>
       gm_get (rs_sessions (th_server st)) k = Some s \<or> se_conn s = c \<and> \<not> early h'"
    and "outputs_ok P st'"
  shows "threads_inv P st'"
  using assms(1-6) _ _ assms(9,10)
proof (rule threads_inv_step)
  fix d
  note old = locks_okD [OF threads_invD(2) [OF inv], of d c]
  show "th_lock st' d = (if holds h' = Some d then Some c
      else if holds (th_pc st c) = Some d then None else th_lock st d)"
    using old by (simp add: lock holds)
  show "holds h' = Some d \<Longrightarrow> th_lock st d = None \<or> th_lock st d = Some c"
    using old by (simp add: holds)
qed

section \<open>Outputs\<close>

lemma lines_ok_begin:
  assumes "lines_ok P key cn []" "frame_ok P key f"
  shows "lines_ok P key cn (enc_frame f)"
proof -
  from assms(1) obtain fs where fs: "list_all (frame_ok P key) fs"
    "concat (cn_out cn) = concat (map enc_frame fs) \<or>
     cn_quota cn = Some 0 \<and> prefix (concat (cn_out cn)) (concat (map enc_frame fs))"
    by (auto simp: lines_ok_def)
  with assms(2) show ?thesis
    unfolding lines_ok_def
    by (intro exI [of _ "if concat (cn_out cn) = concat (map enc_frame fs) then fs @ [f] else fs"]) auto
qed

lemma conn_write_one:
  "conn_write [w] cn =
     (if cn_quota cn = Some 0 then (False, cn)
      else (True, cn\<lparr>cn_out := cn_out cn @ [w], cn_quota := map_option (\<lambda>n. n - 1) (cn_quota cn)\<rparr>))"
  by (auto split: option.split nat.split)

lemma lines_ok_write:
  assumes "lines_ok P key cn (w @ rest)"
  shows "lines_ok P key (snd (conn_write [w] cn)) (if fst (conn_write [w] cn) then rest else [])"
proof -
  from assms obtain fs where "list_all (frame_ok P key) fs"
    "concat (cn_out cn) @ w @ rest = concat (map enc_frame fs) \<or>
     cn_quota cn = Some 0 \<and> prefix (concat (cn_out cn)) (concat (map enc_frame fs))"
    by (auto simp: lines_ok_def)
  moreover have "prefix (concat (cn_out cn)) (concat (map enc_frame fs))"
    if "concat (cn_out cn) @ w @ rest = concat (map enc_frame fs)" for fs
    by (metis prefixI that)
  ultimately show ?thesis
    unfolding lines_ok_def conn_write_one by (intro exI [of _ fs]) auto
qed

text \<open>A connection on which fewer or no more \<open>Write\<close> calls will succeed.\<close>

lemma lines_ok_less:
  assumes "lines_ok P key cn rest" "cn_out cn' = cn_out cn"
    and "cn_quota cn = Some 0 \<Longrightarrow> cn_quota cn' = Some 0"
  shows "lines_ok P key cn' rest"
  using assms unfolding lines_ok_def by auto

lemma outputs_okD:
  "outputs_ok P st \<Longrightarrow> \<not> th_noroute st d \<Longrightarrow>
     lines_ok P (rs_controllerPubKey (th_server st)) (rs_conns (th_server st) d) (pending st d)"
  by (simp add: outputs_ok_def)

text \<open>A handler that is between two frames, or waits, or writes a no-route reply.\<close>

definition quiet :: "handler \<Rightarrow> bool" where
  "quiet h \<longleftrightarrow> own_rest h = [] \<and> locked_rest h = []"

lemma outputs_ok_quiet:
  assumes out: "outputs_ok P st"
    and pc: "th_pc st' = (th_pc st)(c := h')" and quiet: "quiet (th_pc st c)" "quiet h'"
    and lock: "th_lock st' = th_lock st"
    and key: "rs_controllerPubKey (th_server st') = rs_controllerPubKey (th_server st)"
    and conns: "\<And>d. \<not> th_noroute st' d \<Longrightarrow>
       \<not> th_noroute st d \<and> cn_out (rs_conns (th_server st') d) = cn_out (rs_conns (th_server st) d) \<and>
       (cn_quota (rs_conns (th_server st) d) = Some 0 \<longrightarrow> cn_quota (rs_conns (th_server st') d) = Some 0)"
  shows "outputs_ok P st'"
proof -
  have "pending st' d = pending st d" for d
    using quiet by (auto simp: pending_def pc lock quiet_def split: option.split)
  with conns outputs_okD [OF out] lines_ok_less show ?thesis
    unfolding outputs_ok_def key by metis
qed

section \<open>Every step keeps the invariant\<close>

lemma goto_sel [simp]:
  "th_pc (goto c h st) = (th_pc st)(c := h)" "th_server (goto c h st) = th_server st"
  "th_lock (goto c h st) = th_lock st" "th_noroute (goto c h st) = th_noroute st"
  by (simp_all add: goto_def)

lemma session_ok_same:
  "rs_controllerPubKey (th_server st') = rs_controllerPubKey (th_server st)
   \<Longrightarrow> session_ok P st' c s = session_ok P st c s"
  by (simp add: session_ok_def)

lemma writeFrame_whole:
  "frame_ok P (rs_controllerPubKey (th_server st)) (hdr, payload)
   \<Longrightarrow> whole_frame P st (writeFrame hdr payload)"
  unfolding whole_frame_def enc_frame_def by fastforce

lemma early_no_lock:
  assumes "threads_inv P st" "early (th_pc st d)"
  shows "th_lock st d = None"
proof (rule ccontr)
  assume "th_lock st d \<noteq> None"
  then obtain a where "holds (th_pc st a) = Some d"
    using locks_okD [OF threads_invD(2) [OF assms(1)]] by auto
  then have "\<not> early (th_pc st d)"
    using threads_invD(1) [OF assms(1), of a] by (cases "th_pc st a") auto
  with assms(2) show False by simp
qed

lemma pending_early: "threads_inv P st \<Longrightarrow> early (th_pc st d) \<Longrightarrow> pending st d = own_rest (th_pc st d)"
  by (simp add: pending_def early_no_lock)

lemma pending_other:
  assumes "th_pc st' = (th_pc st)(c := h')" "th_lock st' = th_lock st" "d \<noteq> c"
    and "locked_rest h' = locked_rest (th_pc st c)"
  shows "pending st' d = pending st d"
proof (cases "th_lock st d")
  case (Some a)
  with assms show ?thesis by (cases "a = c") (simp_all add: pending_def)
qed (use assms in \<open>simp add: pending_def\<close>)

text \<open>The first frame written to a connection, before its session is in the map.\<close>

lemma outputs_ok_greeting:
  assumes inv: "threads_inv P st" and early: "early (th_pc st c)" "own_rest (th_pc st c) = []"
    and pc: "th_pc st' = (th_pc st)(c := h')" "own_rest h' = enc_frame f"
      "locked_rest h' = []"
    and f: "frame_ok P (rs_controllerPubKey (th_server st)) f"
    and lock: "th_lock st' = th_lock st" and nr: "th_noroute st' = th_noroute st"
    and key: "rs_controllerPubKey (th_server st') = rs_controllerPubKey (th_server st)"
    and conns: "\<And>d. cn_out (rs_conns (th_server st') d) = cn_out (rs_conns (th_server st) d)"
      "\<And>d. cn_quota (rs_conns (th_server st') d) = cn_quota (rs_conns (th_server st) d)"
  shows "outputs_ok P st'"
  unfolding outputs_ok_def key nr
proof (intro allI impI)
  fix d
  assume "\<not> th_noroute st d"
  note old = outputs_okD [OF threads_invD(4) [OF inv] this]
  have same: "lines_ok P k (rs_conns (th_server st') e) x = lines_ok P k (rs_conns (th_server st) e) x" for k x e
    by (simp add: lines_ok_def conns)
  have nolock: "th_lock st c = None" by (rule early_no_lock [OF inv early(1)])
  have unlocked: "locked_rest (th_pc st c) = []" using early(1) by (cases "th_pc st c") simp_all
  show "lines_ok P (rs_controllerPubKey (th_server st)) (rs_conns (th_server st') d) (pending st' d)"
  proof (cases "d = c")
    case True
    with old have "lines_ok P (rs_controllerPubKey (th_server st)) (rs_conns (th_server st) d) []"
      by (simp add: pending_def nolock early(2))
    from lines_ok_begin [OF this f] True show ?thesis
      by (simp add: same pending_def pc lock nolock)
  next
    case False
    then have "pending st' d = pending st d"
      by (rule pending_other [OF pc(1) lock]) (simp add: pc(3) unlocked)
    with old show ?thesis by (simp add: same)
  qed
qed

text \<open>A \<open>Write\<close> call on connection \<open>d\<close>, by the only handler that is writing a frame there.\<close>

lemma outputs_ok_write:
  assumes out: "outputs_ok P st" and w: "writeOne d w (th_server st) = (ok, r)"
    and rest: "\<not> th_noroute st d \<Longrightarrow> pending st d = w @ rest"
    and key: "th_server st' = r" and nr: "th_noroute st' = th_noroute st"
    and here: "\<not> th_noroute st d \<Longrightarrow> pending st' d = (if ok then rest else [])"
    and others: "\<And>e. e \<noteq> d \<Longrightarrow> pending st' e = pending st e"
  shows "outputs_ok P st'"
proof -
  from w have r: "ok = fst (conn_write [w] (rs_conns (th_server st) d))"
    "r = set_conn d (snd (conn_write [w] (rs_conns (th_server st) d))) (th_server st)"
    by (simp_all add: writeOne_def split: prod.splits)
  show ?thesis
    unfolding outputs_ok_def nr
  proof (intro allI impI)
    fix e
    assume e: "\<not> th_noroute st e"
    note old = outputs_okD [OF out this]
    show "lines_ok P (rs_controllerPubKey (th_server st')) (rs_conns (th_server st') e) (pending st' e)"
    proof (cases "e = d")
      case True
      with old rest e have "lines_ok P (rs_controllerPubKey (th_server st)) (rs_conns (th_server st) d) (w @ rest)"
        by simp
      from lines_ok_write [OF this] True here e show ?thesis by (simp add: key r)
    next
      case False
      with old others show ?thesis by (simp add: key r)
    qed
  qed
qed

lemma writeOne_sel:
  "writeOne d w r = (ok, r') \<Longrightarrow> rs_sessions r' = rs_sessions r \<and>
     rs_controllerPubKey r' = rs_controllerPubKey r"
  by (auto simp: writeOne_def split: prod.splits)

lemma step_start_inv:
  assumes inv: "threads_inv P st" and pc: "th_pc st c = HStart"
  shows "threads_inv P (step_start P now c st)"
proof (cases "authenticate P now (rs_controllerPubKey (th_server st)) c (cn_in (rs_conns (th_server st) c))")
  case (Inl e)
  have out: "outputs_ok P (step_start P now c st)"
    using pc Inl
    by (intro outputs_ok_greeting [OF inv, of c _
        "HFailing (writeFrame (control_header FrameAuthFail) [])" "(control_header FrameAuthFail, [])"])
      (simp_all add: step_start_def Let_def enc_frame_def)
  with Inl pc show ?thesis
    by (intro threads_inv_step_same_locks [OF inv, of _ c "HFailing (writeFrame (control_header FrameAuthFail) [])"])
      (simp_all add: step_start_def Let_def)
next
  case (Inr p)
  obtain s rest where p: "p = (s, rest)" by (cases p)
  have s: "se_conn s = c" "verified_source P (rs_controllerPubKey (th_server st)) (se_Addr s)"
    using Inr p by (auto simp: authenticate_def verified_source_def same_endpoint_def
        split: sum.splits if_splits) blast
  have out: "outputs_ok P (step_start P now c st)"
    using pc Inr p
    by (intro outputs_ok_greeting [OF inv, of c _
        "HGreeting s (writeFrame (control_header FrameAuthOK) [])" "(control_header FrameAuthOK, [])"])
      (simp_all add: step_start_def Let_def enc_frame_def)
  with Inr p pc s show ?thesis
    by (intro threads_inv_step_same_locks [OF inv, of _ c "HGreeting s (writeFrame (control_header FrameAuthOK) [])"])
      (simp_all add: step_start_def Let_def session_ok_def)
qed

lemma step_read_inv:
  assumes inv: "threads_inv P st" and pc: "th_pc st c = HReading s"
  shows "threads_inv P (step_read c s st)"
proof -
  have s: "session_ok P st c s" using threads_invD(1) [OF inv, of c] pc by simp
  show ?thesis
  proof (cases "readFrame (cn_in (rs_conns (th_server st) c))")
    case (Inl e)
    then have "outputs_ok P (step_read c s st)"
      using pc
      by (intro outputs_ok_quiet [OF threads_invD(4) [OF inv], of _ c "HReturning s"])
        (simp_all add: step_read_def Let_def quiet_def)
    with Inl pc s show ?thesis
      by (intro threads_inv_step_same_locks [OF inv, of _ c "HReturning s"])
        (simp_all add: step_read_def Let_def session_ok_def)
  next
    case (Inr p)
    then obtain hdr payload rest where
      read: "readFrame (cn_in (rs_conns (th_server st) c)) = Inr (hdr, payload, rest)"
      by (cases p) auto
    then have len: "length payload \<le> MaxRelayPayload"
      using readFrame_Inr [OF read] by (simp add: valid_frame_def)
    let ?h = "if hdr_Type hdr = FramePing
             then HLocking s s Pong (writeFrame (pong_header payload) payload)
             else if hdr_Type hdr = FrameData then HRouting s hdr payload
             else HReading s"
    have "outputs_ok P (step_read c s st)"
      using pc read
      by (intro outputs_ok_quiet [OF threads_invD(4) [OF inv], of _ c ?h])
        (simp_all add: step_read_def Let_def quiet_def)
    moreover have "\<not> early ?h" "holds ?h = None" by simp_all
    moreover have "pc_ok P (step_read c s st) c ?h"
      using read pc s len
      by (auto simp: step_read_def Let_def session_ok_def intro!: writeFrame_whole)
    ultimately show ?thesis
      using read pc
      by (intro threads_inv_step_same_locks [OF inv, of _ c ?h])
        (simp_all add: step_read_def Let_def del: pc_ok.simps early.simps)
  qed
qed

lemma step_route_inv:
  assumes inv: "threads_inv P st" and pc: "th_pc st c = HRouting s hdr payload"
  shows "threads_inv P (step_route c s hdr payload st)"
proof -
  have s: "session_ok P st c s" "length payload \<le> MaxRelayPayload"
    using threads_invD(1) [OF inv, of c] pc by simp_all
  show ?thesis
  proof (cases "getSession (AddrKey (dst_of_header hdr)) (th_server st)")
    case None
    then have "outputs_ok P (step_route c s hdr payload st)"
      using pc
      by (intro outputs_ok_quiet [OF threads_invD(4) [OF inv], of _ c
            "HReplying s (writeFrame (noRoute_header hdr) [])"])
        (auto simp: step_route_def quiet_def split: if_splits)
    with None pc s show ?thesis
      by (intro threads_inv_step_same_locks [OF inv, of _ c
            "HReplying s (writeFrame (noRoute_header hdr) [])"])
        (simp_all add: step_route_def session_ok_def)
  next
    case (Some t)
    let ?h = "HLocking s t Forward (writeFrame (data_header (se_Addr s) payload) payload)"
    have "outputs_ok P (step_route c s hdr payload st)"
      using pc Some
      by (intro outputs_ok_quiet [OF threads_invD(4) [OF inv], of _ c ?h])
        (simp_all add: step_route_def quiet_def)
    moreover have "\<not> early (th_pc st (se_conn t))"
      using threads_invD(3) [OF inv] Some by (simp add: mapped_ok_def getSession_def)
    ultimately show ?thesis
      using Some pc s
      by (intro threads_inv_step_same_locks [OF inv, of _ c ?h])
        (auto simp: step_route_def session_ok_def intro!: writeFrame_whole)
  qed
qed

text \<open>Steps that write without a lock.\<close>

lemma step_own_write_inv:
  assumes inv: "threads_inv P st" and early: "early (th_pc st c)"
    and own: "own_rest (th_pc st c) = w @ rest"
    and w: "writeOne c w (th_server st) = (ok, r)"
    and h': "early h'" "own_rest h' = (if ok then rest else [])"
    and ok: "pc_ok P (goto c h' (st\<lparr>th_server := r\<rparr>)) c h'"
  shows "threads_inv P (goto c h' (st\<lparr>th_server := r\<rparr>))"
proof -
  have unlocked: "holds h = None \<and> locked_rest h = []" if "early h" for h
    using that by (cases h) auto
  have "outputs_ok P (goto c h' (st\<lparr>th_server := r\<rparr>))"
  proof (rule outputs_ok_write [OF threads_invD(4) [OF inv] w])
    show "pending st c = w @ rest" using pending_early [OF inv early] own by simp
    show "pending (goto c h' (st\<lparr>th_server := r\<rparr>)) c = (if ok then rest else [])"
      using early_no_lock [OF inv early] h'(2) by (simp add: pending_def)
    show "pending (goto c h' (st\<lparr>th_server := r\<rparr>)) e = pending st e" if "e \<noteq> c" for e
      by (rule pending_other [of _ st c h' e]) (simp_all add: that unlocked [OF early] unlocked [OF h'(1)])
  qed simp_all
  with writeOne_sel [OF w] ok early unlocked [OF early] unlocked [OF h'(1)] show ?thesis
    by (intro threads_inv_step_same_locks [OF inv, of _ c h']) simp_all
qed

lemma step_reply_inv:
  assumes inv: "threads_inv P st" and pc: "th_pc st c = HReplying s (w # ws)"
    and w: "writeOne c w (th_server st) = (ok, r)"
  shows "threads_inv P (goto c (HReplying s ws') (st\<lparr>th_server := r\<rparr>))"
proof -
  have s: "session_ok P st c s" "th_noroute st c"
    using threads_invD(1) [OF inv, of c] pc by simp_all
  have r: "rs_conns r d = rs_conns (th_server st) d" if "d \<noteq> c" for d
    using w that by (auto simp: writeOne_def split: prod.splits)
  have "outputs_ok P (goto c (HReplying s ws') (st\<lparr>th_server := r\<rparr>))"
  proof (rule outputs_ok_quiet [OF threads_invD(4) [OF inv], of _ c "HReplying s ws'"])
    fix d
    assume "\<not> th_noroute (goto c (HReplying s ws') (st\<lparr>th_server := r\<rparr>)) d"
    with s(2) have "\<not> th_noroute st d" "d \<noteq> c" by auto
    with r show "\<not> th_noroute st d \<and>
        cn_out (rs_conns (th_server (goto c (HReplying s ws') (st\<lparr>th_server := r\<rparr>))) d) =
          cn_out (rs_conns (th_server st) d) \<and>
        (cn_quota (rs_conns (th_server st) d) = Some 0 \<longrightarrow>
         cn_quota (rs_conns (th_server (goto c (HReplying s ws') (st\<lparr>th_server := r\<rparr>))) d) = Some 0)"
      by simp
  qed (use pc writeOne_sel [OF w] in \<open>simp_all add: quiet_def\<close>)
  with pc s writeOne_sel [OF w] show ?thesis
    by (intro threads_inv_step_same_locks [OF inv, of _ c "HReplying s ws'"])
      (simp_all add: session_ok_def)
qed

text \<open>Steps under a lock.\<close>

lemma step_lock_inv:
  assumes inv: "threads_inv P st" and pc: "th_pc st c = HLocking s t j ws"
    and free: "th_lock st (se_conn t) = None"
  shows "threads_inv P (goto c (HWriting s t j ws) (st\<lparr>th_lock := (th_lock st)(se_conn t := Some c)\<rparr>))"
    (is "threads_inv P ?st")
proof -
  have ok: "session_ok P st c s" "\<not> early (th_pc st (se_conn t))" "whole_frame P st ws"
    using threads_invD(1) [OF inv, of c] pc by simp_all
  then obtain f where f: "frame_ok P (rs_controllerPubKey (th_server st)) f" "concat ws = enc_frame f"
    by (auto simp: whole_frame_def)
  have own: "own_rest (th_pc st (se_conn t)) = []" using ok(2) by (cases "th_pc st (se_conn t)") simp_all
  have "outputs_ok P ?st"
    unfolding outputs_ok_def
  proof (intro allI impI)
    fix d
    assume "\<not> th_noroute ?st d"
    then have old: "lines_ok P (rs_controllerPubKey (th_server st)) (rs_conns (th_server st) d) (pending st d)"
      by (intro outputs_okD [OF threads_invD(4) [OF inv]]) simp
    show "lines_ok P (rs_controllerPubKey (th_server ?st)) (rs_conns (th_server ?st) d) (pending ?st d)"
    proof (cases "d = se_conn t")
      case True
      have "pending st d = []" using own free by (simp add: pending_def True)
      with lines_ok_begin [OF _ f(1)] old
      have "lines_ok P (rs_controllerPubKey (th_server st)) (rs_conns (th_server st) d) (enc_frame f)" by simp
      moreover have "pending ?st d = enc_frame f"
        using own pc by (auto simp: pending_def True f(2))
      ultimately show ?thesis by simp
    next
      case False
      have "th_lock st d \<noteq> Some c" using locks_okD [OF threads_invD(2) [OF inv], of d c] pc by simp
      then have "pending ?st d = pending st d"
        using False pc by (auto simp: pending_def split: option.split)
      with old show ?thesis by simp
    qed
  qed
  with pc ok free show ?thesis
    by (intro threads_inv_step [OF inv, of _ c "HWriting s t j ws"])
      (auto simp: session_ok_def split: if_splits)
qed

lemma step_unlock_inv:
  assumes inv: "threads_inv P st" and pc: "holds (th_pc st c) = Some (se_conn t)"
    and rest: "locked_rest (th_pc st c) = []"
    and h': "quiet h'" "holds h' = None" "\<not> early h'" "pc_ok P st c h'"
  shows "threads_inv P (goto c h' (st\<lparr>th_lock := (th_lock st)(se_conn t := None)\<rparr>))"
    (is "threads_inv P ?st")
proof -
  have lock: "th_lock st d = Some c \<longleftrightarrow> d = se_conn t" for d
    using locks_okD [OF threads_invD(2) [OF inv], of d c] pc by auto
  have own: "own_rest (th_pc st c) = []" "\<not> early (th_pc st c)" using pc by (cases "th_pc st c"; simp)+
  have "pending ?st d = pending st d" for d
    using lock [of d] own rest h'(1) lock [of "se_conn t"]
    by (auto simp: pending_def quiet_def split: option.split)
  with threads_invD(4) [OF inv] have "outputs_ok P ?st" by (simp add: outputs_ok_def)
  moreover have "pc_ok P ?st c h'" using h' own by (intro pc_ok_mono [OF _ _ _ h'(4)]) (auto split: if_splits)
  ultimately show ?thesis
    using pc h' own by (intro threads_inv_step [OF inv, of _ c h']) (auto split: if_splits)
qed

lemma step_locked_write_inv:
  assumes inv: "threads_inv P st" and pc: "th_pc st c = HWriting s t j (w # ws)"
    and w: "writeOne (se_conn t) w (th_server st) = (ok, r)"
  shows "threads_inv P (goto c (if ok then HWriting s t j ws else HFailed s t j) (st\<lparr>th_server := r\<rparr>))"
    (is "threads_inv P ?st")
proof -
  let ?h = "if ok then HWriting s t j ws else HFailed s t j"
  have s: "session_ok P st c s" "\<not> early (th_pc st (se_conn t))"
    using threads_invD(1) [OF inv, of c] pc by simp_all
  have lock: "th_lock st d = Some c \<longleftrightarrow> d = se_conn t" for d
    using locks_okD [OF threads_invD(2) [OF inv], of d c] pc by auto
  have own: "own_rest (th_pc st (se_conn t)) = []" using s(2) by (cases "th_pc st (se_conn t)") simp_all
  have h: "own_rest ?h = []" "locked_rest ?h = (if ok then concat ws else [])"
    "holds ?h = Some (se_conn t)" "\<not> early ?h" by simp_all
  have "outputs_ok P ?st"
  proof (rule outputs_ok_write [OF threads_invD(4) [OF inv] w])
    show "pending st (se_conn t) = w @ concat ws"
      using own lock [of "se_conn t"] pc by (simp add: pending_def)
    show "pending ?st (se_conn t) = (if ok then concat ws else [])"
      using own lock [of "se_conn t"] h(1,2) by (simp add: pending_def)
    show "pending ?st e = pending st e" if "e \<noteq> se_conn t" for e
      using that lock [of e] h(1) pc by (auto simp: pending_def split: option.split)
  qed simp_all
  moreover have "pc_ok P ?st c ?h" using s h(4) writeOne_sel [OF w] by (auto simp: session_ok_def)
  ultimately show ?thesis
    using pc s writeOne_sel [OF w] h(3,4)
    by (intro threads_inv_step_same_locks [OF inv, of _ c ?h]) (simp_all del: pc_ok.simps)
qed

text \<open>Steps on the session map, and the ends of the frames written without a lock.\<close>

lemma step_quiet_inv:
  assumes inv: "threads_inv P st" and quiet: "quiet (th_pc st c)" "quiet h'"
    and holds: "holds (th_pc st c) = None" "holds h' = None"
    and early: "early h' \<Longrightarrow> early (th_pc st c)" and ok: "pc_ok P st c h'"
    and st': "st' = goto c h' (st\<lparr>th_server := r\<rparr>)"
    and r: "rs_controllerPubKey r = rs_controllerPubKey (th_server st)"
      "\<And>d. cn_out (rs_conns r d) = cn_out (rs_conns (th_server st) d)"
      "\<And>d. cn_quota (rs_conns (th_server st) d) = Some 0 \<Longrightarrow> cn_quota (rs_conns r d) = Some 0"
      "\<And>k s. gm_get (rs_sessions r) k = Some s \<Longrightarrow>
         gm_get (rs_sessions (th_server st)) k = Some s \<or> se_conn s = c \<and> \<not> early h'"
  shows "threads_inv P st'"
proof -
  have "outputs_ok P st'"
    using r(1-3) by (intro outputs_ok_quiet [OF threads_invD(4) [OF inv] _ quiet]) (simp_all add: st')
  moreover have "pc_ok P st' c h'"
    using early by (intro pc_ok_mono [OF _ _ _ ok]) (auto simp: st' r(1) split: if_splits)
  ultimately show ?thesis
    using holds early r(1,4)
    by (intro threads_inv_step_same_locks [OF inv, of st' c h']) (simp_all add: st')
qed

lemma handler_step_inv:
  assumes inv: "threads_inv P st" and free: "lock_free (th_pc st c) st"
  shows "threads_inv P (handler_step P now c (th_pc st c) st)"
proof (cases "th_pc st c")
  case HStart
  with step_start_inv [OF inv] show ?thesis by simp
next
  case (HFailing ws)
  show ?thesis
  proof (cases ws)
    case Nil
    with HFailing show ?thesis
      by (intro step_quiet_inv [OF inv, of c HClosing _ "th_server st"]) (simp_all add: quiet_def)
  next
    case (Cons w vs)
    obtain ok r where w: "writeOne c w (th_server st) = (ok, r)" by (cases "writeOne c w (th_server st)")
    with step_own_write_inv [OF inv, of c w "concat vs" ok r "HFailing (if ok then vs else [])"]
      HFailing Cons show ?thesis by simp
  qed
next
  case (HGreeting s ws)
  then have s: "session_ok P st c s" using threads_invD(1) [OF inv, of c] by simp
  show ?thesis
  proof (cases ws)
    case Nil
    with HGreeting s show ?thesis
      by (intro step_quiet_inv [OF inv, of c "HReading s" _ "addSession s (th_server st)"])
        (auto simp: quiet_def addSession_def session_ok_def split: if_splits)
  next
    case (Cons w vs)
    obtain ok r where w: "writeOne c w (th_server st) = (ok, r)" by (cases "writeOne c w (th_server st)")
    with step_own_write_inv [OF inv, of c w "concat vs" ok r "HGreeting s (if ok then vs else [])"]
      HGreeting Cons s writeOne_sel [OF w] show ?thesis by (simp add: session_ok_def)
  qed
next
  case (HReading s)
  with step_read_inv [OF inv] show ?thesis by simp
next
  case (HRouting s hdr payload)
  with step_route_inv [OF inv] show ?thesis by simp
next
  case (HLocking s t j ws)
  with step_lock_inv [OF inv HLocking] free show ?thesis by simp
next
  case (HWriting s t j ws)
  show ?thesis
  proof (cases ws)
    case Nil
    have "session_ok P st c s" using threads_invD(1) [OF inv, of c] HWriting by simp
    with HWriting Nil show ?thesis
      using step_unlock_inv [OF inv, of c t "HReading s"] by (simp add: quiet_def)
  next
    case (Cons w vs)
    obtain ok r where w: "writeOne (se_conn t) w (th_server st) = (ok, r)"
      by (cases "writeOne (se_conn t) w (th_server st)")
    with step_locked_write_inv [OF inv HWriting [unfolded Cons] w] HWriting Cons show ?thesis by simp
  qed
next
  case (HFailed s t j)
  then have "session_ok P st c s" using threads_invD(1) [OF inv, of c] by simp
  with HFailed show ?thesis
    using step_unlock_inv [OF inv, of c t "after_failure s t j"]
    by (cases j) (simp_all add: quiet_def after_failure_def)
next
  case (HDropping s t)
  then have "session_ok P st c s" using threads_invD(1) [OF inv, of c] by simp
  with HDropping show ?thesis
    by (intro step_quiet_inv [OF inv, of c "HReading s" _ "removeSession t (th_server st)"])
      (auto simp: quiet_def dest: removeSession_sub)
next
  case (HReplying s ws)
  then have s: "session_ok P st c s" using threads_invD(1) [OF inv, of c] by simp
  show ?thesis
  proof (cases ws)
    case Nil
    with HReplying s show ?thesis
      by (intro step_quiet_inv [OF inv, of c "HReading s" _ "th_server st"]) (simp_all add: quiet_def)
  next
    case (Cons w vs)
    obtain ok r where w: "writeOne c w (th_server st) = (ok, r)" by (cases "writeOne c w (th_server st)")
    with step_reply_inv [OF inv HReplying [unfolded Cons] w] HReplying Cons show ?thesis by simp
  qed
next
  case (HReturning s)
  then show ?thesis
    by (intro step_quiet_inv [OF inv, of c HClosing _ "removeSession s (th_server st)"])
      (auto simp: quiet_def dest: removeSession_sub)
next
  case HClosing
  then show ?thesis
    by (intro step_quiet_inv [OF inv, of c HDone _ "closeConn c (th_server st)"])
      (simp_all add: quiet_def closeConn_def)
next
  case HDone
  with inv show ?thesis by simp
qed

lemma fails_inv:
  assumes inv: "threads_inv P st"
    and same: "th_pc st' = th_pc st" "th_lock st' = th_lock st" "th_noroute st' = th_noroute st"
    and server: "rs_controllerPubKey (th_server st') = rs_controllerPubKey (th_server st)"
      "rs_sessions (th_server st') = rs_sessions (th_server st)"
    and conns: "\<And>d. cn_out (rs_conns (th_server st') d) = cn_out (rs_conns (th_server st) d)"
      "\<And>d. cn_quota (rs_conns (th_server st) d) = Some 0 \<Longrightarrow> cn_quota (rs_conns (th_server st') d) = Some 0"
  shows "threads_inv P st'"
proof -
  have "pending st' d = pending st d" for d
    by (simp add: pending_def same split: option.split)
  then have "outputs_ok P st'"
    using lines_ok_less [OF outputs_okD [OF threads_invD(4) [OF inv]] conns]
    by (simp add: outputs_ok_def same(3) server(1))
  moreover have "pc_ok P st' d (th_pc st' d)" for d
    using threads_invD(1) [OF inv, of d] unfolding same(1)
    by (rule pc_ok_mono [rotated -1]) (simp_all only: same server)
  ultimately show ?thesis
    using threads_invD(2,3) [OF inv] by (simp add: threads_inv_def locks_ok_def mapped_ok_def same server)
qed

lemma thread_exec_inv:
  assumes inv: "threads_inv P st" and ready: "thread_ready x st"
  shows "threads_inv P (thread_exec P x st)"
proof (cases x)
  case (Thread now c)
  with handler_step_inv [OF inv] ready show ?thesis by simp
next
  case (Fails c n)
  then show ?thesis by (intro fails_inv [OF inv]) (auto split: option.split)
qed

interpretation relay_threads: guarded_system thread_ready "thread_exec P" "threads_inv P" for P
  by unfold_locales (rule thread_exec_inv)

lemma threads_inv_init:
  "threads_inv P (start_threads key (\<lambda>c. new_conn (streams c)))"
  by (auto simp: threads_inv_def start_threads_def locks_ok_def mapped_ok_def outputs_ok_def
      pending_def lines_ok_def NewRelayServer_def new_conn_def intro!: exI [of _ "[]"])

lemma thread_exec_key:
  "rs_controllerPubKey (th_server (thread_exec P x st)) = rs_controllerPubKey (th_server st)"
proof (cases x)
  case (Thread now c)
  show ?thesis
    unfolding Thread thread_exec.simps
    by (cases "(P, now, c, th_pc st c, st)" rule: handler_step.cases)
      (auto simp: step_start_def step_read_def step_route_def Let_def addSession_def closeConn_def
        dest: writeOne_sel split: prod.splits sum.splits option.splits)
qed simp

lemma threads_key:
  "rs_controllerPubKey (th_server (run_ops (thread_exec P) xs st)) = rs_controllerPubKey (th_server st)"
  by (induction xs arbitrary: st) (simp_all add: thread_exec_key del: thread_exec.simps)

end
