(* ===== verification/Relay_Threads_Props.thy ===== *)
theory Relay_Threads_Props
  imports Relay_Threads
begin

text \<open>
  What interleaving does to the relay: the frames on a connection stay whole as long as its
  handler has not begun a no-route reply; such a reply can cut a forwarded frame in two; and a
  handler that is not interrupted does what the atomic steps \<open>handle_auth\<close> and \<open>handle_frame\<close> of
  \<open>Relay\<close> say (\<open>auth_alone\<close>, \<open>frame_alone\<close>).
\<close>

section \<open>Whole frames\<close>

lemma whole_and_part:
  assumes "list_all ok fs" "prefix x (concat (map enc_frame fs))"
  shows "\<exists>gs part. list_all ok gs \<and> x = concat (map enc_frame gs) @ part \<and>
    (part = [] \<or> (\<exists>f more. ok f \<and> more \<noteq> [] \<and> enc_frame f = part @ more))"
  using assms
proof (induction fs arbitrary: x)
  case Nil
  then show ?case by (intro exI [of _ "[]"]) simp
next
  case (Cons f fs)
  from Cons.prems(2) consider "prefix x (enc_frame f)" "x \<noteq> enc_frame f"
    | us where "x = enc_frame f @ us" "prefix us (concat (map enc_frame fs))"
    by (fastforce simp: prefix_append)
  then show ?case
  proof cases
    case 1
    then obtain more where "enc_frame f = x @ more" "more \<noteq> []" by (auto elim: prefixE)
    with Cons.prems(1) show ?thesis
      by (intro exI [of _ "[]"] exI [of _ x] conjI disjI2 exI [of _ f] exI [of _ more]) simp_all
  next
    case 2
    from Cons.prems(1) have "list_all ok fs" by simp
    from Cons.IH [OF this 2(2)] obtain gs part
      where "list_all ok gs" "us = concat (map enc_frame gs) @ part"
        "part = [] \<or> (\<exists>f more. ok f \<and> more \<noteq> [] \<and> enc_frame f = part @ more)" by blast
    with 2 Cons.prems(1) show ?thesis by (intro exI [of _ "f # gs"] exI [of _ part]) simp
  qed
qed

text \<open>C12. What an endpoint receives, however the handlers interleave: on a connection whose handler has
  never begun a no-route reply, the bytes written are whole frames, which the reader gets back one
  by one, followed by at most the beginning of one more; by nothing if the handler is past its
  greeting, nobody holds the session's lock and writes to the connection still succeed. Every data
  frame among them carries as its source an address for which a token verified under the relay's
  key was presented. (With a no-route reply this is lost, see \<open>noroute_cuts_frame\<close>.)\<close>
theorem relay_frames_whole:
  assumes "legal_ops thread_ready (thread_exec P) xs (start_threads key (\<lambda>c. new_conn (streams c)))"
    and "st = run_ops (thread_exec P) xs (start_threads key (\<lambda>c. new_conn (streams c)))"
    and "\<not> th_noroute st c"
  shows "\<exists>fs part.
    decode_many dec_frame (length fs) (concat (cn_out (rs_conns (th_server st) c))) = Some (fs, part) \<and>
    list_all (frame_ok P key) fs \<and>
    (part = [] \<or> (\<exists>f more. frame_ok P key f \<and> more \<noteq> [] \<and> enc_frame f = part @ more)) \<and>
    (\<not> early (th_pc st c) \<longrightarrow> th_lock st c = None \<longrightarrow>
     cn_quota (rs_conns (th_server st) c) \<noteq> Some 0 \<longrightarrow> part = [])"
proof -
  let ?cn = "rs_conns (th_server st) c"
  have inv: "threads_inv P st"
    unfolding assms(2) by (rule relay_threads.run_inv [OF threads_inv_init assms(1)])
  have key: "rs_controllerPubKey (th_server st) = key"
    by (simp add: assms(2) threads_key) (simp add: start_threads_def NewRelayServer_def)
  from outputs_okD [OF threads_invD(4) [OF inv] assms(3)] obtain fs where
    fs: "list_all (frame_ok P key) fs"
    and out: "concat (cn_out ?cn) @ pending st c = concat (map enc_frame fs) \<or>
      cn_quota ?cn = Some 0 \<and> prefix (concat (cn_out ?cn)) (concat (map enc_frame fs))"
    by (auto simp: lines_ok_def key)
  have decode: "decode_many dec_frame (length gs) (concat (map enc_frame gs) @ part) = Some (gs, part)"
    if "list_all (frame_ok P key) gs" for gs part
    using that by (intro relay_codec.decode_concat) (auto simp: list_all_iff frame_ok_def)
  show ?thesis
  proof (cases "concat (cn_out ?cn) = concat (map enc_frame fs)")
    case True
    with decode [OF fs, of "[]"] fs show ?thesis by (intro exI [of _ fs] exI [of _ "[]"]) simp
  next
    case False
    from out have "prefix (concat (cn_out ?cn)) (concat (map enc_frame fs))" by (metis prefixI)
    from whole_and_part [OF fs this] obtain gs part where gs: "list_all (frame_ok P key) gs"
      "concat (cn_out ?cn) = concat (map enc_frame gs) @ part"
      "part = [] \<or> (\<exists>f more. frame_ok P key f \<and> more \<noteq> [] \<and> enc_frame f = part @ more)" by blast
    have "own_rest (th_pc st c) = []" if "\<not> early (th_pc st c)"
      using that by (cases "th_pc st c") simp_all
    then have "cn_quota ?cn = Some 0" if "\<not> early (th_pc st c)" "th_lock st c = None"
      using that out False by (simp add: pending_def)
    with gs decode [OF gs(1), of part] show ?thesis by (intro exI [of _ gs] exI [of _ part]) auto
  qed
qed

text \<open>The sample: both endpoints are greeted, and the handler of the client is between the two
  \<open>Write\<close> calls of the frame it forwards to the agent.\<close>

definition s_threads :: threads where
  "s_threads = start_threads (replicate 32 1) (\<lambda>c. new_conn (s_streams c))"

definition s_interleaved :: "thread_op list" where
  "s_interleaved = [Thread 10 0, Thread 10 1, Thread 10 1, Thread 10 0, Thread 10 1, Thread 10 0,
     Thread 11 0, Thread 11 0, Thread 11 0, Thread 11 0]"

lemma s_data_read:
  "readFrame (concat (WriteDataFrame s_agent_addr [7, 8, 9])) =
     Inr (data_header s_agent_addr [7, 8, 9], [7, 8, 9], [])"
  using data_frame_read [of "[7, 8, 9]" s_agent_addr "[]"] by simp

lemmas thread_eval = step_start_def step_read_def step_route_def goto_def writeOne_def
  writeFrame_def addSession_def set_conn_def getSession_def gm_get_def gm_put_def Let_def

lemma s_interleaved_run:
  "legal_ops thread_ready (thread_exec s_P) s_interleaved s_threads"
  "th_pc (run_ops (thread_exec s_P) s_interleaved s_threads) 0 =
     HWriting (s_session 0 s_client_claims) (s_session 1 s_agent_claims) Forward [[7, 8, 9]]"
  "cn_out (rs_conns (th_server (run_ops (thread_exec s_P) s_interleaved s_threads)) 1) =
     [header_bytes (control_header FrameAuthOK), header_bytes (data_header s_client_addr [7, 8, 9])]"
  "\<not> th_noroute (run_ops (thread_exec s_P) s_interleaved s_threads) 1"
  using s_authenticate s_data_read
  by (simp_all add: s_interleaved_def s_threads_def start_threads_def NewRelayServer_def new_conn_def
      thread_eval s_addr_of_claims data_header_def dst_of_header_def AddrKey_eq_iff same_endpoint_def)

theorem relay_frames_whole_witness:
  "\<exists>fs part. decode_many dec_frame (length fs)
      (header_bytes (control_header FrameAuthOK) @ header_bytes (data_header s_client_addr [7, 8, 9])) =
      Some (fs, part) \<and> list_all (frame_ok s_P (replicate 32 1)) fs"
proof -
  note whole = relay_frames_whole [OF s_interleaved_run(1) [unfolded s_threads_def]]
  from whole [OF refl s_interleaved_run(4) [unfolded s_threads_def]] s_interleaved_run(3)
  show ?thesis by (auto simp: s_threads_def)
qed

section \<open>The reply without a lock\<close>

text \<open>The steps of two handlers: \<open>a\<close> forwards a data frame to the session on connection \<open>c\<close> and has
  written the header; \<open>c\<close> meanwhile reads a frame for an address that is not connected and writes
  the no-route reply; \<open>a\<close> writes the payload.\<close>

definition cut_schedule :: "time \<Rightarrow> nat \<Rightarrow> nat \<Rightarrow> thread_op list" where
  "cut_schedule now a c =
     [Thread now a, Thread now a, Thread now a, Thread now a,
      Thread now c, Thread now c, Thread now c, Thread now c,
      Thread now a, Thread now a]"

lemma noroute_garbles:
  assumes "0 < length payload" "length payload \<le> MaxRelayPayload" "hd payload \<noteq> FrameNoRoute"
  shows "\<exists>garbled rest. readFrame (header_bytes (data_header src payload) @
      header_bytes (noRoute_header orig) @ payload) = Inr (data_header src payload, garbled, rest) \<and>
    garbled \<noteq> payload"
proof -
  let ?h = "header_bytes (data_header src payload)" and ?n = "header_bytes (noRoute_header orig)"
  have "readFrame (?h @ ?n @ payload) =
      Inr (data_header src payload, take (length payload) (?n @ payload), drop (length payload) (?n @ payload))"
    using assms(2) unat_u32_length [OF assms(2)] by (simp add: readFrame_header) (simp add: data_header_def)
  moreover have "hd (take (length payload) (?n @ payload)) = FrameNoRoute"
    using assms(1) by (cases payload) (simp_all add: header_bytes_def noRoute_header_def)
  then have "take (length payload) (?n @ payload) \<noteq> payload" using assms(3) by auto
  ultimately show ?thesis by blast
qed

text \<open>C17. Concurrent writers (a defect): \<open>HandleConn\<close> sends the no-route reply to its own connection
  without taking the session's lock. Whenever one handler is about to forward a data frame to a
  connection whose own handler is about to read a frame for an address that is not connected, the
  two can run so that the reply lands between the header and the payload of the forwarded frame:
  the reader gets that frame with a wrong payload, and both handlers go on as if nothing happened.\<close>
theorem noroute_cuts_frame:
  assumes "th_pc st a = HReading sa" "th_pc st c = HReading sc" "a \<noteq> c" "th_lock st c = None"
    and "cn_in (rs_conns (th_server st) a) = concat (WriteDataFrame dst payload) @ ra"
    and "0 < length payload" "length payload \<le> MaxRelayPayload" "hd payload \<noteq> FrameNoRoute"
    and "getSession (AddrKey dst) (th_server st) = Some t" "se_conn t = c"
    and "cn_in (rs_conns (th_server st) c) = concat (WriteDataFrame lost other) @ rc"
    and "length other \<le> MaxRelayPayload" "getSession (AddrKey lost) (th_server st) = None"
    and "cn_quota (rs_conns (th_server st) c) = None"
  shows "\<exists>xs st' frame.
    set xs \<subseteq> {Thread now a, Thread now c} \<and>
    legal_ops thread_ready (thread_exec P) xs st \<and> st' = run_ops (thread_exec P) xs st \<and>
    cn_out (rs_conns (th_server st') c) = cn_out (rs_conns (th_server st) c) @ frame \<and>
    (\<exists>garbled rest. readFrame (concat frame) = Inr (data_header (se_Addr sa) payload, garbled, rest) \<and>
       garbled \<noteq> payload) \<and>
    th_pc st' a = HReading sa \<and> th_pc st' c = HReading sc \<and> th_lock st' c = None \<and>
    rs_sessions (th_server st') = rs_sessions (th_server st)"
proof -
  let ?xs = "cut_schedule now a c"
  let ?h = "header_bytes (data_header (se_Addr sa) payload)"
    and ?n = "header_bytes (noRoute_header (data_header lost other))"
  have read: "readFrame (concat (WriteDataFrame dst payload) @ ra) = Inr (data_header dst payload, payload, ra)"
    "readFrame (concat (WriteDataFrame lost other) @ rc) = Inr (data_header lost other, other, rc)"
    using data_frame_read [of payload dst ra] data_frame_read [of other lost rc] assms(7,12) by simp_all
  have hdr: "hdr_Type (data_header x y) = FrameData"
    "AddrKey (dst_of_header (data_header x y)) = AddrKey x" for x y
    by (simp add: data_header_def) (rule AddrKey_cong; simp add: dst_of_header_def data_header_def)
  have ne: "payload \<noteq> []" using assms(6) by auto
  have legal: "legal_ops thread_ready (thread_exec P) ?xs st"
    using assms(1-5,9-11,13,14) ne read hdr
    by (simp add: cut_schedule_def step_read_def step_route_def Let_def goto_def getSession_def
        writeOne_def writeFrame_def)
  have run: "cn_out (rs_conns (th_server (run_ops (thread_exec P) ?xs st)) c) =
      cn_out (rs_conns (th_server st) c) @ [?h, ?n, payload]"
    "th_pc (run_ops (thread_exec P) ?xs st) a = HReading sa"
    "th_pc (run_ops (thread_exec P) ?xs st) c = HReading sc"
    "th_lock (run_ops (thread_exec P) ?xs st) c = None"
    "rs_sessions (th_server (run_ops (thread_exec P) ?xs st)) = rs_sessions (th_server st)"
    using assms(1-5,9-11,13,14) ne read hdr
    by (simp_all add: cut_schedule_def step_read_def step_route_def Let_def goto_def getSession_def
        writeOne_def writeFrame_def)
  have "set ?xs \<subseteq> {Thread now a, Thread now c}" by (simp add: cut_schedule_def)
  moreover have "concat [?h, ?n, payload] = ?h @ ?n @ payload" by simp
  ultimately show ?thesis
    using noroute_garbles [OF assms(6-8)] legal run by metis
qed

text \<open>The sample: the client is about to forward a frame to the agent, which is about to read a
  frame for an address that is not connected.\<close>

definition s_lost_addr :: EndpointAddr where
  "s_lost_addr = \<lparr>ea_Domain = 9, ea_Group = 9, ea_Endpoint = 9, ea_RoleFlags = 0\<rparr>"

definition s_cut_streams :: "nat \<Rightarrow> bytes" where
  "s_cut_streams c =
     (if c = 1 then concat (WriteAuthFrame (s_token 1)) @ concat (WriteDataFrame s_lost_addr [1])
      else s_streams c)"

definition s_greeted :: threads where
  "s_greeted = run_ops (thread_exec s_P)
     [Thread 10 0, Thread 10 0, Thread 10 0, Thread 10 1, Thread 10 1, Thread 10 1]
     (start_threads (replicate 32 1) (\<lambda>c. new_conn (s_cut_streams c)))"

lemma s_greeted_run:
  "th_pc s_greeted 0 = HReading (s_session 0 s_client_claims)"
  "th_pc s_greeted 1 = HReading (s_session 1 s_agent_claims)"
  "th_lock s_greeted 1 = None"
  "cn_in (rs_conns (th_server s_greeted) 0) = concat (WriteDataFrame s_agent_addr [7, 8, 9]) @ []"
  "getSession (AddrKey s_agent_addr) (th_server s_greeted) = Some (s_session 1 s_agent_claims)"
  "cn_in (rs_conns (th_server s_greeted) 1) = concat (WriteDataFrame s_lost_addr [1]) @ []"
  "getSession (AddrKey s_lost_addr) (th_server s_greeted) = None"
  "cn_quota (rs_conns (th_server s_greeted) 1) = None"
proof -
  have "authenticate s_P 10 (replicate 32 1) 1 (s_cut_streams 1) =
      Inr (s_session 1 s_agent_claims, concat (WriteDataFrame s_lost_addr [1]))"
    using authenticate_frame [of "s_token 1" s_P 10 "replicate 32 1" s_agent_claims 1
        "concat (WriteDataFrame s_lost_addr [1])"] s_token_short [of 1]
    by (simp add: s_cut_streams_def)
  moreover have "authenticate s_P 10 (replicate 32 1) 0 (s_cut_streams 0) =
      Inr (s_session 0 s_client_claims, concat (WriteDataFrame s_agent_addr [7, 8, 9]))"
    using s_authenticate(1) by (simp add: s_cut_streams_def)
  ultimately show
    "th_pc s_greeted 0 = HReading (s_session 0 s_client_claims)"
    "th_pc s_greeted 1 = HReading (s_session 1 s_agent_claims)"
    "th_lock s_greeted 1 = None"
    "cn_in (rs_conns (th_server s_greeted) 0) = concat (WriteDataFrame s_agent_addr [7, 8, 9]) @ []"
    "getSession (AddrKey s_agent_addr) (th_server s_greeted) = Some (s_session 1 s_agent_claims)"
    "cn_in (rs_conns (th_server s_greeted) 1) = concat (WriteDataFrame s_lost_addr [1]) @ []"
    "getSession (AddrKey s_lost_addr) (th_server s_greeted) = None"
    "cn_quota (rs_conns (th_server s_greeted) 1) = None"
    by (simp_all add: s_greeted_def start_threads_def NewRelayServer_def new_conn_def
        step_start_def goto_def writeOne_def writeFrame_def addSession_def set_conn_def
        getSession_def gm_get_def gm_put_def Let_def s_addr_of_claims s_lost_addr_def AddrKey_eq_iff
        same_endpoint_def s_agent_addr_def s_client_addr_def)
qed

theorem noroute_cuts_frame_witness:
  "\<exists>xs frame garbled rest. legal_ops thread_ready (thread_exec s_P) xs s_greeted \<and>
     cn_out (rs_conns (th_server (run_ops (thread_exec s_P) xs s_greeted)) 1) =
       cn_out (rs_conns (th_server s_greeted) 1) @ frame \<and>
     readFrame (concat frame) = Inr (data_header s_client_addr [7, 8, 9], garbled, rest) \<and>
     garbled \<noteq> [7, 8, 9]"
proof -
  have "length [7, 8, 9 :: byte] \<le> MaxRelayPayload" "length [1 :: byte] \<le> MaxRelayPayload"
    "0 < length [7, 8, 9 :: byte]" "hd [7, 8, 9 :: byte] \<noteq> FrameNoRoute" "(0 :: nat) \<noteq> 1"
    "se_conn (s_session 1 s_agent_claims) = 1" by simp_all
  note args = this
  from noroute_cuts_frame [OF s_greeted_run(1,2) args(5) s_greeted_run(3,4) args(3,1,4)
      s_greeted_run(5) args(6) s_greeted_run(6) args(2) s_greeted_run(7,8), of 11 s_P]
  show ?thesis by (auto simp: s_addr_of_claims)
qed

section \<open>A handler that is not interrupted\<close>

text \<open>\<open>alone P now c st st'\<close>: steps of handler \<open>c\<close> only, none of them blocked, lead from \<open>st\<close> to \<open>st'\<close>.\<close>

definition alone :: "prims \<Rightarrow> time \<Rightarrow> nat \<Rightarrow> threads \<Rightarrow> threads \<Rightarrow> bool" where
  "alone P now c st st' \<longleftrightarrow>
     (\<exists>n. legal_ops thread_ready (thread_exec P) (replicate n (Thread now c)) st \<and>
        st' = run_ops (thread_exec P) (replicate n (Thread now c)) st)"

lemma alone_refl: "alone P now c st st"
  unfolding alone_def by (rule exI [of _ 0]) simp

lemma alone_step:
  assumes "th_pc st c = h" "lock_free h st" "handler_step P now c h st = st1" "alone P now c st1 st'"
  shows "alone P now c st st'"
proof -
  from assms(4) obtain n where
    "legal_ops thread_ready (thread_exec P) (replicate n (Thread now c)) st1"
    "st' = run_ops (thread_exec P) (replicate n (Thread now c)) st1"
    by (auto simp: alone_def)
  with assms(1-3) show ?thesis unfolding alone_def by (intro exI [of _ "Suc n"]) simp
qed

lemma threads_same_server [simp]: "st\<lparr>th_server := th_server st\<rparr> = st"
  by (cases st) simp

lemma goto_normal [simp]:
  "goto c h (goto c h' st) = goto c h st"
  "(goto c h st)\<lparr>th_server := r\<rparr> = goto c h (st\<lparr>th_server := r\<rparr>)"
  "(goto c h st)\<lparr>th_lock := l\<rparr> = goto c h (st\<lparr>th_lock := l\<rparr>)"
  "(goto c h st)\<lparr>th_noroute := b\<rparr> = goto c h (st\<lparr>th_noroute := b\<rparr>)"
  by (simp_all add: goto_def)

lemma set_conn_same [simp]:
  "set_conn c (rs_conns r c) r = r" "set_conn c x (set_conn c y r) = set_conn c x r"
  by (simp_all add: set_conn_def)

text \<open>The writes of a frame, one by one, are \<open>conn_write\<close>.\<close>

lemma conn_write_step:
  "conn_write (w # ws) cn = (ok, cn') \<Longrightarrow>
     writeOne d w r = (cn_quota (rs_conns r d) \<noteq> Some 0,
       set_conn d (snd (conn_write [w] (rs_conns r d))) r) \<and>
     (if cn_quota cn = Some 0 then \<not> ok \<and> cn' = cn \<and> snd (conn_write [w] cn) = cn
      else conn_write ws (snd (conn_write [w] cn)) = (ok, cn'))"
  by (auto simp: writeOne_def split: option.splits nat.splits)

definition written :: "nat \<Rightarrow> bytes list \<Rightarrow> threads \<Rightarrow> threads" where
  "written d ws st = st\<lparr>th_server := set_conn d (snd (conn_write ws (rs_conns (th_server st) d))) (th_server st)\<rparr>"

lemma written_sel [simp]:
  "written d ws (goto c h st) = goto c h (written d ws st)"
  "th_pc (written d ws st) = th_pc st" "th_lock (written d ws st) = th_lock st"
  "th_server (written d ws st) =
     set_conn d (snd (conn_write ws (rs_conns (th_server st) d))) (th_server st)"
  by (simp_all add: written_def goto_def)

lemma alone_locked:
  assumes "th_pc st c = HWriting s t j ws" "d = se_conn t"
    and "ok = fst (conn_write ws (rs_conns (th_server st) d))"
    and "st1 = goto c (if ok then HReading s else after_failure s t j)
        ((written d ws st)\<lparr>th_lock := (th_lock st)(d := None)\<rparr>)"
    and "alone P now c st1 st'"
  shows "alone P now c st st'"
  using assms
proof (induction ws arbitrary: st)
  case Nil
  show ?case
    by (rule alone_step [OF Nil.prems(1)]) (use Nil.prems in \<open>simp_all add: written_def del: fun_upd_apply\<close>)
next
  case (Cons w ws)
  let ?cn = "rs_conns (th_server st) d"
  note w = conn_write_step [of w ws ?cn, OF prod.collapse [symmetric], of d "th_server st"]
  show ?case
  proof (cases "cn_quota ?cn = Some 0")
    case True
    have step: "handler_step P now c (HWriting s t j (w # ws)) st = goto c (HFailed s t j) st"
      using w True Cons.prems(2) by simp
    have "alone P now c (goto c (HFailed s t j) st) st'"
      by (rule alone_step [of _ c "HFailed s t j"])
        (use w True Cons.prems in \<open>simp_all add: written_def fun_upd_same del: fun_upd_apply\<close>)
    from alone_step [OF Cons.prems(1) _ step this] show ?thesis by simp
  next
    case False
    let ?st = "goto c (HWriting s t j ws) (written d [w] st)"
    have step: "handler_step P now c (HWriting s t j (w # ws)) st = ?st"
      using w False Cons.prems(2) by (simp add: written_def)
    have "alone P now c ?st st'"
      by (rule Cons.IH [OF _ Cons.prems(2)])
        (use w False Cons.prems in \<open>simp_all add: written_def fun_upd_same del: fun_upd_apply conn_write.simps\<close>)
    from alone_step [OF Cons.prems(1) _ step this] show ?thesis by simp
  qed
qed

text \<open>The same for a frame written without a lock, after which the handler is at \<open>K []\<close>.\<close>

lemma alone_unlocked:
  assumes "th_pc st c = K ws"
    and K: "\<And>ws st. lock_free (K ws) st"
      "\<And>w ws st. handler_step P now c (K (w # ws)) st =
         (case writeOne c w (th_server st) of
            (ok, r) \<Rightarrow> goto c (K (if ok then ws else [])) (st\<lparr>th_server := r\<rparr>))"
    and "alone P now c (goto c (K []) (written c ws st)) st'"
  shows "alone P now c st st'"
  using assms(1,4)
proof (induction ws arbitrary: st)
  case Nil
  then have "goto c (K []) (written c [] st) = st" by (cases st) (auto simp: goto_def written_def)
  with Nil show ?case by simp
next
  case (Cons w ws)
  let ?cn = "rs_conns (th_server st) c"
  note w = conn_write_step [of w ws ?cn, OF prod.collapse [symmetric], of c "th_server st"]
  let ?vs = "if cn_quota ?cn = Some 0 then [] else ws"
  have step: "handler_step P now c (K (w # ws)) st = goto c (K ?vs) (written c [w] st)"
    using w by (simp add: K(2) written_def)
  show ?case
  proof (rule alone_step [OF Cons.prems(1) K(1) step])
    show "alone P now c (goto c (K ?vs) (written c [w] st)) st'"
    proof (cases "cn_quota ?cn = Some 0")
      case True
      with w Cons.prems(2) show ?thesis by (simp add: written_def)
    next
      case False
      have "alone P now c (goto c (K ws) (written c [w] st)) st'"
        by (rule Cons.IH)
          (use w False Cons.prems(2) in \<open>simp_all add: written_def fun_upd_same del: fun_upd_apply conn_write.simps\<close>)
      with False show ?thesis by simp
    qed
  qed
qed

text \<open>With no lock held elsewhere, the steps of the handler of \<open>c\<close> up to its loop are
  \<open>handle_auth\<close>, and its steps from one frame to the next are \<open>handle_frame\<close>.\<close>

lemma auth_alone:
  assumes pc: "th_pc st c = HStart" and phase: "cn_phase (rs_conns (th_server st) c) = Accepted"
  shows "\<exists>st'. alone P now c st st' \<and> th_server st' = handle_auth P now c (th_server st) \<and>
    th_lock st' = th_lock st"
proof (cases "authenticate P now (rs_controllerPubKey (th_server st)) c (cn_in (rs_conns (th_server st) c))")
  case (Inl e)
  let ?ws = "writeFrame (control_header FrameAuthFail) []"
  let ?st1 = "goto c (HFailing ?ws) st"
  let ?st2 = "goto c (HFailing []) (written c ?ws st)"
  let ?st3 = "goto c HClosing (written c ?ws st)"
  let ?st4 = "goto c HDone ((written c ?ws st)\<lparr>th_server := closeConn c (th_server (written c ?ws st))\<rparr>)"
  have "alone P now c ?st3 ?st4"
    by (rule alone_step [of ?st3 c HClosing P now ?st4]) (simp_all add: alone_refl)
  then have "alone P now c ?st2 ?st4"
    by (intro alone_step [of ?st2 c "HFailing []" P now ?st3]) simp_all
  then have "alone P now c ?st1 ?st4"
    by (intro alone_unlocked [of ?st1 c HFailing ?ws]) (simp_all add: written_def)
  then have "alone P now c st ?st4"
    by (intro alone_step [of st c HStart P now ?st1]) (simp_all add: pc step_start_def Let_def Inl)
  moreover have "th_server ?st4 = handle_auth P now c (th_server st)"
    using Inl phase
    by (simp add: handle_auth_def writeControlFrame_def writeTo_def written_def split: prod.split)
  ultimately show ?thesis by (intro exI [of _ ?st4]) (simp add: written_def)
next
  case (Inr p)
  obtain s rest where p: "p = (s, rest)" by (cases p)
  let ?ws = "writeFrame (control_header FrameAuthOK) []"
  let ?st0 = "st\<lparr>th_server := set_conn c ((rs_conns (th_server st) c)\<lparr>cn_in := rest, cn_phase := Serving s\<rparr>) (th_server st)\<rparr>"
  let ?st1 = "goto c (HGreeting s ?ws) ?st0"
  let ?st2 = "goto c (HGreeting s []) (written c ?ws ?st0)"
  let ?st3 = "goto c (HReading s) ((written c ?ws ?st0)\<lparr>th_server := addSession s (th_server (written c ?ws ?st0))\<rparr>)"
  have "alone P now c ?st2 ?st3"
    by (rule alone_step [of ?st2 c "HGreeting s []" P now ?st3]) (simp_all add: alone_refl)
  then have "alone P now c ?st1 ?st3"
    by (intro alone_unlocked [of ?st1 c "HGreeting s" ?ws]) (simp_all add: written_def)
  then have "alone P now c st ?st3"
    by (intro alone_step [of st c HStart P now ?st1]) (simp_all add: pc step_start_def Let_def Inr p)
  moreover have "th_server ?st3 = handle_auth P now c (th_server st)"
    using Inr p phase
    by (simp add: handle_auth_def writeControlFrame_def writeTo_def written_def split: prod.split)
  ultimately show ?thesis by (intro exI [of _ ?st3]) (simp add: written_def)
qed

lemma alone_frame_locked:
  assumes pc: "th_pc st c = HLocking s t j ws" and free: "th_lock st = (\<lambda>d. None)"
    and ok: "ok = fst (conn_write ws (rs_conns (th_server st) (se_conn t)))"
    and last: "alone P now c (goto c (if ok then HReading s else after_failure s t j) (written (se_conn t) ws st)) st'"
  shows "alone P now c st st'"
proof -
  let ?st1 = "goto c (HWriting s t j ws) (st\<lparr>th_lock := (th_lock st)(se_conn t := Some c)\<rparr>)"
  have "(\<lambda>d. None)(se_conn t := None) = (\<lambda>d. None)" by auto
  then have same: "(written (se_conn t) ws ?st1)\<lparr>th_lock := (th_lock ?st1)(se_conn t := None)\<rparr> =
      goto c (HWriting s t j ws) (written (se_conn t) ws st)"
    using free by (cases st) (simp add: written_def goto_def)
  have "alone P now c ?st1 st'"
    by (rule alone_locked [of ?st1 c s t j ws, OF _ refl refl refl]) (use same ok last in \<open>simp_all del: fun_upd_apply add: fun_upd_same\<close>)
  then show ?thesis
    by (rule alone_step [OF pc, rotated -1]) (simp_all add: free)
qed

lemma return_alone:
  "alone P now c (goto c (HReturning s) x)
     (goto c HDone (x\<lparr>th_server := handle_return s c (th_server x)\<rparr>))"
proof -
  let ?y = "goto c HClosing (x\<lparr>th_server := removeSession s (th_server x)\<rparr>)"
    and ?z = "goto c HDone (x\<lparr>th_server := handle_return s c (th_server x)\<rparr>)"
  have "alone P now c ?y ?z"
    by (rule alone_step [of ?y c HClosing P now ?z]) (simp_all add: alone_refl handle_return_def)
  then show ?thesis by (rule alone_step [of _ c "HReturning s" P now ?y, rotated -1]) simp_all
qed

lemma ping_alone:
  assumes conn: "se_conn s = c" and free: "th_lock x = (\<lambda>d. None)"
  shows "\<exists>z. alone P now c (goto c (HLocking s s Pong (writeFrame (pong_header payload) payload)) x) z \<and>
    th_lock z = (\<lambda>d. None) \<and>
    th_server z = (case writeTo c (pong_header payload) payload (th_server x) of
       (False, r) \<Rightarrow> handle_return s c r | (True, r) \<Rightarrow> r)"
proof -
  let ?ws = "writeFrame (pong_header payload) payload"
  let ?w = "written c ?ws x"
  define ok where "ok = fst (conn_write ?ws (rs_conns (th_server x) c))"
  let ?z = "if ok then goto c (HReading s) ?w
    else goto c HDone (?w\<lparr>th_server := handle_return s c (th_server ?w)\<rparr>)"
  have last: "alone P now c (goto c (if ok then HReading s else HReturning s) ?w) ?z"
    using return_alone [of P now c s ?w] alone_refl by simp
  have "alone P now c (goto c (HLocking s s Pong ?ws) x) ?z"
    by (rule alone_frame_locked [of _ c s s Pong ?ws ok])
      (use last in \<open>cases ok; simp add: conn free after_failure_def flip: ok_def del: written_sel(4)\<close>)+
  then show ?thesis
    by (intro exI [of _ ?z]) (simp add: free writeTo_def ok_def split: prod.split)
qed

lemma route_alone:
  assumes free: "th_lock x = (\<lambda>d. None)"
  shows "\<exists>z. alone P now c (goto c (HRouting s hdr payload) x) z \<and> th_lock z = (\<lambda>d. None) \<and>
    th_server z = (case LocalRouter_Route s (dst_of_header hdr) hdr payload (th_server x) of
       (None, r) \<Rightarrow> r | (Some False, r) \<Rightarrow> writeNoRoute c hdr r | (Some True, r) \<Rightarrow> r)"
proof (cases "getSession (AddrKey (dst_of_header hdr)) (th_server x)")
  case None
  let ?y = "goto c (HRouting s hdr payload) x" and ?ws = "writeFrame (noRoute_header hdr) []"
  let ?x = "x\<lparr>th_noroute := (th_noroute x)(c := True)\<rparr>"
  let ?z = "goto c (HReading s) (written c ?ws ?x)"
  have last: "alone P now c (goto c (HReplying s []) (written c ?ws ?x)) ?z"
    by (rule alone_step [of _ c "HReplying s []" _ _ ?z]) (simp_all add: alone_refl del: written_sel(4))
  have "alone P now c (goto c (HReplying s ?ws) ?x) ?z"
    by (rule alone_unlocked [of _ c "HReplying s" ?ws]) (use last in \<open>simp_all del: written_sel(4)\<close>)
  then have "alone P now c ?y ?z"
    by (rule alone_step [of ?y c "HRouting s hdr payload", rotated -1])
      (simp_all add: step_route_def None)
  with None show ?thesis
    by (intro exI [of _ ?z])
      (simp add: LocalRouter_cases writeNoRoute_def writeTo_def free split: prod.split)
next
  case (Some t)
  let ?y = "goto c (HRouting s hdr payload) x"
  let ?ws = "writeFrame (data_header (se_Addr s) payload) payload"
  let ?w = "written (se_conn t) ?ws x"
  let ?dropped = "?w\<lparr>th_server := removeSession t (th_server ?w)\<rparr>"
  define ok where "ok = fst (conn_write ?ws (rs_conns (th_server x) (se_conn t)))"
  let ?z = "goto c (HReading s) (if ok then ?w else ?dropped)"
  have "alone P now c (goto c (HDropping s t) ?w) (goto c (HReading s) ?dropped)"
    by (rule alone_step [of _ c "HDropping s t", OF _ _ _ alone_refl]) (simp_all del: written_sel(4))
  then have last: "alone P now c (goto c (if ok then HReading s else HDropping s t) ?w) ?z"
    using alone_refl by simp
  have "alone P now c (goto c (HLocking s t Forward ?ws) x) ?z"
    by (rule alone_frame_locked [of _ c s t Forward ?ws ok])
      (use last in \<open>cases ok; simp add: free after_failure_def flip: ok_def del: written_sel(4)\<close>)+
  then have "alone P now c ?y ?z"
    by (rule alone_step [of ?y c "HRouting s hdr payload", rotated -1])
      (simp_all add: step_route_def Some)
  with Some show ?thesis
    by (intro exI [of _ ?z]) (simp add: LocalRouter_cases writeTo_def ok_def free split: prod.split)
qed

lemma frame_alone:
  assumes pc: "th_pc st c = HReading s" and phase: "cn_phase (rs_conns (th_server st) c) = Serving s"
    and conn: "se_conn s = c" and free: "th_lock st = (\<lambda>d. None)"
  shows "\<exists>z. alone P now c st z \<and> th_lock z = (\<lambda>d. None) \<and>
    th_server z = handle_frame LocalRouter_Route c (th_server st)"
proof (cases "readFrame (cn_in (rs_conns (th_server st) c))")
  case (Inl e)
  let ?z = "goto c HDone (st\<lparr>th_server := handle_return s c (th_server st)\<rparr>)"
  have "alone P now c st ?z"
    by (rule alone_step [OF pc _ _ return_alone [of P now c s st]]) (simp_all add: step_read_def Inl)
  with phase Inl free show ?thesis by (intro exI [of _ ?z]) (simp add: handle_frame_def)
next
  case (Inr p)
  then obtain hdr payload rest where
    read: "readFrame (cn_in (rs_conns (th_server st) c)) = Inr (hdr, payload, rest)" by (cases p) auto
  define r where "r = set_conn c ((rs_conns (th_server st) c)\<lparr>cn_in := rest\<rparr>) (th_server st)"
  define x where "x = st\<lparr>th_server := r\<rparr>"
  have x: "th_lock x = (\<lambda>d. None)" "th_server x = r" by (simp_all add: x_def free)
  note eq = step_read_def Let_def read x_def r_def
  note frame = handle_frame_def [of LocalRouter_Route c "th_server st", unfolded phase read,
      simplified, folded r_def]
  consider (ping) "hdr_Type hdr = FramePing" | (data) "hdr_Type hdr \<noteq> FramePing" "hdr_Type hdr = FrameData"
    | (other) "hdr_Type hdr \<noteq> FramePing" "hdr_Type hdr \<noteq> FrameData" by blast
  then show ?thesis
  proof cases
    case ping
    from ping_alone [OF conn x(1), of P now payload] obtain z where
      "alone P now c (goto c (HLocking s s Pong (writeFrame (pong_header payload) payload)) x) z"
      and z: "th_lock z = (\<lambda>d. None)" "th_server z = handle_frame LocalRouter_Route c (th_server st)"
      using ping by (auto simp: frame Let_def x(2))
    from alone_step [OF pc _ _ this(1)] ping have "alone P now c st z" by (simp add: eq)
    with z show ?thesis by blast
  next
    case data
    from route_alone [OF x(1), of P now c s hdr payload] obtain z where
      "alone P now c (goto c (HRouting s hdr payload) x) z"
      and z: "th_lock z = (\<lambda>d. None)" "th_server z = handle_frame LocalRouter_Route c (th_server st)"
      using data by (auto simp: frame Let_def x(2))
    from alone_step [OF pc _ _ this(1)] data have "alone P now c st z" by (simp add: eq)
    with z show ?thesis by blast
  next
    case other
    have "alone P now c st (goto c (HReading s) x)"
      by (rule alone_step [OF pc _ _ alone_refl]) (simp_all add: eq other)
    with other x show ?thesis by (intro exI [of _ "goto c (HReading s) x"]) (simp add: frame Let_def)
  qed
qed

end
