(* ===== verification/Swarm_Relay.thy ===== *)
theory Swarm_Relay
  imports Registrar_Props Relay_Props
begin

text \<open>
  The registrar and the relay server together: what the endpoints a registrar has on record can do
  on a relay that was started with the registrar's public key, which is all the relay knows of the
  registrar (\<^verbatim>\<open>NewRelayServer\<close>).
\<close>

lemma authenticated:
  assumes "cn_phase (rs_conns R c) = Accepted" "cn_quota (rs_conns R c) = None"
    and "cn_in (rs_conns R c) = concat (WriteAuthFrame token) @ rest"
    and "length token \<le> MaxRelayPayload"
    and "VerifyToken P now token (rs_controllerPubKey R) = Inr claims"
    and "R' = handle_auth P now c R"
  shows "rs_controllerPubKey R' = rs_controllerPubKey R"
    and "rs_sessions R' = gm_put (AddrKey (addr_of_claims claims)) (s_session c claims) (rs_sessions R)"
    and "rs_conns R' = (rs_conns R)(c := (rs_conns R c)\<lparr>cn_in := rest,
      cn_phase := Serving (s_session c claims),
      cn_out := cn_out (rs_conns R c) @ writeFrame (control_header FrameAuthOK) []\<rparr>)"
  using assms authenticate_frame [OF assms(4,5), of c rest]
  by (simp_all add: handle_auth_def addSession_def set_conn_def writeControlFrame_def writeTo_def
      writeFrame_def)

text \<open>A token of an endpoint on record verifies until its lifetime has passed, to its address.\<close>

lemma recorded_token:
  assumes run: "reg_run P key ttl xs = Some r"
    and pair: "keypair P (rg_publicKey r) (rg_privateKey r)"
    and ep: "getEndpoint addr r = Some ep"
    and json: "\<And>t0. json_Marshal P (epClaims ep t0 (rg_tokenTTL r)) \<noteq> None \<Longrightarrow>
      json_ok P (epClaims ep t0 (rg_tokenTTL r))"
  obtains t0 where "addr_of_claims (epClaims ep t0 (rg_tokenTTL r)) = ep_Addr ep"
    "same_endpoint (ep_Addr ep) addr"
    "\<forall>now \<le> t0 + rg_tokenTTL r.
      VerifyToken P now (ep_Token ep) (rg_publicKey r) = Inr (epClaims ep t0 (rg_tokenTTL r))"
proof -
  obtain t0 m where m: "json_Marshal P (epClaims ep t0 (rg_tokenTTL r)) = Some m"
    and sign: "SignToken P (epClaims ep t0 (rg_tokenTTL r)) (rg_privateKey r) = Inr (ep_Token ep)"
    and addr: "same_endpoint (ep_Addr ep) addr"
    by (rule stored_token [OF reg_run_inv [OF run] ep])
  from json m have "json_ok P (epClaims ep t0 (rg_tokenTTL r))" by simp
  note ver = verify_sign [OF pair this sign]
  show thesis
    by (rule that [of t0]) (use ver addr in \<open>auto simp: epClaims_def addr_of_claims_def\<close>)
qed

text \<open>C18. Registration is enough to be relayed: two endpoints the registrar has on record, whatever
  their states, domains, groups and roles, that connect to a relay holding the registrar's key
  within the lifetime of their tokens, the first sending a data frame for the second: both are
  told that they are authenticated, the second gets the data frame with the payload unchanged and
  the first's registered address as its source, nobody else gets anything, and what it gets is
  read back as sent. In particular revoking an endpoint does not stop its traffic.\<close>
theorem registered_endpoints_relay:
  assumes run: "reg_run P key ttl xs = Some r"
    and pair: "keypair P (rg_publicKey r) (rg_privateKey r)"
    and json: "\<And>addr ep t0. getEndpoint addr r = Some ep \<Longrightarrow>
      json_Marshal P (epClaims ep t0 (rg_tokenTTL r)) \<noteq> None \<Longrightarrow>
      json_ok P (epClaims ep t0 (rg_tokenTTL r))"
    and eps: "getEndpoint addrA r = Some a" "getEndpoint addrB r = Some b"
    and short: "length (ep_Token a) \<le> MaxRelayPayload" "length (ep_Token b) \<le> MaxRelayPayload"
      "length payload \<le> MaxRelayPayload"
    and relay: "rs_controllerPubKey R = rg_publicKey r" "ca \<noteq> cb"
    and A: "cn_phase (rs_conns R ca) = Accepted" "cn_quota (rs_conns R ca) = None"
      "cn_in (rs_conns R ca) =
         concat (WriteAuthFrame (ep_Token a)) @ concat (WriteDataFrame addrB payload) @ rest"
    and B: "cn_phase (rs_conns R cb) = Accepted" "cn_quota (rs_conns R cb) = None"
      "cn_in (rs_conns R cb) = concat (WriteAuthFrame (ep_Token b)) @ rest'"
  shows "\<exists>ta tb. \<forall>t1 \<le> ta + rg_tokenTTL r. \<forall>t2 \<le> tb + rg_tokenTTL r.
    (\<forall>i. cn_out (rs_conns (run_ops (relay_exec P LocalRouter_Route)
            [OpAuth t1 ca, OpAuth t2 cb, OpFrame ca] R) i) =
       cn_out (rs_conns R i) @
         (if i = ca \<or> i = cb then writeFrame (control_header FrameAuthOK) [] else []) @
         (if i = cb then WriteDataFrame (ep_Addr a) payload else [])) \<and>
    ReadRelayFrame (concat (WriteDataFrame (ep_Addr a) payload)) =
      Inr (data_header (ep_Addr a) payload, payload, [])"
proof -
  obtain ta where ta: "addr_of_claims (epClaims a ta (rg_tokenTTL r)) = ep_Addr a"
    "same_endpoint (ep_Addr a) addrA"
    "\<forall>now \<le> ta + rg_tokenTTL r.
      VerifyToken P now (ep_Token a) (rg_publicKey r) = Inr (epClaims a ta (rg_tokenTTL r))"
    by (rule recorded_token [OF run pair eps(1) json [OF eps(1)]])
  obtain tb where tb: "addr_of_claims (epClaims b tb (rg_tokenTTL r)) = ep_Addr b"
    "same_endpoint (ep_Addr b) addrB"
    "\<forall>now \<le> tb + rg_tokenTTL r.
      VerifyToken P now (ep_Token b) (rg_publicKey r) = Inr (epClaims b tb (rg_tokenTTL r))"
    by (rule recorded_token [OF run pair eps(2) json [OF eps(2)]])
  have "\<forall>i. cn_out (rs_conns (handle_frame LocalRouter_Route ca
      (handle_auth P t2 cb (handle_auth P t1 ca R))) i) = cn_out (rs_conns R i) @
         (if i = ca \<or> i = cb then writeFrame (control_header FrameAuthOK) [] else []) @
         (if i = cb then WriteDataFrame (ep_Addr a) payload else [])"
    if t: "t1 \<le> ta + rg_tokenTTL r" "t2 \<le> tb + rg_tokenTTL r" for t1 t2
  proof -
    define R1 where "R1 = handle_auth P t1 ca R"
    note a1 = authenticated [OF A short(1) _ R1_def, unfolded relay(1), OF ta(3) [rule_format, OF t(1)]]
    define R2 where "R2 = handle_auth P t2 cb R1"
    have key: "VerifyToken P t2 (ep_Token b) (rs_controllerPubKey R1) =
        Inr (epClaims b tb (rg_tokenTTL r))"
      using tb(3) t(2) by (simp add: a1(1))
    have "cn_phase (rs_conns R1 cb) = Accepted" "cn_quota (rs_conns R1 cb) = None"
      "cn_in (rs_conns R1 cb) = concat (WriteAuthFrame (ep_Token b)) @ rest'"
      using B relay(2) by (simp_all add: a1(3) A(2))
    note a2 = authenticated [OF this short(2) key R2_def]
    have to: "gm_get (rs_sessions R2) (AddrKey addrB) = Some (s_session cb (epClaims b tb (rg_tokenTTL r)))"
      using tb(1,2) by (auto simp: a2(2) AddrKey_eq_iff same_endpoint_def)
    have "cn_phase (rs_conns R2 ca) = Serving (s_session ca (epClaims a ta (rg_tokenTTL r)))"
      "cn_in (rs_conns R2 ca) = concat (WriteDataFrame addrB payload) @ rest"
      "cn_quota (rs_conns R2 ca) = None"
      using relay(2) A(2) by (simp_all add: a2(3) a1(3))
    note conn = this
    have free: "\<forall>t. gm_get (rs_sessions R2) (AddrKey addrB) = Some t \<longrightarrow>
        cn_quota (rs_conns R2 (se_conn t)) = None"
      using B(2) relay(2) by (simp add: to) (simp add: a2(3) a1(3))
    have "cn_out (rs_conns (handle_frame LocalRouter_Route ca R2) i) = cn_out (rs_conns R2 i) @
        (if i = cb then WriteDataFrame (ep_Addr a) payload else [])" for i
      using delivered [OF conn(1,2) short(3) conn(3) refl free] ta(1) by (simp add: to)
    moreover have "cn_out (rs_conns R2 i) = cn_out (rs_conns R i) @
        (if i = ca \<or> i = cb then writeFrame (control_header FrameAuthOK) [] else [])" for i
      using relay(2) by (simp add: a2(3) a1(3))
    ultimately show ?thesis by (simp add: R2_def R1_def)
  qed
  moreover have "ReadRelayFrame (concat (WriteDataFrame (ep_Addr a) payload)) =
      Inr (data_header (ep_Addr a) payload, payload, [])"
    using data_frame_read [of payload "ep_Addr a" "[]"] short(3)
    by (simp add: ReadRelayFrame_def)
  ultimately show ?thesis by (intro exI [of _ ta] exI [of _ tb]) simp
qed

text \<open>The sample registrar after the client has been revoked, and a relay that both endpoints reach.\<close>

definition s_r3 :: Registrar where
  "s_r3 = snd (RevokeEndpoint s_client_addr s_r2)"

lemma s_run3: "reg_run s_P s_key 1000 ((s_ops1 @ s_ops2) @ [OpRevoke s_client_addr]) = Some s_r3"
  using reg_run_append [OF s_run2, of "[OpRevoke s_client_addr]"] by (simp add: s_r3_def)

lemma s_get3:
  "getEndpoint s_client_addr s_r3 = Some (s_client_ep StateRevoked)"
  "getEndpoint s_agent_addr s_r3 = Some (s_agent_ep StateActive)"
  "rg_publicKey s_r3 = rg_publicKey s_r2" "rg_privateKey s_r3 = rg_privateKey s_r2"
  "rg_tokenTTL s_r3 = 1000"
proof -
  have r3: "s_r3 = (putEndpoint s_client_addr (s_client_ep StateRevoked) s_r2)
      \<lparr>rg_reachability := gm_del (AddrKey s_client_addr) (rg_reachability s_r2)\<rparr>"
    by (simp add: s_r3_def RevokeEndpoint_def) (simp add: s_client_ep_def)
  show "getEndpoint s_client_addr s_r3 = Some (s_client_ep StateRevoked)"
    "getEndpoint s_agent_addr s_r3 = Some (s_agent_ep StateActive)"
    "rg_publicKey s_r3 = rg_publicKey s_r2" "rg_privateKey s_r3 = rg_privateKey s_r2"
    "rg_tokenTTL s_r3 = 1000"
    using s_get2 by (simp_all add: r3 getEndpoint_ep_at ep_at_putEndpoint) (simp add: s_r2_def)
qed

lemma s_relay_fresh: "rs_conns (NewRelayServer k conns) = conns"
  by (simp add: NewRelayServer_def)

theorem registered_endpoints_relay_witness:
  "(\<exists>ep. getEndpoint s_client_addr s_r3 = Some ep \<and> ep_State ep = StateRevoked) \<and>
   (\<exists>ta tb. \<forall>t1 \<le> ta + 1000. \<forall>t2 \<le> tb + 1000.
      cn_out (rs_conns (run_ops (relay_exec s_P LocalRouter_Route)
        [OpAuth t1 0, OpAuth t2 1, OpFrame 0]
        (NewRelayServer (rg_publicKey s_r3) (\<lambda>c. new_conn (s_streams c)))) 1) =
      writeFrame (control_header FrameAuthOK) [] @ WriteDataFrame s_client_addr [7, 8, 9])"
proof -
  let ?R = "NewRelayServer (rg_publicKey s_r3) (\<lambda>c. new_conn (s_streams c))"
  have pair: "keypair s_P (rg_publicKey s_r3) (rg_privateKey s_r3)"
    using s_keypair by (simp add: s_get3)
  have len: "length (ep_Token (s_client_ep StateRevoked)) \<le> MaxRelayPayload"
    "length (ep_Token (s_agent_ep StateActive)) \<le> MaxRelayPayload"
    "length [7, 8, 9 :: byte] \<le> MaxRelayPayload"
    using s_token_short [of 1] s_token_short [of 2] by (simp_all add: s_client_ep_def s_agent_ep_def)
  have key: "rs_controllerPubKey ?R = rg_publicKey s_r3" by (simp add: NewRelayServer_def)
  have A: "cn_phase (rs_conns ?R 0) = Accepted" "cn_quota (rs_conns ?R 0) = None"
    "cn_in (rs_conns ?R 0) = concat (WriteAuthFrame (ep_Token (s_client_ep StateRevoked))) @
       concat (WriteDataFrame s_agent_addr [7, 8, 9]) @ []"
    by (simp_all add: s_relay_fresh new_conn_def s_streams_def s_client_ep_def)
  have B: "cn_phase (rs_conns ?R 1) = Accepted" "cn_quota (rs_conns ?R 1) = None"
    "cn_in (rs_conns ?R 1) = concat (WriteAuthFrame (ep_Token (s_agent_ep StateActive))) @ []"
    by (simp_all add: s_relay_fresh new_conn_def s_streams_def s_agent_ep_def)
  have out: "cn_out (rs_conns ?R 1) = []" by (simp add: s_relay_fresh new_conn_def)
  have addr: "ep_Addr (s_client_ep StateRevoked) = s_client_addr"
    "ep_State (s_client_ep StateRevoked) = StateRevoked"
    by (simp_all add: s_client_ep_def)
  note relayed = registered_endpoints_relay [OF s_run3 pair s_json_ok s_get3(1,2) len key _ A B,
    unfolded addr s_get3(5)]
  have "\<exists>ta tb. \<forall>t1 \<le> ta + 1000. \<forall>t2 \<le> tb + 1000.
      cn_out (rs_conns (run_ops (relay_exec s_P LocalRouter_Route)
        [OpAuth t1 0, OpAuth t2 1, OpFrame 0] ?R) 1) =
      writeFrame (control_header FrameAuthOK) [] @ WriteDataFrame s_client_addr [7, 8, 9]"
  proof (rule ex_forward [OF relayed])
    show "(0 :: nat) \<noteq> 1" by simp
  qed (assumption, erule ex_forward, intro allI impI, drule spec, drule (1) mp, drule spec, drule (1) mp,
      drule conjunct1, drule spec [of _ 1], simp only: out, simp del: run_ops.simps)
  then show ?thesis using s_get3(1) addr(2) by blast
qed

end
