(* ===== verification/Policy.thy ===== *)
theory Policy
  imports Swarm_Types
begin

text \<open>
  Flow policies, \<^verbatim>\<open>swarm/policy.go\<close>. A \<open>FlowPolicy\<close> is an interface with one method: a
  function of the two addresses that returns \<open>None\<close> to allow (Go's \<open>nil\<close>) or a reason to deny.
  Both policies of the file are loops with an early return.
\<close>

datatype policy_error = NotInAllowList | EndpointBlocked EndpointAddr

type_synonym FlowPolicy = "EndpointAddr \<Rightarrow> EndpointAddr \<Rightarrow> policy_error option"

record FlowRule =
  fr_FromDomain :: DomainID
  fr_FromGroup :: GroupID
  fr_FromRole :: byte
  fr_ToDomain :: DomainID
  fr_ToGroup :: GroupID
  fr_ToRole :: byte

fun AllowListPolicy_Evaluate :: "FlowRule list \<Rightarrow> FlowPolicy" where
  "AllowListPolicy_Evaluate [] from to = Some NotInAllowList"
| "AllowListPolicy_Evaluate (r # rs) from to =
     (if fr_FromDomain r = ea_Domain from \<and> fr_FromGroup r = ea_Group from \<and> fr_FromRole r = Role from \<and>
         fr_ToDomain r = ea_Domain to \<and> fr_ToGroup r = ea_Group to \<and> fr_ToRole r = Role to
      then None else AllowListPolicy_Evaluate rs from to)"

fun DenyEndpointPolicy_Evaluate :: "EndpointAddr list \<Rightarrow> FlowPolicy" where
  "DenyEndpointPolicy_Evaluate [] from to = None"
| "DenyEndpointPolicy_Evaluate (b # bs) from to =
     (if ea_Domain from = ea_Domain b \<and> ea_Group from = ea_Group b \<and> ea_Endpoint from = ea_Endpoint b
      then Some (EndpointBlocked from) else DenyEndpointPolicy_Evaluate bs from to)"

definition rule_for :: "EndpointAddr \<Rightarrow> EndpointAddr \<Rightarrow> FlowRule" where
  "rule_for from to =
     \<lparr>fr_FromDomain = ea_Domain from, fr_FromGroup = ea_Group from, fr_FromRole = Role from,
      fr_ToDomain = ea_Domain to, fr_ToGroup = ea_Group to, fr_ToRole = Role to\<rparr>"

lemma AllowList_None: "AllowListPolicy_Evaluate rs from to = None \<longleftrightarrow> rule_for from to \<in> set rs"
  by (induction rs) (auto simp: rule_for_def)

lemma DenyEndpoint_None:
  "DenyEndpointPolicy_Evaluate bs from to = None \<longleftrightarrow> (\<forall>b \<in> set bs. \<not> same_endpoint from b)"
  by (induction bs) (auto simp: same_endpoint_def)

end
