(* ===== verification/Controller.thy ===== *)
theory Controller
  imports Policy Registrar_Inv
begin

text \<open>
  The flow controller, \<^verbatim>\<open>swarm/controller.go\<close>. It shares the registrar with everybody else, so
  the registrar is an argument of its operations and not part of its record. \<open>ed25519.Verify\<close>
  panics on a public key that is not 32 bytes long; the panic is a branch of \<open>VerifyMessage\<close>.
  What the controller needs of the registrar is the locale \<open>identity_authority\<close>, which the
  registrar's model provides.
\<close>

section \<open>State and operations\<close>

record Controller =
  ct_registrarKey :: bytes
  ct_policies :: "FlowPolicy list"

datatype flow_error =
    InvalidSenderToken token_error
  | TokenNotSender
  | InvalidPayloadSignature
  | PanicBadKey
  | RelayNotReserved
  | RelayNotFound
  | RelayState byte
  | OnlyClientsInitiate
  | DestinationNotAgent
  | CrossDomain DomainID DomainID
  | CrossGroup GroupID GroupID
  | DestinationNotFound
  | DestinationState byte
  | PolicyDenied policy_error

definition NewController :: "Registrar \<Rightarrow> Controller" where
  "NewController reg = \<lparr>ct_registrarKey = rg_publicKey reg, ct_policies = []\<rparr>"

definition AddPolicy :: "FlowPolicy \<Rightarrow> Controller \<Rightarrow> Controller" where
  "AddPolicy p c = c\<lparr>ct_policies := ct_policies c @ [p]\<rparr>"

fun evalPolicies :: "FlowPolicy list \<Rightarrow> EndpointAddr \<Rightarrow> EndpointAddr \<Rightarrow> flow_error + unit" where
  "evalPolicies [] from to = Inr ()"
| "evalPolicies (p # ps) from to =
     (case p from to of Some e \<Rightarrow> Inl (PolicyDenied e) | None \<Rightarrow> evalPolicies ps from to)"

definition checkFlowRules ::
    "Controller \<Rightarrow> Registrar \<Rightarrow> EndpointAddr \<Rightarrow> EndpointAddr \<Rightarrow> flow_error + unit" where
  "checkFlowRules c reg from to =
     (let fromRole = Role from; toRole = Role to in
      if toRole = RoleRelay then
        (if ea_Domain to \<noteq> RelayDomain then Inl RelayNotReserved
         else case GetEndpointInfo to reg of
           None \<Rightarrow> Inl RelayNotFound
         | Some ep \<Rightarrow> if ep_State ep \<noteq> StateActive then Inl (RelayState (ep_State ep)) else Inr ())
      else if fromRole \<noteq> RoleClient then Inl OnlyClientsInitiate
      else if toRole \<noteq> RoleAgent then Inl DestinationNotAgent
      else if ea_Domain from \<noteq> ea_Domain to then Inl (CrossDomain (ea_Domain from) (ea_Domain to))
      else if ea_Group from \<noteq> ea_Group to then Inl (CrossGroup (ea_Group from) (ea_Group to))
      else case GetEndpointInfo to reg of
        None \<Rightarrow> Inl DestinationNotFound
      | Some ep \<Rightarrow>
          if ep_State ep \<noteq> StateActive then Inl (DestinationState (ep_State ep))
          else evalPolicies (ct_policies c) from to)"

definition ValidateFlow ::
    "prims \<Rightarrow> time \<Rightarrow> Controller \<Rightarrow> Registrar \<Rightarrow> EndpointAddr \<Rightarrow> EndpointAddr \<Rightarrow> string
     \<Rightarrow> flow_error + unit" where
  "ValidateFlow P now c reg from to fromToken =
     (case VerifyToken P now fromToken (ct_registrarKey c) of
        Inl e \<Rightarrow> Inl (InvalidSenderToken e)
      | Inr claims \<Rightarrow>
          if \<not> claims_match_flags claims from then Inl TokenNotSender
          else checkFlowRules c reg from to)"

definition VerifyMessage ::
    "prims \<Rightarrow> time \<Rightarrow> Controller \<Rightarrow> Registrar \<Rightarrow> SwarmMessage \<Rightarrow> flow_error + unit" where
  "VerifyMessage P now c reg msg =
     (case VerifyToken P now (msg_Token msg) (ct_registrarKey c) of
        Inl e \<Rightarrow> Inl (InvalidSenderToken e)
      | Inr claims \<Rightarrow>
          if \<not> claims_match_flags claims (msg_From msg) then Inl TokenNotSender
          else if length (cl_PublicKey claims) \<noteq> PublicKeySize then Inl PanicBadKey
          else if \<not> ed_Verify P (cl_PublicKey claims) (msg_Payload msg) (msg_Signature msg)
            then Inl InvalidPayloadSignature
          else checkFlowRules c reg (msg_From msg) (msg_To msg))"

section \<open>What is permitted\<close>

text \<open>The policy of the swarm over the claimed addresses and the lookup of the destination.\<close>

definition flow_spec ::
    "Controller \<Rightarrow> (EndpointAddr \<Rightarrow> RegisteredEndpoint option) \<Rightarrow> EndpointAddr \<Rightarrow> EndpointAddr \<Rightarrow> bool" where
  "flow_spec c lookup from to \<longleftrightarrow>
     (\<exists>ep. lookup to = Some ep \<and> ep_State ep = StateActive) \<and>
     (if Role to = RoleRelay then ea_Domain to = RelayDomain
      else Role from = RoleClient \<and> Role to = RoleAgent \<and> ea_Domain from = ea_Domain to \<and>
        ea_Group from = ea_Group to \<and> (\<forall>p \<in> set (ct_policies c). p from to = None))"

lemma evalPolicies_Inr: "evalPolicies ps from to = Inr () \<longleftrightarrow> (\<forall>p \<in> set ps. p from to = None)"
  by (induction ps) (auto split: option.split)

lemma checkFlowRules_Inr:
  "checkFlowRules c reg from to = Inr () \<longleftrightarrow> flow_spec c (\<lambda>a. GetEndpointInfo a reg) from to"
  by (auto simp: checkFlowRules_def flow_spec_def Let_def evalPolicies_Inr split: option.split)

lemma ValidateFlow_Inr:
  "ValidateFlow P now c reg from to token = Inr () \<longleftrightarrow>
     (\<exists>claims. VerifyToken P now token (ct_registrarKey c) = Inr claims \<and> claims_match_flags claims from) \<and>
     flow_spec c (\<lambda>a. GetEndpointInfo a reg) from to"
  by (auto simp: ValidateFlow_def checkFlowRules_Inr split: sum.split)

lemma VerifyMessage_Inr:
  "VerifyMessage P now c reg msg = Inr () \<longleftrightarrow>
     (\<exists>claims. VerifyToken P now (msg_Token msg) (ct_registrarKey c) = Inr claims \<and>
        claims_match_flags claims (msg_From msg) \<and> length (cl_PublicKey claims) = PublicKeySize \<and>
        ed_Verify P (cl_PublicKey claims) (msg_Payload msg) (msg_Signature msg)) \<and>
     flow_spec c (\<lambda>a. GetEndpointInfo a reg) (msg_From msg) (msg_To msg)"
  by (auto simp: VerifyMessage_def checkFlowRules_Inr split: sum.split)

section \<open>The identity authority\<close>

text \<open>
  What authorization relies on: lookups go by domain, group and ID; the record found is the
  record of that address; relays are the endpoints of domain 0.
\<close>

locale identity_authority =
  fixes good :: "'r \<Rightarrow> bool"
    and lookup :: "EndpointAddr \<Rightarrow> 'r \<Rightarrow> RegisteredEndpoint option"
  assumes lookup_cong: "same_endpoint a b \<Longrightarrow> lookup a r = lookup b r"
    and lookup_addr: "good r \<Longrightarrow> lookup a r = Some ep \<Longrightarrow> same_endpoint (ep_Addr ep) a"
    and lookup_relay: "good r \<Longrightarrow> lookup a r = Some ep \<Longrightarrow>
      RoleOf (ea_RoleFlags (ep_Addr ep)) = RoleRelay \<longleftrightarrow> ea_Domain a = RelayDomain"
begin

text \<open>A permitted relay destination is a relay on record, not only by its claimed role.\<close>

lemma flow_to_relay:
  assumes "good r" "flow_spec c (\<lambda>a. lookup a r) from to" "Role to = RoleRelay"
  shows "\<exists>ep. lookup to r = Some ep \<and> ep_State ep = StateActive \<and>
    RoleOf (ea_RoleFlags (ep_Addr ep)) = RoleRelay"
  using assms lookup_relay [of r to] by (auto simp: flow_spec_def)

text \<open>A permitted flow to an agent stays inside the sender's domain, which is not the relays'.\<close>

lemma flow_to_agent:
  assumes "good r" "flow_spec c (\<lambda>a. lookup a r) from to" "Role to \<noteq> RoleRelay"
    and "lookup from r = Some ep" "ea_RoleFlags (ep_Addr ep) = ea_RoleFlags from"
  shows "ea_Domain to \<noteq> RelayDomain \<and> ea_Domain to = ea_Domain from \<and> ea_Group to = ea_Group from"
  using assms lookup_relay [of r "from"] by (auto simp: flow_spec_def Role_def)

text \<open>The role in the destination address is the caller's: a record with any role is accepted as an agent.\<close>

lemma flow_role_is_claimed:
  assumes "lookup to r = Some ep" "ep_State ep = StateActive" "Role from = RoleClient"
    "ea_Domain from = ea_Domain to" "ea_Group from = ea_Group to" "ct_policies c = []"
  shows "flow_spec c (\<lambda>a. lookup a r) from (to\<lparr>ea_RoleFlags := RoleAgent\<rparr>)"
  using assms lookup_cong [of "to\<lparr>ea_RoleFlags := RoleAgent\<rparr>" to r]
  by (simp add: flow_spec_def Role_def RoleOf_def same_endpoint_def)

end

interpretation registrar_authority: identity_authority "reg_inv P" GetEndpointInfo for P
proof (unfold_locales, goal_cases)
  case (1 a b r)
  then show ?case by (simp add: GetEndpointInfo_def getEndpoint_ep_at same_endpoint_def)
next
  case (2 r a ep)
  then have "ep_at r (ea_Domain a) (ea_Group a) (ea_Endpoint a) = Some ep"
    by (simp add: GetEndpointInfo_def getEndpoint_ep_at)
  with 2 reg_invD(5) [of P r] show ?case by (fastforce simp: endpoint_ok_def same_endpoint_def)
next
  case (3 r a ep)
  then have "ep_at r (ea_Domain a) (ea_Group a) (ea_Endpoint a) = Some ep"
    by (simp add: GetEndpointInfo_def getEndpoint_ep_at)
  with 3 reg_invD(5) [of P r] show ?case by (fastforce simp: endpoint_ok_def)
qed

end
