(* ===== verification/Controller_Props.thy ===== *)
theory Controller_Props
  imports Controller Registrar_Props
begin

text \<open>
  The properties of flow control: who can send an accepted message and to whom, and what the
  controller does not check.
\<close>

section \<open>Accepted messages\<close>

lemma accepted_sender:
  assumes run: "reg_run P key ttl xs = Some r" and trust: "unforgeable P key ttl xs" "token_small token"
    and ver: "VerifyToken P now token (rg_publicKey r) = Inr claims" "claims_match_flags claims from"
  shows "\<exists>ep. getEndpoint from r = Some ep \<and> ep_Addr ep = from \<and> cl_PublicKey claims = ep_PublicKey ep \<and>
    length (ep_PublicKey ep) = PublicKeySize"
proof -
  obtain addr ep t0 where ep: "getEndpoint addr r = Some ep" "same_endpoint (ep_Addr ep) addr"
    "claims = epClaims ep t0 (rg_tokenTTL r)"
    using token_on_record [OF run trust ver(1)] by blast
  from ep(3) ver(2) have same: "ep_Addr ep = from"
    by (simp add: claims_match_flags_def claims_match_def epClaims_def)
  with ep(1,2) have get: "getEndpoint from r = Some ep"
    by (simp add: getEndpoint_ep_at same_endpoint_def)
  then have "endpoint_ok P r (ea_Domain from) (ea_Group from) (ea_Endpoint from) ep"
    by (intro reg_invD(5) [OF reg_run_inv [OF run]]) (simp add: getEndpoint_ep_at)
  with get same ep(3) show ?thesis by (simp add: endpoint_ok_def epClaims_def)
qed

text \<open>C19. An accepted message is authentic and permitted: if signatures cannot be forged, a
  message that \<open>VerifyMessage\<close> accepts was signed with the key of the endpoint on record at its
  sender address (with exactly these roles), its destination is an active endpoint on record,
  and either that is a relay or the sender is a client, the destination is addressed as an agent
  in the same domain and group, outside the relays' domain, and every policy allows the flow.\<close>
theorem accepted_message_authentic:
  assumes run: "reg_run P key ttl xs = Some r"
    and trust: "unforgeable P key ttl xs" "token_small (msg_Token msg)"
    and key: "ct_registrarKey c = rg_publicKey r"
    and acc: "VerifyMessage P now c r msg = Inr ()"
  shows "\<exists>ep dst. getEndpoint (msg_From msg) r = Some ep \<and> ep_Addr ep = msg_From msg \<and>
    ed_Verify P (ep_PublicKey ep) (msg_Payload msg) (msg_Signature msg) \<and>
    getEndpoint (msg_To msg) r = Some dst \<and> ep_State dst = StateActive \<and>
    (RoleOf (ea_RoleFlags (ep_Addr dst)) = RoleRelay \<or>
     RoleOf (ea_RoleFlags (ep_Addr ep)) = RoleClient \<and> Role (msg_To msg) = RoleAgent \<and>
     ea_Domain (msg_To msg) = ea_Domain (msg_From msg) \<and> ea_Domain (msg_To msg) \<noteq> RelayDomain \<and>
     ea_Group (msg_To msg) = ea_Group (msg_From msg) \<and>
     (\<forall>p \<in> set (ct_policies c). p (msg_From msg) (msg_To msg) = None))"
proof -
  note good = reg_run_inv [OF run]
  obtain claims where claims: "VerifyToken P now (msg_Token msg) (rg_publicKey r) = Inr claims"
    "claims_match_flags claims (msg_From msg)"
    "ed_Verify P (cl_PublicKey claims) (msg_Payload msg) (msg_Signature msg)"
    and flow: "flow_spec c (\<lambda>a. GetEndpointInfo a r) (msg_From msg) (msg_To msg)"
    using acc unfolding VerifyMessage_Inr key by blast
  obtain ep where ep: "getEndpoint (msg_From msg) r = Some ep" "ep_Addr ep = msg_From msg"
    "cl_PublicKey claims = ep_PublicKey ep"
    using accepted_sender [OF run trust claims(1,2)] by blast
  obtain dst where dst: "getEndpoint (msg_To msg) r = Some dst" "ep_State dst = StateActive"
    using flow by (auto simp: flow_spec_def GetEndpointInfo_def)
  show ?thesis
  proof (cases "Role (msg_To msg) = RoleRelay")
    case True
    with registrar_authority.flow_to_relay [OF good flow] dst(1)
    have "RoleOf (ea_RoleFlags (ep_Addr dst)) = RoleRelay" by (simp add: GetEndpointInfo_def)
    with ep dst claims(3) show ?thesis by (intro exI [of _ ep] exI [of _ dst]) simp
  next
    case False
    from registrar_authority.flow_to_agent [OF good flow False] ep
    have "ea_Domain (msg_To msg) \<noteq> RelayDomain" by (metis GetEndpointInfo_def)
    with False flow ep dst claims(3) show ?thesis
      by (intro exI [of _ ep] exI [of _ dst]) (simp add: flow_spec_def Role_def)
  qed
qed

definition s_controller :: Controller where
  "s_controller = AddPolicy (AllowListPolicy_Evaluate [rule_for s_client_addr s_agent_addr])
     (NewController s_r2)"

definition s_msg :: SwarmMessage where
  "s_msg = \<lparr>msg_From = s_client_addr, msg_To = s_agent_addr, msg_Token = s_token 2,
     msg_Payload = [1], msg_Signature = s_sig\<rparr>"

lemma s_key2: "rg_publicKey s_r2 = replicate 32 1"
  by (simp add: s_r2_def)

lemma s_controller_key: "ct_registrarKey s_controller = rg_publicKey s_r2"
  by (simp add: s_controller_def AddPolicy_def NewController_def)

lemma s_flow: "flow_spec s_controller (\<lambda>a. GetEndpointInfo a s_r2) s_client_addr s_agent_addr"
  by (simp add: flow_spec_def GetEndpointInfo_def s_agent_ep_def Role_def RoleOf_def s_controller_def
      AddPolicy_def NewController_def rule_for_def)

lemma s_client_matches: "claims_match_flags s_client_claims s_client_addr"
  by (simp add: claims_match_flags_def claims_match_def s_client_claims_def)

lemma replicate_two_one: "replicate 32 (3 :: byte) \<noteq> replicate 32 1"
  by (simp add: replicate_eq_replicate)

lemma s_verify: "VerifyMessage s_P 100 s_controller s_r2 s_msg = Inr ()"
  unfolding VerifyMessage_Inr s_controller_key s_key2
  using s_flow s_client_matches replicate_two_one by (simp add: s_msg_def s_client_claims_def)

theorem accepted_message_authentic_witness:
  "\<exists>ep. getEndpoint s_client_addr s_r2 = Some ep \<and> ed_Verify s_P (ep_PublicKey ep) [1] s_sig"
proof -
  have "token_small (msg_Token s_msg)" by (simp add: s_msg_def s_small)
  from accepted_message_authentic [OF s_run2 s_unforgeable this s_controller_key s_verify]
  show ?thesis by (simp only: s_msg_def SwarmMessage.simps) blast
qed

text \<open>\<open>VerifyMessage\<close> does not panic: \<open>ed25519.Verify\<close> panics on a public key that is not 32
  bytes long, and if signatures cannot be forged no message, however malformed, gets it
  called with one.\<close>
theorem VerifyMessage_no_panic:
  assumes "reg_run P key ttl xs = Some r" "unforgeable P key ttl xs" "token_small (msg_Token msg)"
    and "ct_registrarKey c = rg_publicKey r"
  shows "VerifyMessage P now c r msg \<noteq> Inl PanicBadKey"
proof
  assume panic: "VerifyMessage P now c r msg = Inl PanicBadKey"
  have rules: "checkFlowRules c r from to \<noteq> Inl PanicBadKey" for "from" to
  proof -
    have "evalPolicies ps from to \<noteq> Inl PanicBadKey" for ps
      by (induction ps) (auto split: option.split)
    then show ?thesis by (simp add: checkFlowRules_def Let_def split: option.split)
  qed
  obtain claims where "VerifyToken P now (msg_Token msg) (rg_publicKey r) = Inr claims"
    "claims_match_flags claims (msg_From msg)" "length (cl_PublicKey claims) \<noteq> PublicKeySize"
    using panic rules assms(4) by (auto simp: VerifyMessage_def split: sum.splits if_splits)
  with accepted_sender [OF assms(1-3)] show False by fastforce
qed

theorem VerifyMessage_no_panic_witness:
  "VerifyMessage s_P 100 s_controller s_r2 s_msg \<noteq> Inl PanicBadKey"
proof -
  have "token_small (msg_Token s_msg)" by (simp add: s_msg_def s_small)
  from VerifyMessage_no_panic [OF s_run2 s_unforgeable this s_controller_key] show ?thesis .
qed

section \<open>What is not checked\<close>

text \<open>C20. The destination's role is the caller's claim (a defect): a client that holds a valid token
  may open a flow to any active endpoint of its domain and group, another client too, by naming
  it with the agent role, although only agents may receive flows.\<close>
theorem destination_role_spoofed:
  assumes "VerifyToken P now token (ct_registrarKey c) = Inr claims" "claims_match_flags claims from"
    and "Role from = RoleClient" "ct_policies c = []"
    and "getEndpoint to r = Some ep" "ep_State ep = StateActive"
    and "ea_Domain from = ea_Domain to" "ea_Group from = ea_Group to"
  shows "ValidateFlow P now c r from (to\<lparr>ea_RoleFlags := RoleAgent\<rparr>) token = Inr ()"
  unfolding ValidateFlow_Inr
  using assms registrar_authority.flow_role_is_claimed [of to r ep "from" c]
  by (simp add: GetEndpointInfo_def)

theorem destination_role_spoofed_witness:
  "ValidateFlow s_P 100 (NewController s_r2) s_r2 s_client_addr
     (s_client_addr\<lparr>ea_RoleFlags := RoleAgent\<rparr>) (s_token 2) = Inr ()"
proof -
  have "VerifyToken s_P 100 (s_token 2) (ct_registrarKey (NewController s_r2)) = Inr s_client_claims"
    by (simp add: NewController_def s_key2)
  then show ?thesis
    by (rule destination_role_spoofed [OF _ s_client_matches _ _ s_get2(2)])
      (simp_all add: Role_def RoleOf_def NewController_def s_client_ep_def)
qed

text \<open>The sender's registration is not looked at (a defect): revoking an endpoint changes the
  answer to none of its flows to other endpoints, so a revoked client keeps its access until its
  token expires.\<close>
theorem revoked_sender_keeps_access:
  assumes "RevokeEndpoint from r = (Inr (), r')" "\<not> same_endpoint to from"
  shows "ValidateFlow P now c r' from to token = ValidateFlow P now c r from to token"
proof -
  have "getEndpoint to r' = getEndpoint to r"
    using assms by (auto simp: RevokeEndpoint_def getEndpoint_ep_at ep_at_putEndpoint
        same_endpoint_def split: option.splits)
  then have "checkFlowRules c r' from to = checkFlowRules c r from to"
    by (simp add: checkFlowRules_def GetEndpointInfo_def Let_def)
  then show ?thesis by (simp add: ValidateFlow_def split: sum.split)
qed

theorem revoked_sender_keeps_access_witness:
  "ValidateFlow s_P 100 s_controller (snd (RevokeEndpoint s_client_addr s_r2)) s_client_addr
     s_agent_addr (s_token 2) = Inr ()"
proof -
  have rev: "RevokeEndpoint s_client_addr s_r2 = (Inr (), snd (RevokeEndpoint s_client_addr s_r2))"
    by (simp add: RevokeEndpoint_def)
  have "\<not> same_endpoint s_agent_addr s_client_addr" by (simp add: same_endpoint_def)
  note same = revoked_sender_keeps_access [OF rev this]
  have "ValidateFlow s_P 100 s_controller s_r2 s_client_addr s_agent_addr (s_token 2) = Inr ()"
    unfolding ValidateFlow_Inr s_controller_key s_key2 using s_flow s_client_matches by simp
  with same show ?thesis by simp
qed

section \<open>Policies\<close>

text \<open>Policies only restrict: adding a policy accepts no flow that was not accepted before; with an
  allow list exactly the flows that match a rule remain, with a block list exactly those whose
  sender is not on it, flows to relays excepted, which no policy is asked about.\<close>
theorem policies_restrict:
  "(ValidateFlow P now (AddPolicy p c) r from to token = Inr () \<longleftrightarrow>
     ValidateFlow P now c r from to token = Inr () \<and> (Role to = RoleRelay \<or> p from to = None)) \<and>
   (AllowListPolicy_Evaluate rules from to = None \<longleftrightarrow> rule_for from to \<in> set rules) \<and>
   (DenyEndpointPolicy_Evaluate blocked from to = None \<longleftrightarrow> (\<forall>b \<in> set blocked. \<not> same_endpoint from b))"
  by (auto simp: ValidateFlow_Inr flow_spec_def AddPolicy_def AllowList_None DenyEndpoint_None)

theorem policies_restrict_witness:
  "DenyEndpointPolicy_Evaluate [s_agent_addr] s_client_addr s_agent_addr = None \<and>
   DenyEndpointPolicy_Evaluate [s_agent_addr] s_agent_addr s_client_addr \<noteq> None"
  using policies_restrict [of s_P 0 _ s_controller s_r2 s_client_addr s_agent_addr "[]" "[]" "[s_agent_addr]"]
    policies_restrict [of s_P 0 _ s_controller s_r2 s_agent_addr s_client_addr "[]" "[]" "[s_agent_addr]"]
  by (simp add: same_endpoint_def)

end
