(* ===== verification/Discovery.thy ===== *)
theory Discovery
  imports Swarm_Types "HOL-Library.Multiset"
begin

text \<open>
  Relay ranking and transport selection, \<^verbatim>\<open>swarm/discovery.go\<close>. \<open>sort.Slice\<close> is a parameter
  of the definitions, since Go promises a sorted permutation and no particular one: its contract
  is the locale \<open>slice_sort\<close>, and the insertion sort Go runs on up to twelve elements is shown to
  meet it. A \<open>Prober\<close> is the results its methods return during one evaluation. Durations are
  \<open>int64\<close>: the one addition the code makes wraps.
\<close>

section \<open>Sorting a slice\<close>

type_synonym 'a slice_sorter = "('a \<Rightarrow> 'a \<Rightarrow> bool) \<Rightarrow> 'a list \<Rightarrow> 'a list"

definition strict_weak :: "('a \<Rightarrow> 'a \<Rightarrow> bool) \<Rightarrow> bool" where
  "strict_weak lt \<longleftrightarrow>
     (\<forall>x y. lt x y \<longrightarrow> \<not> lt y x) \<and>
     (\<forall>x y z. \<not> lt x y \<longrightarrow> \<not> lt y z \<longrightarrow> \<not> lt x z)"

locale slice_sort =
  fixes sort_Slice :: "'a slice_sorter"
  assumes sort_mset: "mset (sort_Slice lt xs) = mset xs"
    and sort_sorted: "strict_weak lt \<Longrightarrow> sorted_wrt (\<lambda>x y. \<not> lt y x) (sort_Slice lt xs)"
begin

lemma sort_set [simp]: "set (sort_Slice lt xs) = set xs"
  using sort_mset by (metis mset_eq_setD)

lemma sort_length [simp]: "length (sort_Slice lt xs) = length xs"
  using sort_mset by (metis size_mset)

lemma sort_empty [simp]: "sort_Slice lt xs = [] \<longleftrightarrow> xs = []"
  using sort_length by (metis length_0_conv)

text \<open>The first element that satisfies a test is a least one among those that do.\<close>

lemma find_sort_least:
  assumes "strict_weak lt" "find p (sort_Slice lt xs) = Some x" "y \<in> set xs" "p y"
  shows "\<not> lt y x"
proof -
  obtain i where i: "i < length (sort_Slice lt xs)" "sort_Slice lt xs ! i = x"
    "\<And>j. j < i \<Longrightarrow> \<not> p (sort_Slice lt xs ! j)"
    using assms(2) by (auto simp: find_Some_iff)
  obtain k where k: "k < length (sort_Slice lt xs)" "sort_Slice lt xs ! k = y"
    using assms(3) by (metis in_set_conv_nth sort_set)
  have "i \<le> k" using i(3) k(2) assms(4) by (meson not_le)
  then consider "i = k" | "i < k" by linarith
  then show ?thesis
  proof cases
    case 1
    with i(2) k(2) have "x = y" by simp
    with assms(1) show ?thesis unfolding strict_weak_def by blast
  next
    case 2
    from sorted_wrt_nth_less [OF sort_sorted [OF assms(1)] this k(1)] i(2) k(2) show ?thesis
      by (simp only: simp_thms)
  qed
qed

end

text \<open>Insertion from the right end, as \<open>insertionSort\<close> swaps; the list is reversed.\<close>

fun insert_left :: "('a \<Rightarrow> 'a \<Rightarrow> bool) \<Rightarrow> 'a \<Rightarrow> 'a list \<Rightarrow> 'a list" where
  "insert_left lt x [] = [x]"
| "insert_left lt x (y # ys) = (if lt x y then y # insert_left lt x ys else x # y # ys)"

definition insertion_sort :: "'a slice_sorter" where
  "insertion_sort lt xs = rev (foldl (\<lambda>acc x. insert_left lt x acc) [] xs)"

lemma mset_insert_left [simp]: "mset (insert_left lt x ys) = add_mset x (mset ys)"
  by (induction ys) auto

lemma set_insert_left [simp]: "set (insert_left lt x ys) = insert x (set ys)"
  by (induction ys) auto

lemma sorted_insert_left:
  assumes "strict_weak lt" "sorted_wrt (\<lambda>x y. \<not> lt x y) ys"
  shows "sorted_wrt (\<lambda>x y. \<not> lt x y) (insert_left lt x ys)"
  using assms(2)
proof (induction ys)
  case (Cons y ys)
  show ?case
  proof (cases "lt x y")
    case True
    then have "\<not> lt y x" using assms(1) unfolding strict_weak_def by blast
    with Cons True show ?thesis by simp
  next
    case False
    have "\<not> lt x z" if "z \<in> set ys" for z
    proof -
      have "\<not> lt y z" using Cons.prems that by simp
      with False assms(1) show ?thesis unfolding strict_weak_def by blast
    qed
    with Cons.prems False show ?thesis by simp
  qed
qed simp

lemma insertion_foldl:
  "mset (foldl (\<lambda>acc x. insert_left lt x acc) ys xs) = mset xs + mset ys"
  "strict_weak lt \<Longrightarrow> sorted_wrt (\<lambda>x y. \<not> lt x y) ys \<Longrightarrow>
     sorted_wrt (\<lambda>x y. \<not> lt x y) (foldl (\<lambda>acc x. insert_left lt x acc) ys xs)"
  by (induction xs arbitrary: ys) (auto simp: sorted_insert_left)

interpretation insertion: slice_sort insertion_sort
  by unfold_locales (simp_all add: insertion_sort_def insertion_foldl sorted_wrt_rev)

section \<open>Latencies in order\<close>

text \<open>Latency 0 means not yet probed and ranks after every measurement.\<close>

datatype latency = Probed int | Unprobed

instantiation latency :: linorder
begin

fun less_latency :: "latency \<Rightarrow> latency \<Rightarrow> bool" where
  "less_latency Unprobed y = False"
| "less_latency (Probed i) Unprobed = True"
| "less_latency (Probed i) (Probed j) = (i < j)"

definition less_eq_latency :: "latency \<Rightarrow> latency \<Rightarrow> bool" where
  "less_eq_latency x y = (\<not> y < (x :: latency))"

instance
proof
  fix x y z :: latency
  show "x < y \<longleftrightarrow> x \<le> y \<and> \<not> y \<le> x"
    by (cases x; cases y) (auto simp: less_eq_latency_def)
  show "x \<le> x" by (cases x) (auto simp: less_eq_latency_def)
  show "x \<le> y \<Longrightarrow> y \<le> z \<Longrightarrow> x \<le> z"
    by (cases x; cases y; cases z) (auto simp: less_eq_latency_def)
  show "x \<le> y \<Longrightarrow> y \<le> x \<Longrightarrow> x = y"
    by (cases x; cases y) (auto simp: less_eq_latency_def)
  show "x \<le> y \<or> y \<le> x"
    by (cases x; cases y) (auto simp: less_eq_latency_def)
qed

end

definition latency_of :: "RelayInfo \<Rightarrow> latency" where
  "latency_of r = (if rl_Latency r = 0 then Unprobed else Probed (rl_Latency r))"

section \<open>Ranking\<close>

text \<open>The comparison \<open>RankRelays\<close> passes to \<open>sort.Slice\<close>.\<close>

definition relay_less :: "RelayInfo \<Rightarrow> RelayInfo \<Rightarrow> bool" where
  "relay_less ri rj =
     (let li = rl_Latency ri; lj = rl_Latency rj in
      if li = 0 then False else if lj = 0 then True else li < lj)"

definition RankRelays :: "RelayInfo slice_sorter \<Rightarrow> RelayInfo list \<Rightarrow> RelayInfo list" where
  "RankRelays sort_Slice relays = sort_Slice relay_less relays"

definition ProbeRelays ::
    "RelayInfo slice_sorter \<Rightarrow> (nat \<Rightarrow> EndpointAddr \<Rightarrow> duration option) \<Rightarrow> RelayInfo list
     \<Rightarrow> RelayInfo list" where
  "ProbeRelays sort_Slice ProbeRelay relays =
     RankRelays sort_Slice
       (map (\<lambda>(i, r). case ProbeRelay i (rl_Addr r) of
               None \<Rightarrow> \<lparr>rl_Addr = rl_Addr r, rl_Latency = 0\<rparr>
             | Some lat \<Rightarrow> \<lparr>rl_Addr = rl_Addr r, rl_Latency = lat\<rparr>)
         (enumerate 0 relays))"

definition bestRelay :: "RelayInfo slice_sorter \<Rightarrow> RelayInfo list \<Rightarrow> RelayInfo option" where
  "bestRelay sort_Slice relays =
     (let ranked = RankRelays sort_Slice relays in
      case find (\<lambda>r. rl_Latency r > 0) ranked of
        Some r \<Rightarrow> Some r
      | None \<Rightarrow> (case ranked of r # rs \<Rightarrow> Some r | [] \<Rightarrow> None))"

definition relayAddr :: "RelayInfo option \<Rightarrow> EndpointAddr option" where
  "relayAddr r = map_option rl_Addr r"

definition relayLat :: "RelayInfo option \<Rightarrow> duration" where
  "relayLat r = (case r of None \<Rightarrow> 0 | Some r \<Rightarrow> rl_Latency r)"

fun prioritize_loop :: "string \<Rightarrow> RelayInfo list \<Rightarrow> RelayInfo option \<times> RelayInfo list
    \<Rightarrow> RelayInfo option \<times> RelayInfo list" where
  "prioritize_loop key [] acc = acc"
| "prioritize_loop key (r # rs) (found, result) =
     (if AddrKey (rl_Addr r) = key then prioritize_loop key rs (Some r, result)
      else prioritize_loop key rs (found, result @ [r]))"

definition PrioritizeRelay :: "RelayInfo list \<Rightarrow> EndpointAddr \<Rightarrow> RelayInfo list" where
  "PrioritizeRelay relays target =
     (case prioritize_loop (AddrKey target) relays (None, []) of
        (found, result) \<Rightarrow>
          (case found of Some r \<Rightarrow> r | None \<Rightarrow> \<lparr>rl_Addr = target, rl_Latency = 0\<rparr>) # result)"

section \<open>Selection\<close>

definition no_decision :: TransportDecision where
  "no_decision = \<lparr>td_UseRelay = False, td_RelayAddr = None, td_P2PLatency = 0, td_RelayLatency = 0\<rparr>"

definition selectBestRelay :: "RelayInfo slice_sorter \<Rightarrow> RelayInfo list \<Rightarrow> TransportDecision" where
  "selectBestRelay sort_Slice relays =
     (let best = bestRelay sort_Slice relays in
      \<lparr>td_UseRelay = True, td_RelayAddr = relayAddr best, td_P2PLatency = 0,
       td_RelayLatency = relayLat best\<rparr>)"

definition selectPinned ::
    "RelayInfo slice_sorter \<Rightarrow> TransportConfig \<Rightarrow> RelayInfo list \<Rightarrow> TransportDecision" where
  "selectPinned sort_Slice cfg relays =
     (case tc_PinnedRelay cfg of
        None \<Rightarrow> selectBestRelay sort_Slice relays
      | Some pinned \<Rightarrow>
          (case find (\<lambda>r. AddrKey (rl_Addr r) = AddrKey pinned) relays of
             Some r \<Rightarrow> \<lparr>td_UseRelay = True, td_RelayAddr = Some (rl_Addr r), td_P2PLatency = 0,
                        td_RelayLatency = rl_Latency r\<rparr>
           | None \<Rightarrow> \<lparr>td_UseRelay = True, td_RelayAddr = Some pinned, td_P2PLatency = 0,
                      td_RelayLatency = 0\<rparr>))"

definition selectDynamic ::
    "RelayInfo slice_sorter \<Rightarrow> TransportConfig \<Rightarrow> duration \<Rightarrow> RelayInfo list \<Rightarrow> TransportDecision" where
  "selectDynamic sort_Slice cfg p2pLatency relays =
     (let best = bestRelay sort_Slice relays; bestLat = relayLat best in
      if p2pLatency = 0 \<and> best \<noteq> None
      then \<lparr>td_UseRelay = True, td_RelayAddr = relayAddr best, td_P2PLatency = 0,
            td_RelayLatency = bestLat\<rparr>
      else if best = None then no_decision\<lparr>td_P2PLatency := p2pLatency\<rparr>
      else if p2pLatency > wrap64 (bestLat + tc_Threshold cfg)
      then \<lparr>td_UseRelay = True, td_RelayAddr = relayAddr best, td_P2PLatency = p2pLatency,
            td_RelayLatency = bestLat\<rparr>
      else \<lparr>td_UseRelay = False, td_RelayAddr = None, td_P2PLatency = p2pLatency,
            td_RelayLatency = bestLat\<rparr>)"

definition SelectTransport ::
    "RelayInfo slice_sorter \<Rightarrow> TransportConfig \<Rightarrow> duration \<Rightarrow> RelayInfo list \<Rightarrow> TransportDecision" where
  "SelectTransport sort_Slice cfg p2pLatency relays =
     (if tc_Mode cfg = ModePinned then selectPinned sort_Slice cfg relays
      else if tc_Mode cfg = ModeRelay then selectBestRelay sort_Slice relays
      else if tc_Mode cfg = ModePeer then no_decision\<lparr>td_P2PLatency := p2pLatency\<rparr>
      else if tc_Mode cfg = ModeDynamic then selectDynamic sort_Slice cfg p2pLatency relays
      else no_decision\<lparr>td_P2PLatency := p2pLatency\<rparr>)"

section \<open>The monitor\<close>

text \<open>
  The monitor's state; \<open>tm_calls\<close> records the calls of \<open>onChange\<close> (when there is one), in order.
  A probe is what the prober returns during one evaluation: for the relays in their order, and
  for the peer (the latency only; the code ignores its error).
\<close>

record TransportMonitor =
  tm_cfg :: TransportConfig
  tm_peer :: EndpointAddr
  tm_relays :: "RelayInfo list"
  tm_current :: TransportDecision
  tm_hasOnChange :: bool
  tm_calls :: "TransportDecision list"

record probe =
  pb_Relay :: "nat \<Rightarrow> EndpointAddr \<Rightarrow> duration option"
  pb_Peer :: "EndpointAddr \<Rightarrow> duration"

definition NewTransportMonitor ::
    "TransportConfig \<Rightarrow> EndpointAddr \<Rightarrow> RelayInfo list \<Rightarrow> bool \<Rightarrow> TransportMonitor" where
  "NewTransportMonitor cfg peer relays hasOnChange =
     \<lparr>tm_cfg = cfg, tm_peer = peer, tm_relays = relays, tm_current = no_decision,
      tm_hasOnChange = hasOnChange, tm_calls = []\<rparr>"

definition evaluate ::
    "RelayInfo slice_sorter \<Rightarrow> probe \<Rightarrow> TransportMonitor \<Rightarrow> TransportMonitor" where
  "evaluate sort_Slice pb m =
     (let probed = ProbeRelays sort_Slice (pb_Relay pb) (tm_relays m);
          p2pLat = pb_Peer pb (tm_peer m);
          decision = SelectTransport sort_Slice (tm_cfg m) p2pLat probed;
          prev = tm_current m
      in m\<lparr>tm_current := decision, tm_relays := probed,
           tm_calls := (if tm_hasOnChange m \<and> td_UseRelay prev \<noteq> td_UseRelay decision
                        then tm_calls m @ [decision] else tm_calls m)\<rparr>)"

definition monitor_interval :: "TransportConfig \<Rightarrow> duration" where
  "monitor_interval cfg = (if tc_ProbeInterval cfg \<le> 0 then 5 * Minute else tc_ProbeInterval cfg)"

text \<open>
  The loop: an evaluation, then one per tick until the stop channel is closed. \<open>Tick pb\<close> and
  \<open>Stop\<close> are what \<open>select\<close> receives, in order.
\<close>

datatype monitor_event = Tick probe | Stop

fun monitor_select :: "RelayInfo slice_sorter \<Rightarrow> monitor_event list \<Rightarrow> TransportMonitor \<Rightarrow> TransportMonitor" where
  "monitor_select sort_Slice [] m = m"
| "monitor_select sort_Slice (Stop # evs) m = m"
| "monitor_select sort_Slice (Tick pb # evs) m = monitor_select sort_Slice evs (evaluate sort_Slice pb m)"

definition monitor_loop ::
    "RelayInfo slice_sorter \<Rightarrow> probe \<Rightarrow> monitor_event list \<Rightarrow> TransportMonitor \<Rightarrow> TransportMonitor" where
  "monitor_loop sort_Slice pb0 evs m = monitor_select sort_Slice evs (evaluate sort_Slice pb0 m)"

end
