(* ===== verification/Discovery_Props.thy ===== *)
theory Discovery_Props
  imports Discovery
begin

text \<open>
  Ranking, selection and monitoring of relays: what holds for every sorter that keeps the
  contract of \<open>sort.Slice\<close>, and where the behaviour differs from the documentation.
\<close>

section \<open>Ranking for any sorter\<close>

lemma relay_less_latency: "relay_less a b \<longleftrightarrow> latency_of a < latency_of b"
  by (simp add: relay_less_def latency_of_def Let_def)

lemma strict_weak_relay_less: "strict_weak relay_less"
  unfolding strict_weak_def relay_less_latency by (meson less_imp_not_less linorder_not_less order_trans)

locale relay_sort = slice_sort sort_Slice for sort_Slice :: "RelayInfo slice_sorter"
begin

lemma RankRelays_mset: "mset (RankRelays sort_Slice rs) = mset rs"
  by (simp add: RankRelays_def sort_mset)

lemma RankRelays_set [simp]: "set (RankRelays sort_Slice rs) = set rs"
  by (simp add: RankRelays_def)

lemma RankRelays_empty [simp]: "RankRelays sort_Slice rs = [] \<longleftrightarrow> rs = []"
  by (simp add: RankRelays_def)

lemma RankRelays_Nil [simp]: "RankRelays sort_Slice [] = []"
  by simp

lemma RankRelays_ordered: "sorted (map latency_of (RankRelays sort_Slice rs))"
  using sort_sorted [OF strict_weak_relay_less, of rs]
  by (simp add: RankRelays_def sorted_map relay_less_latency not_less)

lemma bestRelay_None [simp]: "bestRelay sort_Slice rs = None \<longleftrightarrow> rs = []"
  by (auto simp: bestRelay_def Let_def split: option.split list.split)

lemma bestRelay_Some:
  assumes "bestRelay sort_Slice rs = Some r"
  shows "r \<in> set rs"
    "x \<in> set rs \<Longrightarrow> 0 < rl_Latency x \<Longrightarrow> 0 < rl_Latency r \<and> rl_Latency r \<le> rl_Latency x"
proof -
  consider (found) "find (\<lambda>r. rl_Latency r > 0) (RankRelays sort_Slice rs) = Some r"
    | (none) "find (\<lambda>r. rl_Latency r > 0) (RankRelays sort_Slice rs) = None"
        "\<exists>ys. RankRelays sort_Slice rs = r # ys"
    using assms by (auto simp: bestRelay_def Let_def split: option.splits list.splits)
  then have "r \<in> set rs \<and>
      (\<forall>x \<in> set rs. 0 < rl_Latency x \<longrightarrow> 0 < rl_Latency r \<and> rl_Latency r \<le> rl_Latency x)"
  proof cases
    case found
    then have r: "r \<in> set rs" "0 < rl_Latency r"
      using find_Some_iff [of _ "RankRelays sort_Slice rs" r] by (auto dest!: nth_mem)
    have "rl_Latency r \<le> rl_Latency x" if "x \<in> set rs" "0 < rl_Latency x" for x
      using find_sort_least [OF strict_weak_relay_less found [unfolded RankRelays_def] that(1)] that(2) r(2)
      by (simp add: relay_less_def Let_def not_less split: if_splits)
    with r show ?thesis by blast
  next
    case none
    then have "r \<in> set rs" by (metis RankRelays_set list.set_intros(1))
    with none(1) show ?thesis by (auto simp: find_None_iff)
  qed
  then show "r \<in> set rs"
    "x \<in> set rs \<Longrightarrow> 0 < rl_Latency x \<Longrightarrow> 0 < rl_Latency r \<and> rl_Latency r \<le> rl_Latency x" by auto
qed

lemma ProbeRelays_addrs:
  "mset (map rl_Addr (ProbeRelays sort_Slice probe rs)) = mset (map rl_Addr rs)"
proof -
  let ?f = "\<lambda>(i, r). case probe i (rl_Addr r) of None \<Rightarrow> \<lparr>rl_Addr = rl_Addr r, rl_Latency = 0\<rparr>
    | Some lat \<Rightarrow> \<lparr>rl_Addr = rl_Addr r, rl_Latency = lat\<rparr>"
  have "mset (map rl_Addr (ProbeRelays sort_Slice probe rs)) = mset (map rl_Addr (map ?f (enumerate 0 rs)))"
    unfolding ProbeRelays_def mset_map [of rl_Addr] RankRelays_mset by simp
  also have "map rl_Addr (map ?f (enumerate 0 rs)) = map (rl_Addr \<circ> snd) (enumerate 0 rs)"
    by (auto split: option.split)
  also have "\<dots> = map rl_Addr rs" by (simp flip: map_map)
  finally show ?thesis .
qed

lemma ProbeRelays_empty [simp]: "ProbeRelays sort_Slice probe rs = [] \<longleftrightarrow> rs = []"
  using arg_cong [OF ProbeRelays_addrs [of probe rs], of size] by auto

end

interpretation insertion_relays: relay_sort insertion_sort
  by unfold_locales

lemma relay_sortI: "slice_sort sort_Slice \<Longrightarrow> relay_sort sort_Slice"
  by (simp add: relay_sort_def)

lemma insertion_contract: "slice_sort (insertion_sort :: RelayInfo slice_sorter)"
  by unfold_locales

definition s_relays :: "RelayInfo list" where
  "s_relays = [\<lparr>rl_Addr = zero_addr\<lparr>ea_Endpoint := 1\<rparr>, rl_Latency = 0\<rparr>,
     \<lparr>rl_Addr = zero_addr\<lparr>ea_Endpoint := 2\<rparr>, rl_Latency = 30 * Millisecond\<rparr>,
     \<lparr>rl_Addr = zero_addr\<lparr>ea_Endpoint := 3\<rparr>, rl_Latency = 20 * Millisecond\<rparr>]"

text \<open>C22. Ranking is a sorted permutation for every sorter that keeps \<open>sort.Slice\<close>'s contract: no
  relay is lost or duplicated, measured relays come first by latency and unprobed ones last.\<close>
theorem RankRelays_sorted:
  assumes "slice_sort sort_Slice"
  shows "mset (RankRelays sort_Slice relays) = mset relays \<and>
    sorted (map latency_of (RankRelays sort_Slice relays))"
  using relay_sort.RankRelays_mset [OF relay_sortI [OF assms]]
    relay_sort.RankRelays_ordered [OF relay_sortI [OF assms]] by blast

theorem RankRelays_sorted_witness:
  "mset (RankRelays insertion_sort s_relays) = mset s_relays \<and>
   sorted (map latency_of (RankRelays insertion_sort s_relays))"
  by (rule RankRelays_sorted [OF insertion_contract])

section \<open>Selection\<close>

text \<open>C21. Dynamic mode is right when relays have been measured: with a relay of positive latency and
  latencies that do not overflow, the relay is used if and only if the peer was not reachable
  (latency 0) or is slower than the fastest measured relay by more than the threshold, and the
  relay chosen is one with the least positive latency.\<close>
theorem dynamic_selection:
  assumes sorter: "slice_sort sort_Slice" and mode: "tc_Mode cfg = ModeDynamic"
    and relays: "r0 \<in> set relays" "0 < rl_Latency r0"
    and least: "\<And>r. r \<in> set relays \<Longrightarrow> 0 < rl_Latency r \<Longrightarrow> rl_Latency r0 \<le> rl_Latency r"
    and range: "- (2 ^ 63) \<le> rl_Latency r0 + tc_Threshold cfg" "rl_Latency r0 + tc_Threshold cfg < 2 ^ 63"
    and d: "d = SelectTransport sort_Slice cfg p2p relays"
  shows "(td_UseRelay d \<longleftrightarrow> p2p = 0 \<or> p2p > rl_Latency r0 + tc_Threshold cfg) \<and>
    td_RelayLatency d = rl_Latency r0 \<and> td_P2PLatency d = p2p \<and>
    (if td_UseRelay d
     then \<exists>r \<in> set relays. rl_Latency r = rl_Latency r0 \<and> td_RelayAddr d = Some (rl_Addr r)
     else td_RelayAddr d = None)"
proof -
  note rsort = relay_sortI [OF sorter]
  obtain r where best: "bestRelay sort_Slice relays = Some r"
    using relay_sort.bestRelay_None [OF rsort] relays(1) by fastforce
  note opt = relay_sort.bestRelay_Some [OF rsort best]
  have lat: "rl_Latency r = rl_Latency r0"
    using opt(1) opt(2) [OF relays] least [of r] by force
  have "wrap64 (rl_Latency r0 + tc_Threshold cfg) = rl_Latency r0 + tc_Threshold cfg"
    by (rule wrap64_id [OF range])
  with best opt(1) lat show ?thesis
    by (auto simp: d SelectTransport_def mode selectDynamic_def Let_def relayLat_def relayAddr_def)
qed

theorem dynamic_selection_witness:
  "td_UseRelay (SelectTransport insertion_sort DefaultTransportConfig (71 * Millisecond) s_relays) \<and>
   \<not> td_UseRelay (SelectTransport insertion_sort DefaultTransportConfig (70 * Millisecond) s_relays)"
proof -
  let ?r = "\<lparr>rl_Addr = zero_addr\<lparr>ea_Endpoint := 3\<rparr>, rl_Latency = 20 * Millisecond\<rparr>"
  have "?r \<in> set s_relays" "0 < rl_Latency ?r" "tc_Mode DefaultTransportConfig = ModeDynamic"
    "\<And>r. r \<in> set s_relays \<Longrightarrow> 0 < rl_Latency r \<Longrightarrow> rl_Latency ?r \<le> rl_Latency r"
    by (auto simp: s_relays_def DefaultTransportConfig_def)
  from dynamic_selection [OF insertion_contract this(3,1,2,4)]
  show ?thesis by (simp add: DefaultTransportConfig_def)
qed

text \<open>Dynamic mode takes an unprobed relay for an instantaneous one (a defect): when no relay has
  been measured, their latency 0 is compared as if it were a measurement, so that a working peer
  connection slower than the threshold is given up for a relay nobody has reached.\<close>
theorem dynamic_prefers_unprobed:
  assumes "slice_sort sort_Slice" "tc_Mode cfg = ModeDynamic"
    and "relays \<noteq> []" "\<And>r. r \<in> set relays \<Longrightarrow> rl_Latency r = 0"
    and "0 \<le> tc_Threshold cfg" "tc_Threshold cfg < 2 ^ 63" "tc_Threshold cfg < p2p"
  shows "td_UseRelay (SelectTransport sort_Slice cfg p2p relays) \<and>
    td_RelayLatency (SelectTransport sort_Slice cfg p2p relays) = 0"
proof -
  note rsort = relay_sortI [OF assms(1)]
  obtain r where best: "bestRelay sort_Slice relays = Some r"
    using relay_sort.bestRelay_None [OF rsort] assms(3) by fastforce
  have "rl_Latency r = 0" using relay_sort.bestRelay_Some(1) [OF rsort best] assms(4) by simp
  moreover have "wrap64 (tc_Threshold cfg) = tc_Threshold cfg"
    using assms(5,6) by (intro wrap64_id) simp_all
  ultimately show ?thesis
    using best assms(2,7) by (simp add: SelectTransport_def selectDynamic_def Let_def relayLat_def)
qed

theorem dynamic_prefers_unprobed_witness:
  "td_UseRelay (SelectTransport insertion_sort DefaultTransportConfig (51 * Millisecond)
     [\<lparr>rl_Addr = zero_addr, rl_Latency = 0\<rparr>])"
  using dynamic_prefers_unprobed [OF insertion_contract, of DefaultTransportConfig
      "[\<lparr>rl_Addr = zero_addr, rl_Latency = 0\<rparr>]" "51 * Millisecond"]
  by (simp add: DefaultTransportConfig_def)

text \<open>The fixed modes do what they say: peer mode (and an unknown mode) never uses a relay; pinned
  mode with a pinned relay uses exactly that relay, listed or not; relay mode, and pinned mode
  without a relay to pin, use a listed relay with the least positive latency; and with no relay
  at all these two decide for a relay without an address.\<close>
theorem fixed_modes:
  assumes sorter: "slice_sort sort_Slice" and d: "d = SelectTransport sort_Slice cfg p2p relays"
  shows "(tc_Mode cfg \<notin> {ModePinned, ModeRelay, ModeDynamic} \<longrightarrow> \<not> td_UseRelay d \<and> td_RelayAddr d = None) \<and>
    (tc_Mode cfg = ModePinned \<and> tc_PinnedRelay cfg = Some pinned \<longrightarrow>
       td_UseRelay d \<and> (\<exists>a. td_RelayAddr d = Some a \<and> same_endpoint a pinned)) \<and>
    (tc_Mode cfg = ModeRelay \<or> tc_Mode cfg = ModePinned \<and> tc_PinnedRelay cfg = None \<longrightarrow>
       td_UseRelay d \<and>
       (if relays = [] then td_RelayAddr d = None
        else \<exists>r \<in> set relays. td_RelayAddr d = Some (rl_Addr r) \<and>
          (\<forall>x \<in> set relays. 0 < rl_Latency x \<longrightarrow> 0 < rl_Latency r \<and> rl_Latency r \<le> rl_Latency x)))"
proof -
  note rsort = relay_sortI [OF sorter]
  have pinned: "td_UseRelay (selectPinned sort_Slice cfg relays) \<and>
      (\<exists>a. td_RelayAddr (selectPinned sort_Slice cfg relays) = Some a \<and> same_endpoint a pinned)"
    if "tc_PinnedRelay cfg = Some pinned"
    using that by (auto simp: selectPinned_def find_Some_iff AddrKey_eq_iff split: option.split)
  have best: "td_UseRelay (selectBestRelay sort_Slice relays) \<and>
      (if relays = [] then td_RelayAddr (selectBestRelay sort_Slice relays) = None
       else \<exists>r \<in> set relays. td_RelayAddr (selectBestRelay sort_Slice relays) = Some (rl_Addr r) \<and>
         (\<forall>x \<in> set relays. 0 < rl_Latency x \<longrightarrow> 0 < rl_Latency r \<and> rl_Latency r \<le> rl_Latency x))"
  proof (cases "bestRelay sort_Slice relays")
    case None
    then have "relays = []" using relay_sort.bestRelay_None [OF rsort] by simp
    with None show ?thesis by (simp add: selectBestRelay_def relayAddr_def)
  next
    case (Some r)
    then have "relays \<noteq> []" using relay_sort.bestRelay_None [OF rsort, of relays] by auto
    with Some relay_sort.bestRelay_Some [OF rsort Some] show ?thesis
      by (auto simp: selectBestRelay_def relayAddr_def)
  qed
  have "selectPinned sort_Slice cfg relays = selectBestRelay sort_Slice relays"
    if "tc_PinnedRelay cfg = None"
    using that by (simp add: selectPinned_def)
  with pinned best show ?thesis
    unfolding d SelectTransport_def by (auto simp: no_decision_def)
qed

theorem fixed_modes_witness:
  "td_RelayAddr (SelectTransport insertion_sort
     (DefaultTransportConfig\<lparr>tc_Mode := ModeRelay\<rparr>) 5 []) = None \<and>
   td_UseRelay (SelectTransport insertion_sort
     (DefaultTransportConfig\<lparr>tc_Mode := ModeRelay\<rparr>) 5 [])"
  using fixed_modes [OF insertion_contract refl, of "DefaultTransportConfig\<lparr>tc_Mode := ModeRelay\<rparr>"]
  by simp

text \<open>\<open>PrioritizeRelay\<close> puts the target first and keeps the others: the head is the target relay
  (the last listed entry with its address, or a new unprobed one), the rest are the relays with
  other addresses in their order.\<close>
theorem PrioritizeRelay_target_first:
  "\<exists>r. PrioritizeRelay relays target =
      r # filter (\<lambda>x. \<not> same_endpoint (rl_Addr x) target) relays \<and>
    same_endpoint (rl_Addr r) target \<and>
    (if \<exists>x \<in> set relays. same_endpoint (rl_Addr x) target then r \<in> set relays
     else r = \<lparr>rl_Addr = target, rl_Latency = 0\<rparr>)"
proof -
  let ?p = "\<lambda>x. same_endpoint (rl_Addr x) target"
  have loop: "prioritize_loop (AddrKey target) rs (found, acc) =
      (case filter ?p rs of [] \<Rightarrow> found | x # xs \<Rightarrow> Some (last (x # xs)), acc @ filter (\<lambda>x. \<not> ?p x) rs)"
    for rs found acc
    by (induction rs arbitrary: found acc) (auto simp: AddrKey_eq_iff split: list.split)
  show ?thesis
  proof (cases "filter ?p relays")
    case Nil
    then show ?thesis by (auto simp: PrioritizeRelay_def loop filter_empty_conv)
  next
    case (Cons x xs)
    have "last (x # xs) \<in> set (x # xs)" by (rule last_in_set) simp
    then have "last (x # xs) \<in> set (filter ?p relays)" by (simp only: Cons)
    then have r: "last (x # xs) \<in> set relays" "?p (last (x # xs))"
      unfolding set_filter by blast+
    have eq: "PrioritizeRelay relays target = last (x # xs) # filter (\<lambda>x. \<not> ?p x) relays"
      by (simp add: PrioritizeRelay_def loop Cons)
    have "\<exists>x \<in> set relays. ?p x" using r by (rule rev_bexI)
    with eq r show ?thesis by (intro exI [of _ "last (x # xs)"]) (simp only: if_True simp_thms)
  qed
qed

theorem PrioritizeRelay_target_first_witness:
  "\<exists>r. PrioritizeRelay s_relays zero_addr = r # filter (\<lambda>x. \<not> same_endpoint (rl_Addr x) zero_addr) s_relays"
  using PrioritizeRelay_target_first [of s_relays zero_addr] by blast

section \<open>Monitoring\<close>

text \<open>The loop as a run: one evaluation per probe until the stop.\<close>

definition monitor_run ::
    "RelayInfo slice_sorter \<Rightarrow> probe list \<Rightarrow> TransportMonitor \<Rightarrow> TransportMonitor" where
  "monitor_run sort_Slice pbs m = foldl (\<lambda>m pb. evaluate sort_Slice pb m) m pbs"

fun ticks_before_stop :: "monitor_event list \<Rightarrow> probe list" where
  "ticks_before_stop [] = []"
| "ticks_before_stop (Stop # evs) = []"
| "ticks_before_stop (Tick pb # evs) = pb # ticks_before_stop evs"

lemma monitor_loop_run:
  "monitor_loop sort_Slice pb0 evs m = monitor_run sort_Slice (pb0 # ticks_before_stop evs) m"
proof -
  have "monitor_select sort_Slice evs m = monitor_run sort_Slice (ticks_before_stop evs) m" for m
    by (induction evs arbitrary: m rule: ticks_before_stop.induct) (simp_all add: monitor_run_def)
  then show ?thesis by (simp add: monitor_loop_def) (simp add: monitor_run_def)
qed

definition calls_ok :: "TransportMonitor \<Rightarrow> bool" where
  "calls_ok m \<longleftrightarrow>
     (\<forall>i < length (tm_calls m). td_UseRelay (tm_calls m ! i) \<longleftrightarrow> even i) \<and>
     (td_UseRelay (tm_current m) \<longleftrightarrow> odd (length (tm_calls m)))"

lemma evaluate_calls_ok:
  assumes "tm_hasOnChange m" "calls_ok m"
  shows "calls_ok (evaluate sort_Slice pb m) \<and> tm_hasOnChange (evaluate sort_Slice pb m)"
  using assms by (auto simp: calls_ok_def evaluate_def Let_def nth_append less_Suc_eq)

lemma run_calls_ok:
  "tm_hasOnChange m \<Longrightarrow> calls_ok m \<Longrightarrow> calls_ok (monitor_run sort_Slice pbs m)"
  unfolding monitor_run_def
  by (induction pbs arbitrary: m) (simp_all add: evaluate_calls_ok)

lemma run_relays:
  assumes "slice_sort sort_Slice"
  shows "mset (map rl_Addr (tm_relays (monitor_run sort_Slice pbs m))) = mset (map rl_Addr (tm_relays m))"
  unfolding monitor_run_def
proof (induction pbs arbitrary: m)
  case (Cons pb pbs)
  then show ?case
    using relay_sort.ProbeRelays_addrs [OF relay_sortI [OF assms]] by (simp add: evaluate_def Let_def)
qed simp

text \<open>What a subscriber of the monitor knows: after any probes, up to the stop, the calls of
  \<open>onChange\<close> alternate between "relay" and "peer", beginning with "relay", and whether a relay is
  in use now is what the last call said (or "peer" without a call); and the monitor probes the
  same relays for ever.\<close>
theorem monitor_calls_alternate:
  assumes "slice_sort sort_Slice"
    and "m = monitor_loop sort_Slice pb0 evs (NewTransportMonitor cfg peer relays True)"
  shows "(\<forall>i < length (tm_calls m). td_UseRelay (tm_calls m ! i) \<longleftrightarrow> even i) \<and>
    (td_UseRelay (tm_current m) \<longleftrightarrow> odd (length (tm_calls m))) \<and>
    mset (map rl_Addr (tm_relays m)) = mset (map rl_Addr relays)"
proof -
  have "calls_ok m"
    unfolding assms(2) monitor_loop_run
    by (rule run_calls_ok) (simp_all add: NewTransportMonitor_def calls_ok_def no_decision_def)
  moreover have "mset (map rl_Addr (tm_relays m)) = mset (map rl_Addr relays)"
    unfolding assms(2) monitor_loop_run run_relays [OF assms(1)] by (simp add: NewTransportMonitor_def)
  ultimately show ?thesis by (simp add: calls_ok_def)
qed

definition s_probe :: "duration \<Rightarrow> probe" where
  "s_probe lat = \<lparr>pb_Relay = (\<lambda>i a. Some (20 * Millisecond)), pb_Peer = (\<lambda>a. lat)\<rparr>"

theorem monitor_calls_alternate_witness:
  "mset (map rl_Addr (tm_relays (monitor_loop insertion_sort (s_probe 0) [Tick (s_probe 5), Stop, Tick (s_probe 0)]
     (NewTransportMonitor DefaultTransportConfig zero_addr s_relays True)))) = mset (map rl_Addr s_relays)"
  using monitor_calls_alternate [OF insertion_contract refl] by blast

text \<open>The monitor does not report a change of relay (against its documentation, which promises a
  call when the decision changes): in relay mode \<open>onChange\<close> is called once, with the first
  decision, however often the best relay changes, while the current decision follows the last
  probe.\<close>
theorem monitor_misses_relay_change:
  assumes "slice_sort sort_Slice" "tc_Mode cfg = ModeRelay"
    and "m = monitor_loop sort_Slice pb0 evs (NewTransportMonitor cfg peer relays True)"
  shows "tm_calls m = [SelectTransport sort_Slice cfg 0 (ProbeRelays sort_Slice (pb_Relay pb0) relays)] \<and>
    tm_current m = SelectTransport sort_Slice cfg 0 (tm_relays m)"
proof -
  have sel: "SelectTransport sort_Slice cfg p rs = selectBestRelay sort_Slice rs" for p rs
    using assms(2) by (simp add: SelectTransport_def)
  have use: "td_UseRelay (selectBestRelay sort_Slice rs)" for rs
    by (simp add: selectBestRelay_def Let_def)
  have run: "tm_calls (monitor_run sort_Slice pbs m0) = tm_calls m0 \<and>
      tm_current (monitor_run sort_Slice pbs m0) =
        selectBestRelay sort_Slice (tm_relays (monitor_run sort_Slice pbs m0))"
    if "tm_cfg m0 = cfg" "tm_current m0 = selectBestRelay sort_Slice (tm_relays m0)" for pbs m0
    using that
  proof (induction pbs arbitrary: m0)
    case (Cons pb pbs)
    then show ?case using Cons.IH [of "evaluate sort_Slice pb m0"]
      by (simp add: monitor_run_def evaluate_def Let_def sel use)
  qed (simp add: monitor_run_def)
  let ?m1 = "evaluate sort_Slice pb0 (NewTransportMonitor cfg peer relays True)"
  have m1: "tm_cfg ?m1 = cfg" "tm_current ?m1 = selectBestRelay sort_Slice (tm_relays ?m1)"
    "tm_calls ?m1 = [selectBestRelay sort_Slice (ProbeRelays sort_Slice (pb_Relay pb0) relays)]"
    by (simp_all add: evaluate_def Let_def NewTransportMonitor_def sel use no_decision_def)
  have "m = monitor_run sort_Slice (ticks_before_stop evs) ?m1"
    unfolding assms(3) monitor_loop_run by (simp add: monitor_run_def)
  with run [OF m1(1,2), of "ticks_before_stop evs"] m1(3) show ?thesis by (simp add: sel)
qed

theorem monitor_misses_relay_change_witness:
  "length (tm_calls (monitor_loop insertion_sort (s_probe 0) [Tick (s_probe 5)]
     (NewTransportMonitor (DefaultTransportConfig\<lparr>tc_Mode := ModeRelay\<rparr>) zero_addr s_relays True))) = 1"
  using monitor_misses_relay_change [OF insertion_contract _ refl,
    of "DefaultTransportConfig\<lparr>tc_Mode := ModeRelay\<rparr>" "s_probe 0" "[Tick (s_probe 5)]" zero_addr s_relays]
  by simp

end
