(* ===== verification/Endpoint.thy ===== *)
theory Endpoint
  imports Registrar_Inv Discovery
begin

text \<open>
  The endpoint side of the swarm, \<^verbatim>\<open>swarm/endpoint.go\<close>: its record and every operation. An
  operation that calls the registrar takes it and returns it. \<open>AutoEnroll\<close> waits for its context
  or its timer: what it waits for is a list of events, in order, each timer event with what
  others did at the registrar in the meantime; when the list is used up it is still waiting. The
  model of the monitor that \<open>Discover\<close> starts is the record of \<open>Discovery\<close>.
\<close>

record Endpoint =
  en_publicKey :: bytes
  en_privateKey :: bytes
  en_addr :: "EndpointAddr option"
  en_token :: string
  en_state :: byte
  en_requestID :: string
  en_fingerprint :: string
  en_registrarKey :: bytes
  en_relays :: "RelayInfo list"
  en_transportCfg :: TransportConfig
  en_decision :: "TransportDecision option"
  en_monitor :: "TransportMonitor option"

datatype endpoint_error =
    EnKeyGen
  | EnWrongState byte
  | EnRegistrar reg_error
  | EnNoEnrollment
  | EnNotRegistered
  | EnFingerprint
  | EnDenied
  | EnCancelled

definition NewEndpoint :: "(bytes \<times> bytes) option \<Rightarrow> endpoint_error + Endpoint" where
  "NewEndpoint key =
     (case key of
        None \<Rightarrow> Inl EnKeyGen
      | Some (pub, priv) \<Rightarrow> Inr
          \<lparr>en_publicKey = pub, en_privateKey = priv, en_addr = None, en_token = [],
           en_state = StateUnregistered, en_requestID = [], en_fingerprint = [],
           en_registrarKey = [], en_relays = [], en_transportCfg = DefaultTransportConfig,
           en_decision = None, en_monitor = None\<rparr>)"

definition SetTransportConfig :: "TransportConfig \<Rightarrow> Endpoint \<Rightarrow> Endpoint" where
  "SetTransportConfig cfg e = e\<lparr>en_transportCfg := cfg\<rparr>"

section \<open>Enrollment\<close>

definition applyStatus :: "EnrollStatus \<Rightarrow> Endpoint \<Rightarrow> Endpoint" where
  "applyStatus s e =
     (if st_State s = StateRegistered then
        (case st_Result s of
           Some res \<Rightarrow> e\<lparr>en_addr := Some (res_Address res), en_token := res_Token res,
                         en_state := StateRegistered\<rparr>
         | None \<Rightarrow> e\<lparr>en_state := StateRegistered\<rparr>)
      else if st_State s = StatePending then e\<lparr>en_state := StatePending\<rparr>
      else if st_State s = StateDenied then e\<lparr>en_state := StateDenied\<rparr>
      else e)"

definition EndpointEnroll ::
    "string \<Rightarrow> byte \<Rightarrow> entropy \<Rightarrow> time \<Rightarrow> Endpoint \<Rightarrow> Registrar
     \<Rightarrow> (endpoint_error + EnrollResponse) \<times> Endpoint \<times> Registrar" where
  "EndpointEnroll fingerprint roleFlags ent now e reg =
     (if en_state e \<noteq> StateUnregistered then (Inl (EnWrongState (en_state e)), e, reg)
      else
        let e1 = e\<lparr>en_state := StateRequesting, en_fingerprint := fingerprint\<rparr>
        in case Enroll \<lparr>req_PublicKey = en_publicKey e, req_Fingerprint = fingerprint,
                        req_RoleFlags = roleFlags\<rparr> ent now reg of
             (Inl err, reg1) \<Rightarrow> (Inl (EnRegistrar err), e1\<lparr>en_state := StateUnregistered\<rparr>, reg1)
           | (Inr resp, reg1) \<Rightarrow>
               (Inr resp, e1\<lparr>en_requestID := resp_RequestID resp, en_state := StateChallengeIssued\<rparr>, reg1))"

definition EndpointConfirm ::
    "prims \<Rightarrow> time \<Rightarrow> bytes \<Rightarrow> Endpoint \<Rightarrow> Registrar
     \<Rightarrow> (endpoint_error + EnrollStatus) \<times> Endpoint \<times> Registrar" where
  "EndpointConfirm P now challenge e reg =
     (if en_state e \<noteq> StateChallengeIssued then (Inl (EnWrongState (en_state e)), e, reg)
      else
        let sig = ed_Sign P (en_privateKey e) challenge;
            e1 = e\<lparr>en_state := StateChallengeResponse\<rparr>
        in case ConfirmEnrollment P now \<lparr>conf_RequestID = en_requestID e, conf_Signature = sig\<rparr> reg of
             (Inl err, reg1) \<Rightarrow> (Inl (EnRegistrar err), e1\<lparr>en_state := StateUnregistered\<rparr>, reg1)
           | (Inr status, reg1) \<Rightarrow> (Inr status, applyStatus status e1, reg1))"

definition Poll :: "prims \<Rightarrow> Endpoint \<Rightarrow> Registrar \<Rightarrow> (endpoint_error + EnrollStatus) \<times> Endpoint" where
  "Poll P e reg =
     (if en_requestID e = [] then (Inl EnNoEnrollment, e)
      else
        let sig = ed_Sign P (en_privateKey e) (poll_message (en_requestID e))
        in case PollEnrollment P (en_requestID e) sig reg of
             Inl err \<Rightarrow> (Inl (EnRegistrar err), e)
           | Inr status \<Rightarrow> (Inr status, applyStatus status e))"

text \<open>What the polling loop waits for. A timer event carries what others did at the registrar.\<close>

datatype wait_event = Cancelled | Fired "reg_op list"

abbreviation (input) maxInterval :: duration where "maxInterval \<equiv> 60 * Second"

definition next_interval :: "duration \<Rightarrow> duration" where
  "next_interval interval =
     (let doubled = wrap64 (interval * 2) in if doubled > maxInterval then maxInterval else doubled)"

text \<open>
  The polling loop. The result is \<open>None\<close> while it waits; the list is the durations its timer was
  set to, in order, after the first.
\<close>

fun poll_loop ::
    "prims \<Rightarrow> wait_event list \<Rightarrow> duration \<Rightarrow> Endpoint \<Rightarrow> Registrar
     \<Rightarrow> (endpoint_error + unit) option \<times> Endpoint \<times> Registrar \<times> duration list" where
  "poll_loop P [] interval e reg = (None, e, reg, [])"
| "poll_loop P (Cancelled # evs) interval e reg = (Some (Inl EnCancelled), e, reg, [])"
| "poll_loop P (Fired ops # evs) interval e reg =
     (let reg1 = run_ops (reg_exec P) ops reg in
      case Poll P e reg1 of
        (Inl err, e1) \<Rightarrow> (Some (Inl err), e1, reg1, [])
      | (Inr status, e1) \<Rightarrow>
          if st_State status = StateRegistered then (Some (Inr ()), e1, reg1, [])
          else if st_State status = StateDenied then (Some (Inl EnDenied), e1, reg1, [])
          else
            let interval1 = (if st_State status = StatePending then next_interval interval else interval)
            in case poll_loop P evs interval1 e1 reg1 of
                 (res, e2, reg2, waits) \<Rightarrow> (res, e2, reg2, interval1 # waits))"

definition first_interval :: "duration \<Rightarrow> duration" where
  "first_interval pollInterval = (if pollInterval \<le> 0 then 5 * Second else pollInterval)"

text \<open>\<open>derived\<close> is what \<open>DeriveFingerprint\<close> returns for the endpoint's configuration.\<close>

definition AutoEnroll ::
    "prims \<Rightarrow> string option \<Rightarrow> byte \<Rightarrow> duration \<Rightarrow> entropy \<Rightarrow> time \<Rightarrow> wait_event list
     \<Rightarrow> Endpoint \<Rightarrow> Registrar
     \<Rightarrow> (endpoint_error + unit) option \<times> Endpoint \<times> Registrar \<times> duration list" where
  "AutoEnroll P derived role pollInterval ent now evs e reg =
     (case (if role \<noteq> RoleRelay then derived else Some []) of
        None \<Rightarrow> (Some (Inl EnFingerprint), e, reg, [])
      | Some fp \<Rightarrow>
          (case EndpointEnroll fp role ent now e reg of
             (Inl err, e1, reg1) \<Rightarrow> (Some (Inl err), e1, reg1, [])
           | (Inr resp, e1, reg1) \<Rightarrow>
               (case EndpointConfirm P now (resp_Challenge resp) e1 reg1 of
                  (Inl err, e2, reg2) \<Rightarrow> (Some (Inl err), e2, reg2, [])
                | (Inr status, e2, reg2) \<Rightarrow>
                    if st_State status = StateRegistered then (Some (Inr ()), e2, reg2, [])
                    else if st_State status = StateDenied then (Some (Inl EnDenied), e2, reg2, [])
                    else
                      let interval = first_interval pollInterval
                      in case poll_loop P evs interval e2 reg2 of
                           (res, e3, reg3, waits) \<Rightarrow> (res, e3, reg3, interval # waits))))"

section \<open>Activation and messages\<close>

definition Activate ::
    "prims \<Rightarrow> time \<Rightarrow> Endpoint \<Rightarrow> Registrar \<Rightarrow> (endpoint_error + unit) \<times> Endpoint \<times> Registrar" where
  "Activate P now e reg =
     (if en_state e \<noteq> StateRegistered then (Inl (EnWrongState (en_state e)), e, reg)
      else case en_addr e of
        None \<Rightarrow> (Inl EnNotRegistered, e, reg)
      | Some addr \<Rightarrow>
          (case ActivateEndpoint P now addr (en_token e) reg of
             (Inl err, reg1) \<Rightarrow> (Inl (EnRegistrar err), e, reg1)
           | (Inr u, reg1) \<Rightarrow>
               let e1 = e\<lparr>en_state := StateActive\<rparr>
               in case FullRegistrationInfo addr reg1 of
                    Inl err \<Rightarrow> (Inl (EnRegistrar err), e1, reg1)
                  | Inr info \<Rightarrow>
                      (Inr (), e1\<lparr>en_registrarKey := ri_RegistrarKey info,
                                  en_relays := ri_Relays info\<rparr>, reg1)))"

text \<open>\<open>Discover\<close>; the started monitor is the new record, before its first evaluation.\<close>

definition StopMonitor :: "Endpoint \<Rightarrow> Endpoint" where
  "StopMonitor e = e\<lparr>en_monitor := None\<rparr>"

definition Discover ::
    "RelayInfo slice_sorter \<Rightarrow> probe \<Rightarrow> EndpointAddr \<Rightarrow> Registrar option \<Rightarrow> Endpoint
     \<Rightarrow> (endpoint_error + TransportDecision) \<times> Endpoint" where
  "Discover sort_Slice pb peer reg e =
     (if en_state e \<noteq> StateActive then (Inl (EnWrongState (en_state e)), e)
      else
        let relays =
              (case reg of
                 None \<Rightarrow> en_relays e
               | Some r \<Rightarrow>
                   (case LookupReachability peer r of
                      None \<Rightarrow> en_relays e
                    | Some reach \<Rightarrow>
                        (case rc_Relay reach of
                           None \<Rightarrow> en_relays e
                         | Some route \<Rightarrow> PrioritizeRelay (en_relays e) (rr_RelayAddr route))));
            probed = ProbeRelays sort_Slice (pb_Relay pb) relays;
            p2pLat = pb_Peer pb peer;
            decision = SelectTransport sort_Slice (en_transportCfg e) p2pLat probed;
            e1 = e\<lparr>en_relays := probed, en_decision := Some decision\<rparr>
        in (Inr decision,
            if tc_Mode (en_transportCfg e) = ModeDynamic
            then (StopMonitor e1)\<lparr>en_monitor :=
                   Some (NewTransportMonitor (en_transportCfg e) peer probed True)\<rparr>
            else e1))"

definition EndpointSetRelayRoute ::
    "prims \<Rightarrow> time \<Rightarrow> EndpointAddr \<Rightarrow> Endpoint \<Rightarrow> Registrar \<Rightarrow> (endpoint_error + unit) \<times> Registrar" where
  "EndpointSetRelayRoute P now via e reg =
     (if en_state e \<noteq> StateActive then (Inl (EnWrongState (en_state e)), reg)
      else case en_addr e of
        None \<Rightarrow> (Inl EnNotRegistered, reg)
      | Some addr \<Rightarrow>
          (case SetRelayRoute P now addr (en_token e) via reg of
             (Inl err, reg1) \<Rightarrow> (Inl (EnRegistrar err), reg1)
           | (Inr u, reg1) \<Rightarrow> (Inr (), reg1)))"

definition PrepareMessage ::
    "prims \<Rightarrow> EndpointAddr \<Rightarrow> bytes \<Rightarrow> Endpoint \<Rightarrow> endpoint_error + SwarmMessage" where
  "PrepareMessage P to payload e =
     (if en_state e \<noteq> StateActive then Inl (EnWrongState (en_state e))
      else case en_addr e of
        None \<Rightarrow> Inl EnNotRegistered
      | Some addr \<Rightarrow>
          let sig = ed_Sign P (en_privateKey e) payload
          in Inr \<lparr>msg_From = addr, msg_To = to, msg_Token = en_token e, msg_Payload = payload,
                  msg_Signature = sig\<rparr>)"

end
