(* ===== verification/Endpoint_Props.thy ===== *)
theory Endpoint_Props
  imports Endpoint Controller_Props
begin

text \<open>
  The properties of the endpoint: zero-touch enrollment against the registrar, the polling
  intervals, messages another party accepts, and what a restarted endpoint cannot do.
\<close>

section \<open>Zero-touch enrollment\<close>

lemma not_isl: "\<not> isl x \<longleftrightarrow> (\<exists>y. x = Inr y)"
  by (cases x) auto

text \<open>Enrolling a fingerprint nobody enrolled, and confirming it when it is pre-approved.\<close>

lemma enroll_confirm_preapproved:
  assumes inv: "reg_inv P r" and ids: "ids_inv r"
    and e: "NewEndpoint (Some (pub, priv)) = Inr e" "length pub = PublicKeySize"
    and fp: "fp \<noteq> []" "gm_get (rg_byFingerprint r) fp = None"
    and pre: "gm_get (rg_preApproved r) fp = Some m"
    and less: "countEndpoints (am_Domain m) (am_Group m) r < maxEndpointsPerGroup"
    and role: "RoleOf role \<in> {RoleClient, RoleAgent}"
    and ent: "randomRequestID ent = Some rid" "gm_get (rg_pending r) rid = None" "ent_nonce ent = Some nonce"
    and sig: "ed_Verify P pub nonce (ed_Sign P priv nonce)"
    and addr: "addr = \<lparr>ea_Domain = am_Domain m, ea_Group = am_Group m,
      ea_Endpoint = word_of_nat (Suc (countEndpoints (am_Domain m) (am_Group m) r)), ea_RoleFlags = role\<rparr>"
    and ep: "ep = \<lparr>ep_Addr = addr, ep_PublicKey = pub, ep_State = StateRegistered, ep_Token = t, ep_Fingerprint = fp\<rparr>"
    and sign: "SignToken P (epClaims ep now (rg_tokenTTL r)) (rg_privateKey r) = Inr t"
  obtains e2 r2 where
    "AutoEnroll P (Some fp) role p ent now evs e r = (Some (Inr ()), e2, r2, [])"
    "en_state e2 = StateRegistered" "en_addr e2 = Some addr" "en_token e2 = t"
    "en_publicKey e2 = pub" "en_privateKey e2 = priv"
    "getEndpoint addr r2 = Some ep" "rg_publicKey r2 = rg_publicKey r"
    "rg_privateKey r2 = rg_privateKey r" "rg_tokenTTL r2 = rg_tokenTTL r"
proof -
  define pe where "pe = \<lparr>pe_RequestID = rid, pe_PublicKey = pub, pe_Fingerprint = fp,
    pe_RoleFlags = role, pe_Challenge = nonce, pe_CreatedAt = now, pe_State = StateChallengeIssued,
    pe_Address = zero_addr, pe_Token = []\<rparr>"
  define r1 where "r1 = r\<lparr>rg_pending := gm_put rid pe (rg_pending r),
    rg_byFingerprint := gm_put fp rid (rg_byFingerprint r)\<rparr>"
  have enroll: "Enroll \<lparr>req_PublicKey = pub, req_Fingerprint = fp, req_RoleFlags = role\<rparr> ent now r =
      (Inr \<lparr>resp_RequestID = rid, resp_Challenge = nonce\<rparr>, r1)"
    using role e(2) fp ent by (auto simp: Enroll_def Let_def existingEnrollment_def r1_def pe_def)
  have "fresh_op (OpEnroll \<lparr>req_PublicKey = pub, req_Fingerprint = fp, req_RoleFlags = role\<rparr> ent now) r"
    using ent by simp
  from Enroll_inv [OF inv this] have inv1: "reg_inv P r1" by (simp add: enroll)
  have ids1: "ids_dense d g r1" for d g
    using ids by (simp add: r1_def ids_inv_def ids_dense_def)
  have cnt1: "countEndpoints d g r1 = countEndpoints d g r" for d g by (simp add: r1_def)
  have pend: "gm_get (rg_pending r1) rid = Some pe" by (simp add: r1_def)
  have none: "findByFingerprint (pe_Fingerprint pe) r1 = None"
    by (rule unregistered_find_None [OF inv1 pend]) (simp add: pe_def)
  have new: "addr = newAddr pe (am_Domain m) (am_Group m)
      (word_of_nat (Suc (countEndpoints (am_Domain m) (am_Group m) r1)))"
    by (simp add: addr newAddr_def pe_def cnt1 del: of_nat_Suc)
  have claims: "claimsFor pe addr now (rg_tokenTTL r1) = epClaims ep now (rg_tokenTTL r)"
    by (simp add: claimsFor_def epClaims_def ep addr pe_def r1_def)
  obtain x where reg: "registerApproved P now pe (am_Domain m) (am_Group m) r1 =
      (Inr (pe\<lparr>pe_Address := addr, pe_Token := t, pe_State := StateRegistered\<rparr>),
       storeEndpoint addr (pe_PublicKey pe) t (pe_Fingerprint pe) (r1\<lparr>rg_nextID := x\<rparr>))"
  proof -
    have "countEndpoints (am_Domain m) (am_Group m) r1 < 65534" using less by (simp add: cnt1)
    moreover have "SignToken P (claimsFor pe addr now (rg_tokenTTL r1)) (rg_privateKey r1) = Inr t"
      unfolding claims using sign by (simp add: r1_def)
    ultimately show ?thesis using registerApproved_succeeds [OF ids1 _ none new] that by metis
  qed
  define r2 where "r2 = (storeEndpoint addr pub t fp (r1\<lparr>rg_nextID := x\<rparr>))
    \<lparr>rg_pending := gm_put rid (pe\<lparr>pe_Address := addr, pe_Token := t, pe_State := StateRegistered\<rparr>) (rg_pending r1)\<rparr>"
  have pe_sel: "pe_State pe = StateChallengeIssued" "pe_PublicKey pe = pub" "pe_Challenge pe = nonce"
    "pe_RoleFlags pe = role" "pe_Fingerprint pe = fp"
    by (simp_all add: pe_def)
  have "approveStored P now rid pe (am_Domain m) (am_Group m) r1 =
      (Inr (pe\<lparr>pe_Address := addr, pe_Token := t, pe_State := StateRegistered\<rparr>), r2)"
    using reg by (simp add: approveStored_def r2_def storeEndpoint_def pe_sel)
  moreover have "gm_get (rg_preApproved r1) fp = Some m" using pre by (simp add: r1_def)
  ultimately have "ConfirmEnrollment P now \<lparr>conf_RequestID = rid, conf_Signature = ed_Sign P priv nonce\<rparr> r1 =
      (Inr \<lparr>st_State = StateRegistered, st_Result = Some \<lparr>res_Address = addr, res_Token = t\<rparr>\<rparr>, r2)"
    using role sig pend by (auto simp: ConfirmEnrollment_def Let_def statusFor_def pe_sel)
  moreover have "role \<noteq> RoleRelay" using role by (auto simp: RoleOf_def)
  ultimately have run: "AutoEnroll P (Some fp) role p ent now evs e r = (Some (Inr ()),
      e\<lparr>en_fingerprint := fp, en_requestID := rid, en_addr := Some addr, en_token := t,
        en_state := StateRegistered\<rparr>, r2, [])"
    using e(1) enroll by (auto simp: AutoEnroll_def EndpointEnroll_def EndpointConfirm_def applyStatus_def NewEndpoint_def Let_def)
  show ?thesis
    by (rule that [OF run])
      (use e(1) in \<open>auto simp: NewEndpoint_def r2_def storeEndpoint_def r1_def getEndpoint_ep_at
        ep_at_putEndpoint ep\<close>)
qed

lemma zero_touch:
  assumes run: "NewRegistrar key ttl = Inr r0"
      "legal_ops (\<lambda>x r. fresh_op x r \<and> marshals_op P x r) (reg_exec P) xs r0"
      "r = run_ops (reg_exec P) xs r0"
    and e: "NewEndpoint (Some (pub, priv)) = Inr e" "length pub = PublicKeySize"
    and fp: "fp \<noteq> []" "gm_get (rg_byFingerprint r) fp = None"
    and pre: "gm_get (rg_preApproved r) fp = Some m"
    and less: "countEndpoints (am_Domain m) (am_Group m) r < maxEndpointsPerGroup"
    and role: "RoleOf role \<in> {RoleClient, RoleAgent}"
    and ent: "randomRequestID ent = Some rid" "gm_get (rg_pending r) rid = None" "ent_nonce ent = Some nonce"
    and sig: "ed_Verify P pub nonce (ed_Sign P priv nonce)"
    and addr: "addr = \<lparr>ea_Domain = am_Domain m, ea_Group = am_Group m,
      ea_Endpoint = word_of_nat (Suc (countEndpoints (am_Domain m) (am_Group m) r)), ea_RoleFlags = role\<rparr>"
    and json: "json_ok P \<lparr>cl_EndpointID = ea_Endpoint addr, cl_Domain = ea_Domain addr,
      cl_Group = ea_Group addr, cl_RoleFlags = role, cl_PublicKey = pub, cl_Fingerprint = fp,
      cl_IssuedAt = now, cl_ExpiresAt = now + rg_tokenTTL r, cl_Issuer = tokenIssuer\<rparr>"
    and pair: "keypair P (rg_publicKey r) (rg_privateKey r)"
    and later: "later \<le> now + rg_tokenTTL r"
  shows "\<exists>e2 r2 e3 r3. AutoEnroll P (Some fp) role p ent now evs e r = (Some (Inr ()), e2, r2, []) \<and>
    en_state e2 = StateRegistered \<and> en_addr e2 = Some addr \<and>
    Activate P later e2 r2 = (Inr (), e3, r3) \<and> en_state e3 = StateActive \<and>
    en_registrarKey e3 = rg_publicKey r \<and> en_addr e3 = Some addr \<and> isActive addr r3"
proof -
  have inv: "reg_inv P r" "ids_inv r" using ids_run [OF run(1,2)] run(3) by simp_all
  let ?c = "\<lparr>cl_EndpointID = ea_Endpoint addr, cl_Domain = ea_Domain addr,
      cl_Group = ea_Group addr, cl_RoleFlags = role, cl_PublicKey = pub, cl_Fingerprint = fp,
      cl_IssuedAt = now, cl_ExpiresAt = now + rg_tokenTTL r, cl_Issuer = tokenIssuer\<rparr>"
  obtain t where t: "SignToken P ?c (rg_privateKey r) = Inr t"
    using SignToken_total [OF json] by blast
  define ep where "ep = \<lparr>ep_Addr = addr, ep_PublicKey = pub, ep_State = StateRegistered,
    ep_Token = t, ep_Fingerprint = fp\<rparr>"
  have claims: "epClaims ep now (rg_tokenTTL r) = ?c" by (simp add: epClaims_def ep_def addr)
  obtain e2 r2 where auto: "AutoEnroll P (Some fp) role p ent now evs e r = (Some (Inr ()), e2, r2, [])"
    and e2: "en_state e2 = StateRegistered" "en_addr e2 = Some addr" "en_token e2 = t"
    and r2: "getEndpoint addr r2 = Some ep" "rg_publicKey r2 = rg_publicKey r"
    using enroll_confirm_preapproved [OF inv e fp pre less role ent sig addr ep_def] t claims by metis
  have "VerifyToken P later t (rg_publicKey r2) = Inr ?c"
    using verify_sign [OF pair json t, of later] later by (simp add: r2(2))
  then have act: "ActivateEndpoint P later addr t r2 =
      (Inr (), putEndpoint addr (ep\<lparr>ep_State := StateActive\<rparr>) r2)"
    using r2(1) by (simp add: ActivateEndpoint_def claims_match_flags_def claims_match_def ep_def)
      (simp add: addr)
  define r3 where "r3 = putEndpoint addr (ep\<lparr>ep_State := StateActive\<rparr>) r2"
  have r3: "getEndpoint addr r3 = Some (ep\<lparr>ep_State := StateActive\<rparr>)" "rg_publicKey r3 = rg_publicKey r"
    by (simp_all add: r3_def getEndpoint_ep_at ep_at_putEndpoint r2(2))
  have "Activate P later e2 r2 = (Inr (), e2\<lparr>en_state := StateActive, en_registrarKey := rg_publicKey r,
      en_relays := listRelaysLocked r3\<rparr>, r3)"
    using e2 act r3 by (simp add: Activate_def Let_def FullRegistrationInfo_def r3_def [symmetric])
  with auto e2 r3 show ?thesis by (auto simp: isActive_def)
qed

text \<open>C23. Zero-touch enrollment works: a new endpoint (client or agent) whose fingerprint is
  pre-approved for a group below capacity and was never enrolled comes out of \<open>AutoEnroll\<close>
  registered, without polling, at the next address of that group and with the token stored for
  it; \<open>Activate\<close> then succeeds at every time within the token's lifetime and leaves it active,
  holding the registrar's key. Hypotheses on the libraries: the endpoint's signature of the
  challenge verifies, the claims can be marshalled and read back, and the registrar's key pair
  belongs together.\<close>
theorem auto_enroll_preapproved:
  assumes run: "NewRegistrar key ttl = Inr r0"
      "legal_ops (\<lambda>x r. fresh_op x r \<and> marshals_op P x r) (reg_exec P) xs r0"
      "r = run_ops (reg_exec P) xs r0"
    and e: "NewEndpoint (Some (pub, priv)) = Inr e" "length pub = PublicKeySize"
    and fp: "fp \<noteq> []" "gm_get (rg_byFingerprint r) fp = None"
    and pre: "gm_get (rg_preApproved r) fp = Some m"
    and less: "countEndpoints (am_Domain m) (am_Group m) r < maxEndpointsPerGroup"
    and role: "RoleOf role \<in> {RoleClient, RoleAgent}"
    and ent: "randomRequestID ent = Some rid" "gm_get (rg_pending r) rid = None" "ent_nonce ent = Some nonce"
    and sig: "ed_Verify P pub nonce (ed_Sign P priv nonce)"
    and addr: "addr = \<lparr>ea_Domain = am_Domain m, ea_Group = am_Group m,
      ea_Endpoint = word_of_nat (Suc (countEndpoints (am_Domain m) (am_Group m) r)), ea_RoleFlags = role\<rparr>"
    and json: "json_ok P \<lparr>cl_EndpointID = ea_Endpoint addr, cl_Domain = ea_Domain addr,
      cl_Group = ea_Group addr, cl_RoleFlags = role, cl_PublicKey = pub, cl_Fingerprint = fp,
      cl_IssuedAt = now, cl_ExpiresAt = now + rg_tokenTTL r, cl_Issuer = tokenIssuer\<rparr>"
    and pair: "keypair P (rg_publicKey r) (rg_privateKey r)"
    and later: "later \<le> now + rg_tokenTTL r"
  shows "\<exists>e2 r2 e3 r3. AutoEnroll P (Some fp) role p ent now evs e r = (Some (Inr ()), e2, r2, []) \<and>
    en_state e2 = StateRegistered \<and> en_addr e2 = Some addr \<and>
    Activate P later e2 r2 = (Inr (), e3, r3) \<and> en_state e3 = StateActive \<and>
    en_registrarKey e3 = rg_publicKey r \<and> en_addr e3 = Some addr \<and> isActive addr r3"
  by (rule zero_touch [OF run e fp pre less role ent sig addr json pair later])

text \<open>The sample: the agent of the sample run, from the state after its pre-approval.\<close>

definition s_pre :: Registrar where
  "s_pre = s_r0\<lparr>rg_preApproved := [(''agent'', \<lparr>am_Domain = 1, am_Group = 2\<rparr>)]\<rparr>"

theorem auto_enroll_preapproved_witness:
  "\<exists>e e2 r2 e3 r3. NewEndpoint (Some (replicate 32 2, [])) = Inr e \<and>
    AutoEnroll s_P (Some ''agent'') RoleAgent 0 (s_ent 1) 6 [] e s_pre = (Some (Inr ()), e2, r2, []) \<and>
    Activate s_P 1006 e2 r2 = (Inr (), e3, r3) \<and> en_state e3 = StateActive"
proof -
  obtain e where e: "NewEndpoint (Some (replicate 32 (2 :: byte), [])) = Inr e"
    by (simp add: NewEndpoint_def)
  have run: "s_pre = run_ops (reg_exec s_P) [OpPreApprove ''agent'' 1 2] s_r0"
    "legal_ops (\<lambda>x r. fresh_op x r \<and> marshals_op s_P x r) (reg_exec s_P) [OpPreApprove ''agent'' 1 2] s_r0"
    by (simp_all add: s_pre_def s_r0_def PreApprove_def gm_put_def)
  have facts: "gm_get (rg_byFingerprint s_pre) ''agent'' = None"
    "gm_get (rg_preApproved s_pre) ''agent'' = Some \<lparr>am_Domain = 1, am_Group = 2\<rparr>"
    "countEndpoints 1 2 s_pre = 0" "gm_get (rg_pending s_pre) (s_rid 1) = None"
    "rg_tokenTTL s_pre = 1000" "rg_publicKey s_pre = replicate 32 1"
    by (simp_all add: s_pre_def s_r0_def gm_get_def countEndpoints_def gm_sub_def gm_len_def)
  have "replicate 32 (2 :: byte) \<noteq> replicate 32 1" by (simp add: replicate_eq_replicate)
  then have sig: "ed_Verify s_P (replicate 32 2) [1] (ed_Sign s_P [] [1])" by simp
  have pair: "keypair s_P (rg_publicKey s_pre) (rg_privateKey s_pre)"
    by (auto simp: keypair_def s_sig_def split: if_splits)
  have json: "json_ok s_P s_agent_claims" by (rule s_json_ok) simp
  show ?thesis
    using auto_enroll_preapproved [OF s_new run(2,1) e _ _ facts(1,2), of RoleAgent "s_ent 1" "s_rid 1" "[1]"
        s_agent_addr 6 1006 0 "[]"] facts sig pair json e
    by (simp add: RoleOf_def s_agent_addr_def s_agent_claims_def) blast
qed

section \<open>Polling\<close>

lemma next_interval_eq: "0 < i \<Longrightarrow> i < 2 ^ 62 \<Longrightarrow> next_interval i = min (2 * i) maxInterval"
  by (simp add: next_interval_def Let_def wrap64_id mult.commute min_def)

lemma first_interval_pos: "0 < first_interval p"
  by (simp add: first_interval_def)

lemma applyStatus_state:
  "st_State s = StateRegistered \<Longrightarrow> en_state (applyStatus s e) = StateRegistered"
  "st_State s = StateDenied \<Longrightarrow> en_state (applyStatus s e) = StateDenied"
  by (simp_all add: applyStatus_def split: option.split)

lemma Poll_state:
  assumes "Poll P e reg = (Inr s, e1)"
  shows "e1 = applyStatus s e"
  using assms by (auto simp: Poll_def Let_def split: if_splits sum.splits)

lemma Poll_not_denied: "fst (Poll P e reg) \<noteq> Inl EnDenied"
  by (simp add: Poll_def Let_def split: sum.split)

text \<open>The timer settings, each from the one before.\<close>

fun backoff_ok :: "duration \<Rightarrow> duration list \<Rightarrow> bool" where
  "backoff_ok w [] \<longleftrightarrow> True"
| "backoff_ok w (v # vs) \<longleftrightarrow> (v = w \<or> v = min (2 * w) maxInterval) \<and> backoff_ok v vs"

lemma backoff_bounds: "backoff_ok w ws \<Longrightarrow> 0 < w \<Longrightarrow> v \<in> set ws \<Longrightarrow> 0 < v \<and> v \<le> max w maxInterval"
proof (induction ws arbitrary: w)
  case (Cons u us)
  then have "0 < u" "u \<le> max w maxInterval" by auto
  with Cons show ?case by fastforce
qed simp

lemma poll_loop_ok:
  assumes "poll_loop P evs w e reg = (res, e', reg', waits)" "0 < w" "w < 2 ^ 62"
  shows "backoff_ok w waits \<and> (res = Some (Inr ()) \<longrightarrow> en_state e' = StateRegistered) \<and>
    (res = Some (Inl EnDenied) \<longrightarrow> en_state e' = StateDenied)"
  using assms
proof (induction P evs w e reg arbitrary: res e' reg' waits rule: poll_loop.induct)
  case (3 P ops evs w e reg)
  define reg1 where "reg1 = run_ops (reg_exec P) ops reg"
  obtain st e1 where poll: "Poll P e reg1 = (st, e1)" by (cases "Poll P e reg1")
  show ?case
  proof (cases st)
    case (Inl err)
    with 3 poll Poll_not_denied [of P e reg1] show ?thesis by (auto simp: Let_def simp flip: reg1_def)
  next
    case (Inr status)
    note e1 = Poll_state [OF poll [unfolded Inr]]
    consider "st_State status = StateRegistered" | "st_State status = StateDenied"
      | "st_State status \<noteq> StateRegistered" "st_State status \<noteq> StateDenied" by blast
    then show ?thesis
    proof cases
      case 3
      let ?w = "if st_State status = StatePending then next_interval w else w"
      have w: "?w = w \<or> ?w = min (2 * w) maxInterval" "0 < ?w" "?w < 2 ^ 62"
        using "3.prems"(2,3) by (simp_all add: next_interval_eq min_def)
      obtain res1 e2 reg2 waits1 where rec: "poll_loop P evs ?w e1 reg1 = (res1, e2, reg2, waits1)"
        by (cases "poll_loop P evs ?w e1 reg1")
      have "backoff_ok ?w waits1 \<and> (res1 = Some (Inr ()) \<longrightarrow> en_state e2 = StateRegistered) \<and>
          (res1 = Some (Inl EnDenied) \<longrightarrow> en_state e2 = StateDenied)"
        using "3.IH" [OF reg1_def poll [symmetric] Inr 3 refl rec w(2,3)] .
      with "3.prems"(1) poll Inr 3 rec w(1) show ?thesis by (auto simp: Let_def simp flip: reg1_def)
    qed (use 3 poll Inr e1 in \<open>auto simp: Let_def applyStatus_state simp flip: reg1_def\<close>)
  qed
qed auto

lemma EndpointEnroll_not_denied: "EndpointEnroll fp role ent now e reg = (Inl err, e1, reg1) \<Longrightarrow> err \<noteq> EnDenied"
  by (auto simp: EndpointEnroll_def Let_def split: if_splits prod.splits sum.splits)

lemma EndpointConfirm_not_denied: "EndpointConfirm P now ch e reg = (Inl err, e1, reg1) \<Longrightarrow> err \<noteq> EnDenied"
  by (auto simp: EndpointConfirm_def Let_def split: if_splits prod.splits sum.splits)

lemma EndpointConfirm_status:
  "EndpointConfirm P now ch e reg = (Inr s, e1, reg1) \<Longrightarrow> \<exists>e0. e1 = applyStatus s e0"
  by (auto simp: EndpointConfirm_def Let_def split: if_splits prod.splits sum.splits)

text \<open>How \<open>AutoEnroll\<close> can go.\<close>

lemma AutoEnroll_cases:
  assumes "AutoEnroll P derived role p ent now evs e reg = (res, e', reg', waits)"
  obtains (early) err where "res = Some (Inl err)" "err \<noteq> EnDenied" "waits = []"
  | (registered) "res = Some (Inr ())" "en_state e' = StateRegistered" "waits = []"
  | (denied) "res = Some (Inl EnDenied)" "en_state e' = StateDenied" "waits = []"
  | (polled) e2 reg2 ws where "poll_loop P evs (first_interval p) e2 reg2 = (res, e', reg', ws)"
      "waits = first_interval p # ws"
proof (cases "if role \<noteq> RoleRelay then derived else Some []")
  case None
  with assms show ?thesis by (intro early [of EnFingerprint]) (simp_all add: AutoEnroll_def)
next
  case (Some fp)
  note fp = this
  obtain r1 e1 reg1 where enroll: "EndpointEnroll fp role ent now e reg = (r1, e1, reg1)"
    by (cases "EndpointEnroll fp role ent now e reg") auto
  show ?thesis
  proof (cases r1)
    case (Inl err)
    with assms fp enroll EndpointEnroll_not_denied [OF enroll [unfolded Inl]] show ?thesis
      by (intro early [of err]) (simp_all add: AutoEnroll_def)
  next
    case (Inr resp)
    obtain r2 e2 reg2 where confirm: "EndpointConfirm P now (resp_Challenge resp) e1 reg1 = (r2, e2, reg2)"
      by (cases "EndpointConfirm P now (resp_Challenge resp) e1 reg1") auto
    show ?thesis
    proof (cases r2)
      case (Inl err)
      with assms fp enroll Inr confirm EndpointConfirm_not_denied [OF confirm [unfolded Inl]]
      show ?thesis by (intro early [of err]) (simp_all add: AutoEnroll_def)
    next
      case status: (Inr s)
      obtain e0 where e0: "e2 = applyStatus s e0" using EndpointConfirm_status confirm status by blast
      note run = assms fp enroll Inr confirm status
      consider "st_State s = StateRegistered" | "st_State s = StateDenied"
        | "st_State s \<noteq> StateRegistered" "st_State s \<noteq> StateDenied" by blast
      then show ?thesis
      proof cases
        case 1
        with run e0 applyStatus_state show ?thesis by (intro registered) (auto simp: AutoEnroll_def)
      next
        case 2
        with run e0 applyStatus_state show ?thesis by (intro denied) (auto simp: AutoEnroll_def)
      next
        case 3
        obtain res3 e3 reg3 ws where "poll_loop P evs (first_interval p) e2 reg2 = (res3, e3, reg3, ws)"
          by (cases "poll_loop P evs (first_interval p) e2 reg2")
        with run 3 show ?thesis by (intro polled [of e2 reg2 ws]) (simp_all add: AutoEnroll_def Let_def)
      qed
    qed
  qed
qed

text \<open>Polling backs off and ends in the right state: the timer of \<open>AutoEnroll\<close> is first set to
  the poll interval (5 s by default), then each time to the same duration or to the double of the
  last capped at 60 s, so that it never waits 0 and never more than the larger of the two; and
  when it reports success the endpoint is registered, when it reports a denial it is denied.\<close>
theorem auto_enroll_polling:
  assumes "AutoEnroll P derived role p ent now evs e reg = (res, e', reg', waits)" "p < 2 ^ 62"
  shows "(waits = [] \<or> hd waits = first_interval p \<and> backoff_ok (first_interval p) (tl waits)) \<and>
    (\<forall>w \<in> set waits. 0 < w \<and> w \<le> max (first_interval p) maxInterval) \<and>
    (res = Some (Inr ()) \<longrightarrow> en_state e' = StateRegistered) \<and>
    (res = Some (Inl EnDenied) \<longrightarrow> en_state e' = StateDenied)"
proof -
  have small: "first_interval p < 2 ^ 62" using assms(2) by (simp add: first_interval_def)
  note loop = poll_loop_ok [OF _ first_interval_pos small]
  from assms(1) show ?thesis
  proof (cases rule: AutoEnroll_cases)
    case (polled e2 reg2 ws)
    with loop [OF polled(1)] backoff_bounds [of "first_interval p" ws] first_interval_pos
    show ?thesis by auto
  qed simp_all
qed

theorem auto_enroll_polling_witness:
  "\<exists>e e' reg' res waits. NewEndpoint (Some (replicate 32 3, [])) = Inr e \<and>
    AutoEnroll s_P (Some ''other'') RoleClient 0 (s_ent 7) 20 [Fired [], Fired [], Cancelled] e s_r2 =
      (res, e', reg', waits) \<and> (\<forall>w \<in> set waits. 0 < w \<and> w \<le> 60 * Second)"
proof -
  obtain e where e: "NewEndpoint (Some (replicate 32 (3 :: byte), [])) = Inr e"
    by (simp add: NewEndpoint_def)
  obtain res e' reg' waits where run: "AutoEnroll s_P (Some ''other'') RoleClient 0 (s_ent 7) 20
      [Fired [], Fired [], Cancelled] e s_r2 = (res, e', reg', waits)"
    by (cases "AutoEnroll s_P (Some ''other'') RoleClient 0 (s_ent 7) 20
      [Fired [], Fired [], Cancelled] e s_r2")
  from auto_enroll_polling [OF run] e run show ?thesis by (auto simp: first_interval_def)
qed

lemma EndpointConfirm_registered:
  assumes "en_state e = StateChallengeIssued"
    and "ConfirmEnrollment P now \<lparr>conf_RequestID = en_requestID e,
        conf_Signature = ed_Sign P (en_privateKey e) challenge\<rparr> reg =
      (Inr \<lparr>st_State = StateRegistered, st_Result = Some \<lparr>res_Address = addr, res_Token = token\<rparr>\<rparr>, reg1)"
  shows "EndpointConfirm P now challenge e reg =
    (Inr \<lparr>st_State = StateRegistered, st_Result = Some \<lparr>res_Address = addr, res_Token = token\<rparr>\<rparr>,
     e\<lparr>en_addr := Some addr, en_token := token, en_state := StateRegistered\<rparr>, reg1)"
  using assms by (simp add: EndpointConfirm_def applyStatus_def)

section \<open>Restarting\<close>

text \<open>C25. A restarted endpoint does not come back (a defect): \<open>NewEndpoint\<close> makes a new key pair, the
  registrar still answers the enrollment of the known fingerprint with the old address and token,
  so \<open>AutoEnroll\<close> reports success, but the registrar refuses to activate an endpoint that is
  active already, and the endpoint can neither activate nor send.\<close>
theorem restarted_endpoint_stuck:
  assumes run: "reg_run P key ttl xs = Some r" and ep: "getEndpoint addr r = Some ep"
    and st: "ep_State ep = StateActive" and fp: "ep_Fingerprint ep \<noteq> []"
    and e: "NewEndpoint (Some (pub, priv)) = Inr e" "length pub = PublicKeySize"
    and role: "RoleOf role \<in> {RoleClient, RoleAgent}"
  shows "\<exists>e'. AutoEnroll P (Some (ep_Fingerprint ep)) role p ent now evs e r = (Some (Inr ()), e', r, []) \<and>
    en_addr e' = Some (ep_Addr ep) \<and> en_token e' = ep_Token ep \<and>
    isl (fst (Activate P later e' r)) \<and> isl (PrepareMessage P to payload e')"
proof -
  have "RoleOf role \<noteq> 0" "role \<noteq> RoleRelay" using role by (auto simp: RoleOf_def)
  then obtain resp where resp: "Enroll \<lparr>req_PublicKey = pub, req_Fingerprint = ep_Fingerprint ep,
      req_RoleFlags = role\<rparr> ent now r = (Inr resp, r)"
    "\<And>sig. ConfirmEnrollment P now \<lparr>conf_RequestID = resp_RequestID resp, conf_Signature = sig\<rparr> r =
       (Inr \<lparr>st_State = StateRegistered,
          st_Result = Some \<lparr>res_Address = ep_Addr ep, res_Token = ep_Token ep\<rparr>\<rparr>, r)"
    using known_fingerprint_enrolls [OF run ep fp, of "\<lparr>req_PublicKey = pub,
      req_Fingerprint = ep_Fingerprint ep, req_RoleFlags = role\<rparr>" ent now] e(2) by auto
  have e_st: "en_state e = StateUnregistered" "en_publicKey e = pub"
    using e(1) by (auto simp: NewEndpoint_def)
  let ?e1 = "e\<lparr>en_fingerprint := ep_Fingerprint ep, en_requestID := resp_RequestID resp,
    en_state := StateChallengeIssued\<rparr>"
  let ?e = "?e1\<lparr>en_addr := Some (ep_Addr ep), en_token := ep_Token ep, en_state := StateRegistered\<rparr>"
  have enroll: "EndpointEnroll (ep_Fingerprint ep) role ent now e r = (Inr resp, ?e1, r)"
    unfolding EndpointEnroll_def e_st(2) resp(1) using e_st(1) by simp
  have status: "EndpointConfirm P now (resp_Challenge resp) ?e1 r =
    (Inr \<lparr>st_State = StateRegistered,
       st_Result = Some \<lparr>res_Address = ep_Addr ep, res_Token = ep_Token ep\<rparr>\<rparr>, ?e, r)"
    by (rule EndpointConfirm_registered) (simp, simp, rule resp(2))
  have auto: "AutoEnroll P (Some (ep_Fingerprint ep)) role p ent now evs e r = (Some (Inr ()), ?e, r, [])"
    using enroll status \<open>role \<noteq> RoleRelay\<close> by (simp add: AutoEnroll_def)
  have "same_endpoint (ep_Addr ep) addr" by (rule endpoint_enrollment [OF reg_run_inv [OF run] ep])
  with ep have "getEndpoint (ep_Addr ep) r = Some ep"
    by (simp add: getEndpoint_ep_at same_endpoint_def)
  then have "isl (fst (ActivateEndpoint P later (ep_Addr ep) (ep_Token ep) r))"
    using st by (simp add: ActivateEndpoint_def split: sum.split)
  then have "isl (fst (Activate P later ?e r))"
    by (auto simp: Activate_def isl_def split: prod.split)
  moreover have "isl (PrepareMessage P to payload ?e)" by (simp add: PrepareMessage_def)
  ultimately show ?thesis using auto by (intro exI [of _ ?e]) simp
qed

theorem restarted_endpoint_stuck_witness:
  "\<exists>e e'. NewEndpoint (Some (replicate 32 77, [])) = Inr e \<and>
    AutoEnroll s_P (Some ''agent'') RoleAgent 0 (s_ent 7) 50 [] e s_r2 = (Some (Inr ()), e', s_r2, []) \<and>
    isl (fst (Activate s_P 60 e' s_r2))"
proof -
  obtain e where e: "NewEndpoint (Some (replicate 32 (77 :: byte), [])) = Inr e"
    by (simp add: NewEndpoint_def)
  from restarted_endpoint_stuck [OF s_run2 s_get2(1) _ _ e, of RoleAgent 0 "s_ent 7" 50 "[]" 60] e
  show ?thesis by (simp add: s_agent_ep_def RoleOf_def) blast
qed

section \<open>Messages\<close>

text \<open>C24. What an endpoint sends is accepted: a message that an active client prepares, holding the
  address, token and key of its record, is accepted by \<open>VerifyMessage\<close> at every time within the
  lifetime of its token, when it goes to an active agent of the same domain and group and the
  policies allow it.\<close>
theorem prepared_message_verifies:
  assumes run: "reg_run P key ttl xs = Some r"
    and pair: "keypair P (rg_publicKey r) (rg_privateKey r)"
    and json: "\<And>t0. json_Marshal P (epClaims ep t0 (rg_tokenTTL r)) \<noteq> None \<Longrightarrow>
      json_ok P (epClaims ep t0 (rg_tokenTTL r))"
    and ep: "getEndpoint addr r = Some ep" "ep_Addr ep = addr" "Role addr = RoleClient"
    and e: "en_state e = StateActive" "en_addr e = Some addr" "en_token e = ep_Token ep"
    and sig: "ed_Verify P (ep_PublicKey ep) payload (ed_Sign P (en_privateKey e) payload)"
    and dst: "getEndpoint to r = Some dst" "ep_State dst = StateActive" "Role to = RoleAgent"
      "ea_Domain to = ea_Domain addr" "ea_Group to = ea_Group addr"
    and ctl: "ct_registrarKey c = rg_publicKey r" "\<forall>q \<in> set (ct_policies c). q addr to = None"
  shows "\<exists>msg t0. PrepareMessage P to payload e = Inr msg \<and>
    (\<forall>now \<le> t0 + rg_tokenTTL r. VerifyMessage P now c r msg = Inr ())"
proof -
  note inv = reg_run_inv [OF run]
  obtain t0 m where m: "json_Marshal P (epClaims ep t0 (rg_tokenTTL r)) = Some m"
    and sign: "SignToken P (epClaims ep t0 (rg_tokenTTL r)) (rg_privateKey r) = Inr (ep_Token ep)"
    by (rule stored_token [OF inv ep(1)])
  have ok: "json_ok P (epClaims ep t0 (rg_tokenTTL r))" using json m by simp
  have len: "length (ep_PublicKey ep) = PublicKeySize"
    using reg_invD(5) [OF inv, of "ea_Domain addr" "ea_Group addr" "ea_Endpoint addr" ep] ep(1)
    by (simp add: getEndpoint_ep_at endpoint_ok_def)
  let ?msg = "\<lparr>msg_From = addr, msg_To = to, msg_Token = ep_Token ep, msg_Payload = payload,
    msg_Signature = ed_Sign P (en_privateKey e) payload\<rparr>"
  have prep: "PrepareMessage P to payload e = Inr ?msg" using e by (simp add: PrepareMessage_def)
  have flow: "flow_spec c (\<lambda>a. GetEndpointInfo a r) addr to"
    using ep(3) dst ctl(2) by (simp add: flow_spec_def GetEndpointInfo_def)
  have "VerifyMessage P now c r ?msg = Inr ()" if "now \<le> t0 + rg_tokenTTL r" for now
  proof -
    have "VerifyToken P now (ep_Token ep) (rg_publicKey r) = Inr (epClaims ep t0 (rg_tokenTTL r))"
      using verify_sign [OF pair ok sign, of now] that by (simp add: epClaims_def)
    then show ?thesis
      unfolding VerifyMessage_Inr ctl(1) using sig len flow ep(2)
      by (simp add: epClaims_def claims_match_flags_def claims_match_def)
  qed
  with prep show ?thesis by blast
qed

theorem prepared_message_verifies_witness:
  "\<exists>e msg t0. NewEndpoint (Some (replicate 32 3, [])) = Inr e \<and>
    PrepareMessage s_P s_agent_addr [1, 2] (e\<lparr>en_state := StateActive, en_addr := Some s_client_addr,
      en_token := s_token 2\<rparr>) = Inr msg \<and>
    (\<forall>now \<le> t0 + 1000. VerifyMessage s_P now s_controller s_r2 msg = Inr ())"
proof -
  obtain e where e: "NewEndpoint (Some (replicate 32 (3 :: byte), [])) = Inr e"
    by (simp add: NewEndpoint_def)
  have ttl: "rg_tokenTTL s_r2 = 1000" by (simp add: s_r2_def)
  have policies: "\<forall>q \<in> set (ct_policies s_controller). q s_client_addr s_agent_addr = None"
    by (simp add: s_controller_def AddPolicy_def NewController_def rule_for_def)
  have roles: "Role s_client_addr = RoleClient" "Role s_agent_addr = RoleAgent"
    by (simp_all add: Role_def RoleOf_def)
  have sig: "ed_Verify s_P (ep_PublicKey (s_client_ep StateActive)) [1, 2] s_sig"
    using replicate_two_one by (simp add: s_client_ep_def)
  from prepared_message_verifies [OF s_run2 s_keypair s_json_ok s_get2(2) _ roles(1) _ _ _ _ s_get2(1) _
      roles(2) _ _ s_controller_key policies, of "e\<lparr>en_state := StateActive, en_addr := Some s_client_addr,
      en_token := s_token 2\<rparr>" "[1, 2]"] sig e ttl
  show ?thesis by (simp add: s_client_ep_def s_agent_ep_def)
qed

end
