(* ===== verification/Endpoint_Monitor.thy ===== *)
theory Endpoint_Monitor
  imports Endpoint Discovery_Props
begin

text \<open>
  The endpoint together with the transport monitor that \<open>Discover\<close> starts
  (\<^verbatim>\<open>swarm/endpoint.go\<close>, \<^verbatim>\<open>swarm/discovery.go\<close>). The monitor is a goroutine with a
  callback into the endpoint: each of its evaluations may overwrite the endpoint's decision.
  \<open>Discover\<close> is therefore two steps, the decision and the restart of the monitor, and between
  them the monitor of the previous \<open>Discover\<close> may still evaluate: \<open>Stop\<close> waits for it.
\<close>

section \<open>\<open>Discover\<close> in two steps\<close>

definition discover_decide ::
    "RelayInfo slice_sorter \<Rightarrow> probe \<Rightarrow> EndpointAddr \<Rightarrow> Registrar option \<Rightarrow> Endpoint
     \<Rightarrow> (endpoint_error + TransportDecision) \<times> Endpoint" where
  "discover_decide sort_Slice pb peer reg e =
     (if en_state e \<noteq> StateActive then (Inl (EnWrongState (en_state e)), e)
      else
        let relays =
              (case Option.bind reg (LookupReachability peer) of
                 None \<Rightarrow> en_relays e
               | Some reach \<Rightarrow>
                   (case rc_Relay reach of
                      None \<Rightarrow> en_relays e
                    | Some route \<Rightarrow> PrioritizeRelay (en_relays e) (rr_RelayAddr route)));
            probed = ProbeRelays sort_Slice (pb_Relay pb) relays;
            decision = SelectTransport sort_Slice (en_transportCfg e) (pb_Peer pb peer) probed
        in (Inr decision, e\<lparr>en_relays := probed, en_decision := Some decision\<rparr>))"

definition discover_restart :: "EndpointAddr \<Rightarrow> Endpoint \<Rightarrow> Endpoint" where
  "discover_restart peer e =
     (StopMonitor e)\<lparr>en_monitor :=
       Some (NewTransportMonitor (en_transportCfg e) peer (en_relays e) True)\<rparr>"

text \<open>Executed without interruption the two steps are \<open>Discover\<close>.\<close>

lemma Discover_steps:
  "Discover sort_Slice pb peer reg e =
     (case discover_decide sort_Slice pb peer reg e of
        (Inl err, e1) \<Rightarrow> (Inl err, e1)
      | (Inr d, e1) \<Rightarrow>
          (Inr d, if tc_Mode (en_transportCfg e) = ModeDynamic then discover_restart peer e1 else e1))"
  by (auto simp: Discover_def discover_decide_def discover_restart_def StopMonitor_def Let_def
      split: option.split)

section \<open>The steps of the two goroutines\<close>

text \<open>
  Where the caller is: idle, or in \<open>Discover\<close> between the two steps. An evaluation of the monitor
  calls \<open>onChange\<close>, which sets the endpoint's decision, when \<open>evaluate\<close> records a call.
\<close>

datatype caller = Idle | Restarting EndpointAddr

record watched =
  wt_endpoint :: Endpoint
  wt_caller :: caller

definition monitor_evaluates :: "RelayInfo slice_sorter \<Rightarrow> probe \<Rightarrow> Endpoint \<Rightarrow> Endpoint" where
  "monitor_evaluates sort_Slice pb e =
     (case en_monitor e of
        None \<Rightarrow> e
      | Some m \<Rightarrow>
          let m1 = evaluate sort_Slice pb m
          in e\<lparr>en_monitor := Some m1,
               en_decision := (if length (tm_calls m) < length (tm_calls m1) then Some (tm_current m1)
                               else en_decision e)\<rparr>)"

datatype watch_op =
    Decide probe EndpointAddr "Registrar option"
  | Restart
  | Evaluates probe
  | Reconfigure TransportConfig
  | StopWatching

fun watch_guard :: "watch_op \<Rightarrow> watched \<Rightarrow> bool" where
  "watch_guard Restart w \<longleftrightarrow> wt_caller w \<noteq> Idle"
| "watch_guard (Evaluates pb) w \<longleftrightarrow> en_monitor (wt_endpoint w) \<noteq> None"
| "watch_guard x w \<longleftrightarrow> wt_caller w = Idle"

fun watch_exec :: "RelayInfo slice_sorter \<Rightarrow> watch_op \<Rightarrow> watched \<Rightarrow> watched" where
  "watch_exec sort_Slice (Decide pb peer reg) w =
     (case discover_decide sort_Slice pb peer reg (wt_endpoint w) of
        (Inl err, e) \<Rightarrow> w\<lparr>wt_endpoint := e\<rparr>
      | (Inr d, e) \<Rightarrow> w\<lparr>wt_endpoint := e,
          wt_caller := (if tc_Mode (en_transportCfg e) = ModeDynamic then Restarting peer else Idle)\<rparr>)"
| "watch_exec sort_Slice Restart w =
     (case wt_caller w of
        Idle \<Rightarrow> w
      | Restarting peer \<Rightarrow> \<lparr>wt_endpoint = discover_restart peer (wt_endpoint w), wt_caller = Idle\<rparr>)"
| "watch_exec sort_Slice (Evaluates pb) w =
     w\<lparr>wt_endpoint := monitor_evaluates sort_Slice pb (wt_endpoint w)\<rparr>"
| "watch_exec sort_Slice (Reconfigure cfg) w =
     w\<lparr>wt_endpoint := SetTransportConfig cfg (wt_endpoint w)\<rparr>"
| "watch_exec sort_Slice StopWatching w = w\<lparr>wt_endpoint := StopMonitor (wt_endpoint w)\<rparr>"

text \<open>The endpoint stays in dynamic mode.\<close>

fun dynamic_op :: "watch_op \<Rightarrow> bool" where
  "dynamic_op (Reconfigure cfg) \<longleftrightarrow> tc_Mode cfg = ModeDynamic"
| "dynamic_op x \<longleftrightarrow> True"

section \<open>What the decision follows\<close>

definition reports_ok :: "TransportMonitor \<Rightarrow> bool" where
  "reports_ok m \<longleftrightarrow> tm_hasOnChange m \<and>
     td_UseRelay (tm_current m) = (if tm_calls m = [] then False else td_UseRelay (last (tm_calls m)))"

lemma reports_new [simp]: "reports_ok (NewTransportMonitor cfg peer relays True)"
  by (simp add: reports_ok_def NewTransportMonitor_def no_decision_def)

lemma reports_evaluate: "reports_ok m \<Longrightarrow> reports_ok (evaluate sort_Slice pb m)"
  by (auto simp: reports_ok_def evaluate_def Let_def)

lemma evaluate_calls:
  "tm_calls (evaluate sort_Slice pb m) =
     (if length (tm_calls m) < length (tm_calls (evaluate sort_Slice pb m))
      then tm_calls m @ [tm_current (evaluate sort_Slice pb m)] else tm_calls m)"
  by (simp add: evaluate_def Let_def)

definition watch_ok :: "watched \<Rightarrow> bool" where
  "watch_ok w \<longleftrightarrow> tc_Mode (en_transportCfg (wt_endpoint w)) = ModeDynamic \<and>
     (\<forall>m. en_monitor (wt_endpoint w) = Some m \<longrightarrow> reports_ok m \<and>
        (wt_caller w = Idle \<and> tm_calls m \<noteq> [] \<longrightarrow>
           en_decision (wt_endpoint w) = Some (last (tm_calls m))))"

interpretation watch: guarded_system "\<lambda>x w. watch_guard x w \<and> dynamic_op x" "watch_exec sort_Slice" watch_ok
proof
  fix w x
  assume ok: "watch_ok w" and legal: "watch_guard x w \<and> dynamic_op x"
  show "watch_ok (watch_exec sort_Slice x w)"
  proof (cases x)
    case (Decide pb peer reg)
    with ok legal show ?thesis
      by (auto simp: watch_ok_def discover_decide_def Let_def)
  next
    case Restart
    with ok legal show ?thesis
      by (auto simp: watch_ok_def discover_restart_def StopMonitor_def NewTransportMonitor_def
          reports_ok_def no_decision_def split: caller.split)
  next
    case (Evaluates pb)
    show ?thesis
    proof (cases "en_monitor (wt_endpoint w)")
      case None
      with ok Evaluates show ?thesis by (simp add: monitor_evaluates_def)
    next
      case (Some m)
      let ?m1 = "evaluate sort_Slice pb m"
      have "reports_ok m" using ok Some by (simp add: watch_ok_def)
      then have "reports_ok ?m1" by (rule reports_evaluate)
      moreover have "tm_calls ?m1 \<noteq> [] \<and> wt_caller w = Idle \<longrightarrow>
          (if length (tm_calls m) < length (tm_calls ?m1) then Some (tm_current ?m1)
           else en_decision (wt_endpoint w)) = Some (last (tm_calls ?m1))"
        using ok Some evaluate_calls [of sort_Slice pb m] by (auto simp: watch_ok_def)
      ultimately show ?thesis
        using ok by (simp add: Evaluates watch_ok_def monitor_evaluates_def Some Let_def)
    qed
  next
    case (Reconfigure cfg)
    with ok legal show ?thesis by (simp add: watch_ok_def SetTransportConfig_def)
  next
    case StopWatching
    with ok show ?thesis by (simp add: watch_ok_def StopMonitor_def)
  qed
qed

definition idle :: "Endpoint \<Rightarrow> watched" where
  "idle e = \<lparr>wt_endpoint = e, wt_caller = Idle\<rparr>"

text \<open>C26. The endpoint follows its monitor: in dynamic mode, however \<open>Discover\<close>, reconfigurations,
  stops and evaluations of the running monitor interleave, whenever the endpoint is not inside
  \<open>Discover\<close> and its monitor has called back, the endpoint's decision is the last one it was
  called with, and whether it uses a relay is what the monitor measured last; a monitor that has
  not called back yet has only found the peer better.\<close>
theorem decision_follows_monitor:
  assumes "tc_Mode (en_transportCfg e0) = ModeDynamic" "en_monitor e0 = None"
    and "legal_ops (\<lambda>x w. watch_guard x w \<and> dynamic_op x) (watch_exec sort_Slice) xs (idle e0)"
    and "w = run_ops (watch_exec sort_Slice) xs (idle e0)"
    and "wt_caller w = Idle" "en_monitor (wt_endpoint w) = Some m"
  shows "if tm_calls m = [] then \<not> td_UseRelay (tm_current m)
    else en_decision (wt_endpoint w) = Some (last (tm_calls m)) \<and>
      td_UseRelay (last (tm_calls m)) = td_UseRelay (tm_current m)"
proof -
  have "watch_ok (idle e0)" using assms(1,2) by (simp add: watch_ok_def idle_def)
  from watch.run_inv [OF this assms(3)] have "watch_ok w" by (simp add: assms(4))
  with assms(5,6) show ?thesis by (auto simp: watch_ok_def reports_ok_def)
qed

text \<open>An active endpoint that knows two relays, and what its prober finds.\<close>

definition s_endpoint :: Endpoint where
  "s_endpoint = \<lparr>en_publicKey = [], en_privateKey = [], en_addr = None, en_token = [],
     en_state = StateActive, en_requestID = [], en_fingerprint = [], en_registrarKey = [],
     en_relays = s_relays, en_transportCfg = DefaultTransportConfig, en_decision = None,
     en_monitor = None\<rparr>"

definition s_watch_ops :: "watch_op list" where
  "s_watch_ops = [Decide (s_probe 1) zero_addr None, Restart, Evaluates (s_probe 0)]"

theorem decision_follows_monitor_witness:
  "\<exists>m. en_monitor (wt_endpoint (run_ops (watch_exec insertion_sort) s_watch_ops (idle s_endpoint))) = Some m \<and>
     tm_calls m \<noteq> [] \<and>
     en_decision (wt_endpoint (run_ops (watch_exec insertion_sort) s_watch_ops (idle s_endpoint))) =
       Some (last (tm_calls m))"
proof -
  let ?w = "run_ops (watch_exec insertion_sort) s_watch_ops (idle s_endpoint)"
  have legal: "legal_ops (\<lambda>x w. watch_guard x w \<and> dynamic_op x) (watch_exec insertion_sort)
      s_watch_ops (idle s_endpoint)"
    by code_simp
  have start: "tc_Mode (en_transportCfg s_endpoint) = ModeDynamic" "en_monitor s_endpoint = None"
    by (simp_all add: s_endpoint_def DefaultTransportConfig_def)
  have idle: "wt_caller ?w = Idle" by code_simp
  have "case en_monitor (wt_endpoint ?w) of None \<Rightarrow> False | Some m \<Rightarrow> tm_calls m \<noteq> []" by code_simp
  then obtain m where m: "en_monitor (wt_endpoint ?w) = Some m" "tm_calls m \<noteq> []"
    by (auto split: option.splits)
  from decision_follows_monitor [OF start legal refl idle m(1)] m show ?thesis by simp
qed

section \<open>What the decision does not follow\<close>

lemma evaluations:
  assumes "en_monitor e1 = Some m1" "reports_ok m1"
    and "en_decision e1 = Some (if tm_calls m1 = [] then d else last (tm_calls m1))"
  shows "\<exists>m. en_monitor (fold (monitor_evaluates sort_Slice) pbs e1) = Some m \<and> reports_ok m \<and>
    en_decision (fold (monitor_evaluates sort_Slice) pbs e1) =
      Some (if tm_calls m = [] then d else last (tm_calls m))"
  using assms
proof (induction pbs arbitrary: e1 m1)
  case (Cons pb pbs)
  let ?e2 = "monitor_evaluates sort_Slice pb e1" and ?m2 = "evaluate sort_Slice pb m1"
  have "en_monitor ?e2 = Some ?m2" "reports_ok ?m2"
    using Cons.prems reports_evaluate by (simp_all add: monitor_evaluates_def Let_def)
  moreover have "en_decision ?e2 = Some (if tm_calls ?m2 = [] then d else last (tm_calls ?m2))"
    using Cons.prems evaluate_calls [of sort_Slice pb m1]
    by (auto simp: monitor_evaluates_def Let_def)
  ultimately show ?case using Cons.IH by simp
qed simp

lemma Discover_dynamic:
  assumes "Discover sort_Slice pb peer reg e = (Inr d, e1)"
    and "tc_Mode (en_transportCfg e) = ModeDynamic"
  shows "en_monitor e1 = Some (NewTransportMonitor (en_transportCfg e) peer (en_relays e1) True)"
    "en_decision e1 = Some d"
  using assms by (auto simp: Discover_steps discover_decide_def discover_restart_def StopMonitor_def
      Let_def split: if_splits)

text \<open>C27. A switch to the peer is lost (a defect): after \<open>Discover\<close>, and any evaluations of the
  monitor it started, the endpoint's decision disagrees with what the monitor measured last
  exactly when \<open>Discover\<close> decided for a relay and the monitor has not called back since. The
  monitor begins with "no relay" instead of \<open>Discover\<close>'s decision: as long as it finds the peer
  better it sees no change, and the endpoint keeps the relay.\<close>
theorem monitor_loses_switch:
  assumes "Discover sort_Slice pb peer reg e = (Inr d, e1)"
    and "tc_Mode (en_transportCfg e) = ModeDynamic"
    and "e2 = fold (monitor_evaluates sort_Slice) pbs e1" "en_monitor e2 = Some m"
  shows "\<exists>x. en_decision e2 = Some x \<and> x = (if tm_calls m = [] then d else last (tm_calls m)) \<and>
    (td_UseRelay x \<noteq> td_UseRelay (tm_current m) \<longleftrightarrow> td_UseRelay d \<and> tm_calls m = [])"
proof -
  note e1 = Discover_dynamic [OF assms(1,2)]
  obtain m' where "en_monitor e2 = Some m'" "reports_ok m'"
    "en_decision e2 = Some (if tm_calls m' = [] then d else last (tm_calls m'))"
    unfolding assms(3) using evaluations [OF e1(1) reports_new, of d]
    by (auto simp: e1(2) NewTransportMonitor_def)
  with assms(4) show ?thesis by (auto simp: reports_ok_def)
qed

text \<open>The peer does not answer \<open>Discover\<close>, and answers in a millisecond from then on.\<close>

theorem monitor_loses_switch_witness:
  "\<exists>d e1 m. Discover insertion_sort (s_probe 0) zero_addr None s_endpoint = (Inr d, e1) \<and>
     en_monitor (fold (monitor_evaluates insertion_sort) [s_probe Millisecond, s_probe Millisecond] e1) = Some m \<and>
     td_UseRelay d \<and>
     en_decision (fold (monitor_evaluates insertion_sort) [s_probe Millisecond, s_probe Millisecond] e1) = Some d \<and>
     \<not> td_UseRelay (tm_current m)"
proof -
  let ?discovered = "Discover insertion_sort (s_probe 0) zero_addr None s_endpoint"
  let ?e2 = "fold (monitor_evaluates insertion_sort) [s_probe Millisecond, s_probe Millisecond] (snd ?discovered)"
  have "case fst ?discovered of Inl _ \<Rightarrow> False | Inr d \<Rightarrow> td_UseRelay d" by code_simp
  then obtain d where d: "fst ?discovered = Inr d" "td_UseRelay d" by (auto split: sum.splits)
  have "case en_monitor ?e2 of None \<Rightarrow> False | Some m \<Rightarrow> tm_calls m = []" by code_simp
  then obtain m where m: "en_monitor ?e2 = Some m" "tm_calls m = []" by (auto split: option.splits)
  have "?discovered = (Inr d, snd ?discovered)" using d(1) by (simp add: prod_eq_iff)
  moreover have "tc_Mode (en_transportCfg s_endpoint) = ModeDynamic"
    by (simp add: s_endpoint_def DefaultTransportConfig_def)
  note monitor_loses_switch [OF calculation this refl m(1)]
  ultimately show ?thesis using d(2) m by auto
qed

text \<open>C28. Peer mode is overridden (a defect): an endpoint that left dynamic mode and then discovered
  again, with the decision for the peer that this mode promises, still has the monitor of the
  earlier \<open>Discover\<close>; the first evaluation in which this one prefers a relay, after having
  preferred the peer, makes the relay the endpoint's decision.\<close>
theorem peer_mode_overridden:
  assumes "en_state e = StateActive" "tc_Mode cfg = ModePeer"
    and "en_monitor e = Some m" "tm_hasOnChange m" "\<not> td_UseRelay (tm_current m)"
    and "td_UseRelay (tm_current (evaluate sort_Slice pb' m))"
    and "Discover sort_Slice pb peer reg (SetTransportConfig cfg e) = (res, e1)"
  shows "\<exists>d. res = Inr d \<and> \<not> td_UseRelay d \<and> en_decision e1 = Some d \<and> en_monitor e1 = Some m \<and>
    en_decision (monitor_evaluates sort_Slice pb' e1) = Some (tm_current (evaluate sort_Slice pb' m))"
proof -
  have calls: "length (tm_calls m) < length (tm_calls (evaluate sort_Slice pb' m))"
    using assms(4-6) by (simp add: evaluate_def Let_def)
  have "ModePeer \<noteq> ModeDynamic" "ModePeer \<noteq> ModePinned" "ModePeer \<noteq> ModeRelay" by simp_all
  then show ?thesis
    using assms calls
    by (auto simp: Discover_def SetTransportConfig_def Let_def SelectTransport_def no_decision_def
        monitor_evaluates_def)
qed

theorem peer_mode_overridden_witness:
  "\<exists>d m e1. Discover insertion_sort (s_probe 1) zero_addr None (SetTransportConfig
       (DefaultTransportConfig\<lparr>tc_Mode := ModePeer\<rparr>) (s_endpoint\<lparr>en_monitor := Some m\<rparr>)) = (Inr d, e1) \<and>
     \<not> td_UseRelay d \<and>
     (\<exists>x. en_decision (monitor_evaluates insertion_sort (s_probe 0) e1) = Some x \<and> td_UseRelay x)"
proof -
  define m where "m = evaluate insertion_sort (s_probe Millisecond)
    (NewTransportMonitor DefaultTransportConfig zero_addr s_relays True)"
  let ?e = "s_endpoint\<lparr>en_monitor := Some m\<rparr>" and ?cfg = "DefaultTransportConfig\<lparr>tc_Mode := ModePeer\<rparr>"
  obtain res e1 where disc: "Discover insertion_sort (s_probe 1) zero_addr None (SetTransportConfig ?cfg ?e) = (res, e1)"
    by fastforce
  have m: "tm_hasOnChange m" "\<not> td_UseRelay (tm_current m)"
    unfolding m_def by code_simp+
  have relay: "td_UseRelay (tm_current (evaluate insertion_sort (s_probe 0) m))"
    unfolding m_def by code_simp
  have e: "en_state ?e = StateActive" "tc_Mode ?cfg = ModePeer" "en_monitor ?e = Some m"
    by (simp_all add: s_endpoint_def)
  from peer_mode_overridden [OF e m relay disc] disc relay show ?thesis by blast
qed

end
