(* ===== verification/Swarm_Config.thy ===== *)
theory Swarm_Config
  imports Discovery
begin

text \<open>
  The configuration of an endpoint, \<^verbatim>\<open>swarm/config.go\<close>. Opening and decoding the JSON file, the
  DNS lookup and \<open>time.ParseDuration\<close>, which rounds in floating point, are parameters;
  \<open>fmt.Sscanf\<close> is written out for the one format the code uses, on ASCII input.
\<close>

record TransportModeConfig =
  tm_Mode :: string
  tm_PinnedRelay :: string
  tm_ProbeInterval :: string
  tm_Threshold :: string

record EndpointConfig =
  cf_LocalID :: string
  cf_RelayEligible :: bool
  cf_Priority :: bool
  cf_RegistrarAddr :: string
  cf_RegistrarSRV :: string
  cf_Transport :: TransportModeConfig

datatype config_error =
    CfgOpen | CfgParse | CfgSRV string | CfgNoRecords string | CfgUnknownRole string
  | CfgUnknownMode string | CfgPinnedRelay | CfgProbeInterval | CfgThreshold

text \<open>\<open>open_file\<close> gives the contents, \<open>json_Decode\<close> the record they decode to.\<close>

definition LoadEndpointConfig ::
    "(string \<Rightarrow> string option) \<Rightarrow> (string \<Rightarrow> EndpointConfig option) \<Rightarrow> string
     \<Rightarrow> config_error + EndpointConfig" where
  "LoadEndpointConfig open_file json_Decode path =
     (case open_file path of
        None \<Rightarrow> Inl CfgOpen
      | Some f \<Rightarrow> (case json_Decode f of None \<Rightarrow> Inl CfgParse | Some cfg \<Rightarrow> Inr cfg))"

section \<open>The registrar's address\<close>

definition DefaultBrokerSRV :: string where
  "DefaultBrokerSRV = ''_swarmbroker._tcp.wixcloud.de''"

type_synonym srv_lookup = "string \<Rightarrow> (string \<times> u16) list option"

definition ResolveSRV :: "srv_lookup \<Rightarrow> string \<Rightarrow> config_error + string" where
  "ResolveSRV LookupSRV name =
     (case LookupSRV name of
        None \<Rightarrow> Inl (CfgSRV name)
      | Some addrs \<Rightarrow>
          (case addrs of
             [] \<Rightarrow> Inl (CfgNoRecords name)
           | (target, port) # _ \<Rightarrow>
               let host = (if target \<noteq> [] \<and> last target = CHR ''.'' then butlast target else target)
               in Inr (host @ '':'' @ show_nat (unat port))))"

definition ResolveRegistrar :: "srv_lookup \<Rightarrow> EndpointConfig \<Rightarrow> config_error + string" where
  "ResolveRegistrar LookupSRV c =
     (if cf_RegistrarAddr c \<noteq> [] then Inr (cf_RegistrarAddr c)
      else
        let srv = (if cf_RegistrarSRV c = [] then DefaultBrokerSRV else cf_RegistrarSRV c)
        in ResolveSRV LookupSRV srv)"

section \<open>Roles\<close>

definition ParseRole :: "string \<Rightarrow> config_error + byte" where
  "ParseRole role =
     (if role = ''client'' then Inr RoleClient
      else if role = ''agent'' then Inr RoleAgent
      else if role = ''relay'' then Inr RoleRelay
      else Inl (CfgUnknownRole role))"

definition BuildRoleFlags :: "string \<Rightarrow> EndpointConfig option \<Rightarrow> config_error + byte" where
  "BuildRoleFlags role cfg =
     (case ParseRole role of
        Inl err \<Rightarrow> Inl err
      | Inr r \<Rightarrow>
          let flags = (case cfg of
                None \<Rightarrow> 0
              | Some c \<Rightarrow> (if cf_RelayEligible c then FlagRelayEligible else 0)
                  OR (if cf_Priority c then FlagPriority else 0))
          in Inr (MakeRoleFlags r flags))"

section \<open>Scanning\<close>

definition is_space :: "char \<Rightarrow> bool" where
  "is_space c = (let n = of_char c :: nat in n = 32 \<or> 9 \<le> n \<and> n \<le> 13)"

text \<open>\<open>SkipSpace\<close> of \<open>Sscanf\<close>: a newline is an error.\<close>

fun skip_space :: "string \<Rightarrow> string option" where
  "skip_space [] = Some []"
| "skip_space (c # cs) =
     (if c = CHR 0x0A then None else if is_space c then skip_space cs else Some (c # cs))"

definition is_digit :: "char \<Rightarrow> bool" where
  "is_digit c = (let n = of_char c :: nat in 48 \<le> n \<and> n \<le> 57)"

text \<open>
  \<open>%d\<close> into an unsigned integer of \<open>w\<close> bits: the value and the rest. A number that does not fit
  into 64 bits fails as one that does not fit into \<open>w\<close> does.
\<close>

definition scan_uint :: "nat \<Rightarrow> string \<Rightarrow> (nat \<times> string) option" where
  "scan_uint w s =
     (case skip_space s of
        None \<Rightarrow> None
      | Some r \<Rightarrow>
          let tok = takeWhile is_digit r in
          if tok = [] then None
          else if 2 ^ w \<le> read_nat tok then None
          else Some (read_nat tok, dropWhile is_digit r))"

fun scan_dot :: "string \<Rightarrow> string option" where
  "scan_dot (c # cs) = (if c = CHR ''.'' then Some cs else None)"
| "scan_dot [] = None"

text \<open>The format \<open>%d.%d.%d\<close>; what follows the last number is not looked at.\<close>

definition scan_addr :: "string \<Rightarrow> (nat \<times> nat \<times> nat) option" where
  "scan_addr s =
     (case scan_uint 8 s of
        None \<Rightarrow> None
      | Some (d, s1) \<Rightarrow>
          (case Option.bind (scan_dot s1) (scan_uint 8) of
             None \<Rightarrow> None
           | Some (g, s2) \<Rightarrow>
               (case Option.bind (scan_dot s2) (scan_uint 16) of
                  None \<Rightarrow> None
                | Some (e, _) \<Rightarrow> Some (d, g, e))))"

section \<open>The transport\<close>

definition parse_mode :: "string \<Rightarrow> TransportMode option" where
  "parse_mode m =
     (if m = ''pinned'' then Some ModePinned
      else if m = ''relay'' then Some ModeRelay
      else if m = ''peer'' then Some ModePeer
      else if m = ''dynamic'' \<or> m = [] then Some ModeDynamic
      else None)"

definition TransportConfig_of ::
    "(string \<Rightarrow> duration option) \<Rightarrow> EndpointConfig \<Rightarrow> config_error + TransportConfig" where
  "TransportConfig_of ParseDuration c =
     (let t = cf_Transport c in
      case parse_mode (tm_Mode t) of
        None \<Rightarrow> Inl (CfgUnknownMode (tm_Mode t))
      | Some mode \<Rightarrow>
          let cfg = DefaultTransportConfig\<lparr>tc_Mode := mode\<rparr> in
          (case (if tm_PinnedRelay t = [] then Some None else map_option Some (scan_addr (tm_PinnedRelay t))) of
             None \<Rightarrow> Inl CfgPinnedRelay
           | Some pinned \<Rightarrow>
               let cfg1 = (case pinned of
                     None \<Rightarrow> cfg
                   | Some (d, g, e) \<Rightarrow> cfg\<lparr>tc_PinnedRelay := Some
                       \<lparr>ea_Domain = word_of_nat d, ea_Group = word_of_nat g,
                        ea_Endpoint = word_of_nat e, ea_RoleFlags = RoleRelay\<rparr>\<rparr>) in
               (case (if tm_ProbeInterval t = [] then Some (tc_ProbeInterval cfg1)
                      else ParseDuration (tm_ProbeInterval t)) of
                  None \<Rightarrow> Inl CfgProbeInterval
                | Some pi \<Rightarrow>
                    let cfg2 = cfg1\<lparr>tc_ProbeInterval := pi\<rparr> in
                    (case (if tm_Threshold t = [] then Some (tc_Threshold cfg2)
                           else ParseDuration (tm_Threshold t)) of
                       None \<Rightarrow> Inl CfgThreshold
                     | Some th \<Rightarrow> Inr (cfg2\<lparr>tc_Threshold := th\<rparr>)))))"

section \<open>Lemmas\<close>

text \<open>The role survives the flags, and the flags are the two of the configuration.\<close>

lemma BuildRoleFlags_role:
  assumes "BuildRoleFlags role cfg = Inr f"
  shows "ParseRole role = Inr (RoleOf f)"
    "HasFlag f FlagRelayEligible \<longleftrightarrow> (\<exists>c. cfg = Some c \<and> cf_RelayEligible c)"
    "HasFlag f FlagPriority \<longleftrightarrow> (\<exists>c. cfg = Some c \<and> cf_Priority c)"
  using assms
  by (auto simp: BuildRoleFlags_def ParseRole_def Let_def MakeRoleFlags_def RoleOf_def HasFlag_def
      split: if_splits option.splits)

lemma digit_is_digit: "c \<in> set (show_nat n) \<Longrightarrow> is_digit c"
  using show_nat_code by (auto simp: is_digit_def Let_def dest!: show_nat_code)

lemma skip_space_digits: "is_digit c \<Longrightarrow> skip_space (c # cs) = Some (c # cs)"
  by (auto simp: is_digit_def is_space_def Let_def)

lemma skip_space_show [simp]: "skip_space (show_nat n @ r) = Some (show_nat n @ r)"
  using digit_is_digit [of "hd (show_nat n)" n] skip_space_digits show_nat_nonempty
  by (metis append_Cons list.collapse list.set_sel(1))

text \<open>A printed number is scanned back when it fits and no digit follows.\<close>

lemma scan_uint_show:
  assumes "n < 2 ^ w" "r = [] \<or> \<not> is_digit (hd r)"
  shows "scan_uint w (show_nat n @ r) = Some (n, r)"
proof -
  have "takeWhile is_digit (show_nat n @ r) = show_nat n" "dropWhile is_digit (show_nat n @ r) = r"
    using assms(2) digit_is_digit by (cases r; auto simp: takeWhile_append2 dropWhile_append2)+
  with assms(1) show ?thesis by (simp add: scan_uint_def Let_def)
qed

lemma dot_not_digit [simp]: "\<not> is_digit CHR ''.''"
  by (simp add: is_digit_def)

lemma unat_byte: "unat (b :: byte) < 2 ^ 8" and unat_u16: "unat (w :: u16) < 2 ^ 16"
  using unsigned_less [of b] unsigned_less [of w] by simp_all

lemma scan_AddrKey:
  assumes "r = [] \<or> \<not> is_digit (hd r)"
  shows "scan_addr (AddrKey a @ r) = Some (unat (ea_Domain a), unat (ea_Group a), unat (ea_Endpoint a))"
proof -
  have part: "scan_uint 8 (show_nat (unat b) @ CHR ''.'' # x) = Some (unat b, CHR ''.'' # x)" for b :: byte and x
    by (rule scan_uint_show [OF unat_byte]) simp
  have "scan_uint 16 (show_nat (unat (ea_Endpoint a)) @ r) = Some (unat (ea_Endpoint a), r)"
    by (rule scan_uint_show [OF unat_u16 assms])
  then show ?thesis by (simp add: AddrKey_def scan_addr_def part)
qed

text \<open>Numbers that do not fit are refused.\<close>

lemma scan_uint_too_big:
  "2 ^ w \<le> n \<Longrightarrow> r = [] \<or> \<not> is_digit (hd r) \<Longrightarrow> scan_uint w (show_nat n @ r) = None"
proof -
  assume big: "2 ^ w \<le> n" and r: "r = [] \<or> \<not> is_digit (hd r)"
  have "takeWhile is_digit (show_nat n @ r) = show_nat n"
    using r digit_is_digit by (cases r) (auto simp: takeWhile_append2)
  with big show ?thesis by (simp add: scan_uint_def Let_def)
qed

section \<open>From the configuration to the decision\<close>

text \<open>Pinning works from the configuration file to the decision: when the mode is \<open>pinned\<close> and
  \<open>pinned_relay\<close> is the key of an address, as the program prints it (whatever follows it, if that
  is not a digit), the configuration is accepted with that address, as a relay, and the default
  interval and threshold; and for every list of relays, probed or not, the transport selected is
  a relay with exactly that key.\<close>
theorem pinned_relay_config:
  assumes "tm_Mode (cf_Transport c) = ''pinned''"
    and "tm_PinnedRelay (cf_Transport c) = AddrKey a @ rest" "rest = [] \<or> \<not> is_digit (hd rest)"
    and "tm_ProbeInterval (cf_Transport c) = []" "tm_Threshold (cf_Transport c) = []"
  shows "\<exists>cfg. TransportConfig_of ParseDuration c = Inr cfg \<and>
    cfg = DefaultTransportConfig\<lparr>tc_Mode := ModePinned, tc_PinnedRelay := Some (a\<lparr>ea_RoleFlags := RoleRelay\<rparr>)\<rparr> \<and>
    (\<exists>addr. td_UseRelay (SelectTransport sort_Slice cfg lat relays) \<and>
       td_RelayAddr (SelectTransport sort_Slice cfg lat relays) = Some addr \<and> AddrKey addr = AddrKey a)"
proof -
  let ?cfg = "DefaultTransportConfig\<lparr>tc_Mode := ModePinned, tc_PinnedRelay := Some (a\<lparr>ea_RoleFlags := RoleRelay\<rparr>)\<rparr>"
  have "AddrKey a @ rest \<noteq> []" by (simp add: AddrKey_def)
  then have "TransportConfig_of ParseDuration c = Inr ?cfg"
    using assms scan_AddrKey [OF assms(3), of a]
    by (simp add: TransportConfig_of_def parse_mode_def DefaultTransportConfig_def Let_def)
  moreover have "\<exists>addr. td_UseRelay (SelectTransport sort_Slice ?cfg lat relays) \<and>
      td_RelayAddr (SelectTransport sort_Slice ?cfg lat relays) = Some addr \<and> AddrKey addr = AddrKey a"
    by (auto simp: SelectTransport_def selectPinned_def AddrKey_def find_Some_iff split: option.split)
  ultimately show ?thesis by blast
qed

definition s_config :: EndpointConfig where
  "s_config = \<lparr>cf_LocalID = [], cf_RelayEligible = True, cf_Priority = False, cf_RegistrarAddr = [],
     cf_RegistrarSRV = [], cf_Transport = \<lparr>tm_Mode = ''pinned'', tm_PinnedRelay = ''0.1.7 #'',
       tm_ProbeInterval = [], tm_Threshold = []\<rparr>\<rparr>"

theorem pinned_relay_config_witness:
  "\<exists>cfg. TransportConfig_of (\<lambda>_. None) s_config = Inr cfg \<and> tc_Mode cfg = ModePinned \<and>
     td_RelayAddr (SelectTransport insertion_sort cfg 5 []) \<noteq> None"
proof -
  let ?a = "\<lparr>ea_Domain = 0, ea_Group = 1, ea_Endpoint = 7, ea_RoleFlags = 0\<rparr>"
  have key: "AddrKey ?a @ '' #'' = ''0.1.7 #''" by code_simp
  have "\<not> is_digit CHR '' ''" by code_simp
  then show ?thesis
    using pinned_relay_config [of s_config ?a "'' #''" "\<lambda>_. None" insertion_sort 5 "[]"]
    unfolding key by (auto simp: s_config_def)
qed

end
