(* ===== verification/Go_Flag.thy ===== *)
theory Go_Flag
  imports Gole_Prelude
begin

text \<open>
  What the command line of the tunnel uses of Go's standard library: \<open>strconv.ParseInt\<close> with
  base 0, \<open>strconv.Atoi\<close>, \<open>strconv.ParseBool\<close>, \<open>strings.Split\<close> and \<open>SplitN\<close>, \<open>ToLower\<close>, and
  the parser of the package \<open>flag\<close> under \<open>ExitOnError\<close>. Strings are byte sequences; case is
  ASCII case.
\<close>

text \<open>A result, or the end of the process: an exit with a status, or a panic.\<close>

datatype 'a outcome = Done 'a | Exit nat | Panic

section \<open>Numbers\<close>

datatype 'a num = NumOk 'a | NumRange | NumSyntax

definition lower_char :: "char \<Rightarrow> char" where
  "lower_char c = (let n = of_char c :: nat in if 65 \<le> n \<and> n \<le> 90 then char_of (n + 32) else c)"

definition ToLower :: "string \<Rightarrow> string" where
  "ToLower s = map lower_char s"

definition digit_val :: "char \<Rightarrow> int option" where
  "digit_val c =
     (let n = of_char c :: int; l = of_char (lower_char c) :: int in
      if 48 \<le> n \<and> n \<le> 57 then Some (n - 48)
      else if 97 \<le> l \<and> l \<le> 122 then Some (l - 97 + 10) else None)"

text \<open>The loop of \<open>ParseUint\<close> for 64 bits: the first bad digit or overflow decides.\<close>

fun digits :: "int \<Rightarrow> bool \<Rightarrow> int \<Rightarrow> string \<Rightarrow> int num" where
  "digits base us n [] = NumOk n"
| "digits base us n (c # cs) =
     (if us \<and> c = CHR ''_'' then digits base us n cs
      else case digit_val c of
        None \<Rightarrow> NumSyntax
      | Some d \<Rightarrow>
          if base \<le> d then NumSyntax
          else if 2 ^ 64 \<le> n * base + d then NumRange
          else digits base us (n * base + d) cs)"

text \<open>Underscores must separate digits, or the base prefix from a digit.\<close>

fun underscores :: "bool \<Rightarrow> char \<Rightarrow> string \<Rightarrow> bool" where
  "underscores hex i [] = (i \<noteq> CHR ''_'')"
| "underscores hex i (c # cs) =
     (let l = of_char (lower_char c) :: nat in
      if (48 \<le> l \<and> l \<le> 57) \<or> hex \<and> 97 \<le> l \<and> l \<le> 102 then underscores hex CHR ''0'' cs
      else if c = CHR ''_'' then i = CHR ''0'' \<and> underscores hex CHR ''_'' cs
      else i \<noteq> CHR ''_'' \<and> underscores hex CHR ''!'' cs)"

definition base_of :: "string \<Rightarrow> int \<times> string" where
  "base_of s =
     (case s of
        CHR ''0'' # r \<Rightarrow>
          (case r of
             p # q \<Rightarrow>
               if q = [] then (8, r)
               else if lower_char p = CHR ''b'' then (2, q)
               else if lower_char p = CHR ''o'' then (8, q)
               else if lower_char p = CHR ''x'' then (16, q) else (8, r)
           | [] \<Rightarrow> (8, r))
      | _ \<Rightarrow> (10, s))"

definition underscoreOK :: "string \<Rightarrow> bool" where
  "underscoreOK s =
     (case s of
        CHR ''0'' # p # q \<Rightarrow>
          if lower_char p \<in> {CHR ''b'', CHR ''o'', CHR ''x''}
          then underscores (lower_char p = CHR ''x'') CHR ''0'' q
          else underscores False CHR ''^'' s
      | _ \<Rightarrow> underscores False CHR ''^'' s)"

definition ParseUint0 :: "string \<Rightarrow> int num" where
  "ParseUint0 s =
     (if s = [] then NumSyntax
      else case base_of s of
        (base, r) \<Rightarrow>
          (case digits base True 0 r of
             NumOk n \<Rightarrow> if CHR ''_'' \<in> set r \<and> \<not> underscoreOK s then NumSyntax else NumOk n
           | e \<Rightarrow> e))"

definition ParseUint10 :: "string \<Rightarrow> int num" where
  "ParseUint10 s = (if s = [] then NumSyntax else digits 10 False 0 s)"

text \<open>The sign, and the range of 64-bit signed integers; the value beside a range error is clamped.\<close>

definition signed :: "(string \<Rightarrow> int num) \<Rightarrow> string \<Rightarrow> int num \<times> int" where
  "signed parse s =
     (let neg = (s \<noteq> [] \<and> hd s = CHR ''-'');
          r = (if s \<noteq> [] \<and> hd s \<in> {CHR ''+'', CHR ''-''} then tl s else s);
          clamped = (if neg then - (2 ^ 63) else 2 ^ 63 - 1) in
      case parse r of
        NumSyntax \<Rightarrow> (NumSyntax, 0)
      | NumRange \<Rightarrow> (NumRange, clamped)
      | NumOk n \<Rightarrow>
          if (\<not> neg \<and> 2 ^ 63 \<le> n) \<or> (neg \<and> 2 ^ 63 < n) then (NumRange, clamped)
          else let v = (if neg then - n else n) in (NumOk v, v))"

definition ParseInt0 :: "string \<Rightarrow> int num" where
  "ParseInt0 s = (if s = [] then NumSyntax else fst (signed ParseUint0 s))"

text \<open>The value of \<open>Atoi\<close>, its error ignored.\<close>

definition Atoi_value :: "string \<Rightarrow> int" where
  "Atoi_value s = snd (signed ParseUint10 s)"

definition ParseBool :: "string \<Rightarrow> bool option" where
  "ParseBool s =
     (if s \<in> {''1'', ''t'', ''T'', ''TRUE'', ''true'', ''True''} then Some True
      else if s \<in> {''0'', ''f'', ''F'', ''FALSE'', ''false'', ''False''} then Some False else None)"

section \<open>Splitting\<close>

fun Split :: "char \<Rightarrow> string \<Rightarrow> string list" where
  "Split sep [] = [[]]"
| "Split sep (c # cs) =
     (if c = sep then [] # Split sep cs
      else case Split sep cs of [] \<Rightarrow> [[c]] | p # ps \<Rightarrow> (c # p) # ps)"

text \<open>\<open>SplitN\<close> with \<open>n = 2\<close>: the key and what follows the first separator, if there is one.\<close>

definition SplitN2 :: "char \<Rightarrow> string \<Rightarrow> string \<times> string option" where
  "SplitN2 sep s =
     (let key = takeWhile (\<lambda>c. c \<noteq> sep) s
      in (key, if sep \<in> set s then Some (drop (length key + 1) s) else None))"

definition HasPrefix :: "string \<Rightarrow> string \<Rightarrow> bool" where
  "HasPrefix s p \<longleftrightarrow> take (length p) s = p"

section \<open>Flags\<close>

datatype flag_kind = BoolFlag | IntFlag | StringFlag
datatype flag_value = BoolVal bool | IntVal int | StringVal string

type_synonym flag_set = "(string \<times> flag_kind) list"
type_synonym settings = "(string \<times> flag_value) list"

text \<open>The flags that were set, in order, and the arguments left; or the exit code.\<close>

datatype parsed = Parsed settings "string list" | ParseExit nat

definition set_value :: "flag_kind \<Rightarrow> string \<Rightarrow> flag_value option" where
  "set_value k v =
     (case k of
        BoolFlag \<Rightarrow> map_option BoolVal (ParseBool v)
      | IntFlag \<Rightarrow> (case ParseInt0 v of NumOk n \<Rightarrow> Some (IntVal n) | _ \<Rightarrow> None)
      | StringFlag \<Rightarrow> Some (StringVal v))"

text \<open>
  One argument is a flag when it starts with a dash and is longer than that; \<open>--\<close> alone ends
  the flags. The name ends at the first \<open>=\<close> after its first character.
\<close>

definition flag_name :: "string \<Rightarrow> string" where
  "flag_name s = (if take 2 s = ''--'' then drop 2 s else drop 1 s)"

definition name_value :: "string \<Rightarrow> string \<times> string option" where
  "name_value name = (case SplitN2 CHR ''='' (tl name) of (n, v) \<Rightarrow> (hd name # n, v))"

fun Parse :: "flag_set \<Rightarrow> settings \<Rightarrow> string list \<Rightarrow> parsed" where
  "Parse fs acc [] = Parsed acc []"
| "Parse fs acc (s # args) =
     (if length s < 2 \<or> hd s \<noteq> CHR ''-'' then Parsed acc (s # args)
      else if s = ''--'' then Parsed acc args
      else
        let full = flag_name s in
        if full = [] \<or> hd full = CHR ''-'' \<or> hd full = CHR ''='' then ParseExit 2
        else
          case name_value full of
            (name, value) \<Rightarrow>
              (case map_of fs name of
                 None \<Rightarrow> ParseExit (if name = ''help'' \<or> name = ''h'' then 0 else 2)
               | Some k \<Rightarrow>
                   (case value of
                      Some v \<Rightarrow>
                        (case set_value k v of
                           None \<Rightarrow> ParseExit 2
                         | Some x \<Rightarrow> Parse fs (acc @ [(name, x)]) args)
                    | None \<Rightarrow>
                        if k = BoolFlag then Parse fs (acc @ [(name, BoolVal True)]) args
                        else
                          (case args of
                             [] \<Rightarrow> ParseExit 2
                           | v # args' \<Rightarrow>
                               (case set_value k v of
                                  None \<Rightarrow> ParseExit 2
                                | Some x \<Rightarrow> Parse fs (acc @ [(name, x)]) args')))))"

text \<open>A variable, bound to several names, has the last value set.\<close>

definition last_set :: "string list \<Rightarrow> settings \<Rightarrow> flag_value \<Rightarrow> flag_value" where
  "last_set names acc dflt = fold (\<lambda>(n, v) x. if n \<in> set names then v else x) acc dflt"

definition bool_flag :: "string list \<Rightarrow> settings \<Rightarrow> bool" where
  "bool_flag names acc = (case last_set names acc (BoolVal False) of BoolVal b \<Rightarrow> b | _ \<Rightarrow> False)"

definition int_flag :: "string \<Rightarrow> int \<Rightarrow> settings \<Rightarrow> int" where
  "int_flag name dflt acc = (case last_set [name] acc (IntVal dflt) of IntVal n \<Rightarrow> n | _ \<Rightarrow> dflt)"

definition string_flag :: "string \<Rightarrow> string \<Rightarrow> settings \<Rightarrow> string" where
  "string_flag name dflt acc = (case last_set [name] acc (StringVal dflt) of StringVal s \<Rightarrow> s | _ \<Rightarrow> dflt)"

end
