(* ===== verification/Machine_Id.thy ===== *)
theory Machine_Id
  imports Swarm_Types Go_Flag
begin

text \<open>
  The machine fingerprint, \<^verbatim>\<open>swarm/machineid.go\<close>. The machine identifier comes from a
  library, the interfaces from the system, and HMAC-SHA256 is a parameter.
\<close>

record iface =
  if_Up :: bool
  if_Loopback :: bool
  if_HardwareAddr :: bytes
  if_Name :: string

definition base62Dict :: string where
  "base62Dict = ''0123456789ABCDEFGHIJKLMNOPQRSTUVWXYZabcdefghijklmnopqrstuvwxyz''"

definition skipIfacePrefixes :: "string list" where
  "skipIfacePrefixes = [''docker'', ''veth'', ''br-'', ''virbr'', ''vboxnet'', ''lxcbr'',
     ''tailscale'', ''wg'', ''tun'', ''tap'', ''zt'', ''cni'']"

definition wiredIfacePrefixes :: "string list" where
  "wiredIfacePrefixes = [''eth'', ''eno'', ''enp'', ''ens'', ''enx'']"

fun has_any_prefix :: "string \<Rightarrow> string list \<Rightarrow> bool" where
  "has_any_prefix n [] \<longleftrightarrow> False"
| "has_any_prefix n (p # ps) \<longleftrightarrow> HasPrefix n p \<or> has_any_prefix n ps"

definition isSkippedIface :: "string \<Rightarrow> bool" where
  "isSkippedIface name =
     (let n = ToLower name in
      has_any_prefix n skipIfacePrefixes \<or>
      HasPrefix n ''wlan'' \<or> HasPrefix n ''wlp'' \<or> HasPrefix n ''wifi'')"

definition isWiredIface :: "string \<Rightarrow> bool" where
  "isWiredIface name = has_any_prefix (ToLower name) wiredIfacePrefixes"

text \<open>\<open>HardwareAddr.String\<close>: two hexadecimal digits per byte, separated by colons.\<close>

definition hex2 :: "byte \<Rightarrow> string" where
  "hex2 b = [''0123456789abcdef'' ! (unat b div 16), ''0123456789abcdef'' ! (unat b mod 16)]"

fun HardwareAddr_String :: "bytes \<Rightarrow> string" where
  "HardwareAddr_String [] = []"
| "HardwareAddr_String [b] = hex2 b"
| "HardwareAddr_String (b # bs) = hex2 b @ '':'' @ HardwareAddr_String bs"

text \<open>The loop over the interfaces, with the fallback found so far.\<close>

fun mac_loop :: "iface list \<Rightarrow> string \<Rightarrow> string" where
  "mac_loop [] fallback = fallback"
| "mac_loop (i # is) fallback =
     (if \<not> if_Up i then mac_loop is fallback
      else if if_Loopback i then mac_loop is fallback
      else if length (if_HardwareAddr i) = 0 then mac_loop is fallback
      else if isSkippedIface (if_Name i) then mac_loop is fallback
      else if isWiredIface (if_Name i) then HardwareAddr_String (if_HardwareAddr i)
      else if fallback = [] then mac_loop is (HardwareAddr_String (if_HardwareAddr i))
      else mac_loop is fallback)"

definition PrimaryMAC :: "iface list option \<Rightarrow> string option" where
  "PrimaryMAC net_Interfaces = map_option (\<lambda>ifaces. mac_loop ifaces []) net_Interfaces"

definition bytesToBase62 :: "bytes \<Rightarrow> string" where
  "bytesToBase62 b = map (\<lambda>x. base62Dict ! (unat x mod length base62Dict)) b"

definition Fingerprint ::
    "(bytes \<Rightarrow> bytes \<Rightarrow> bytes) \<Rightarrow> string \<Rightarrow> string \<Rightarrow> string \<Rightarrow> string \<Rightarrow> string" where
  "Fingerprint hmac_sha256 machineID mac localID role =
     (let key = bytes_of_string (machineID @ ''|'' @ mac);
          msg = bytes_of_string (localID @ ''|'' @ role);
          sum = hmac_sha256 key msg
      in bytesToBase62 sum)"

text \<open>An error of \<open>PrimaryMAC\<close> counts as no address.\<close>

definition DeriveFingerprint ::
    "(bytes \<Rightarrow> bytes \<Rightarrow> bytes) \<Rightarrow> string option \<Rightarrow> iface list option \<Rightarrow> string \<Rightarrow> string \<Rightarrow> string option" where
  "DeriveFingerprint hmac_sha256 MachineID net_Interfaces localID role =
     (case MachineID of
        None \<Rightarrow> None
      | Some mid \<Rightarrow>
          let mac = (case PrimaryMAC net_Interfaces of None \<Rightarrow> [] | Some m \<Rightarrow> m)
          in Some (Fingerprint hmac_sha256 mid mac localID role))"

section \<open>Lemmas\<close>

definition usable :: "iface \<Rightarrow> bool" where
  "usable i \<longleftrightarrow> if_Up i \<and> \<not> if_Loopback i \<and> if_HardwareAddr i \<noteq> [] \<and> \<not> isSkippedIface (if_Name i)"

lemma HardwareAddr_String_nonempty: "HardwareAddr_String b = [] \<longleftrightarrow> b = []"
  by (cases b rule: HardwareAddr_String.cases) (auto simp: hex2_def)

text \<open>The first usable wired interface, else the first usable one, else nothing.\<close>

lemma mac_loop_eq:
  "mac_loop is fallback =
     (case find (\<lambda>i. usable i \<and> isWiredIface (if_Name i)) is of
        Some i \<Rightarrow> HardwareAddr_String (if_HardwareAddr i)
      | None \<Rightarrow> if fallback \<noteq> [] then fallback
          else case find usable is of Some i \<Rightarrow> HardwareAddr_String (if_HardwareAddr i) | None \<Rightarrow> [])"
  by (induction "is" fallback rule: mac_loop.induct)
    (auto simp: usable_def HardwareAddr_String_nonempty split: option.split)

lemma PrimaryMAC_eq:
  "PrimaryMAC (Some is) = Some
     (case find (\<lambda>i. usable i \<and> isWiredIface (if_Name i)) is of
        Some i \<Rightarrow> HardwareAddr_String (if_HardwareAddr i)
      | None \<Rightarrow> (case find usable is of Some i \<Rightarrow> HardwareAddr_String (if_HardwareAddr i) | None \<Rightarrow> []))"
  by (simp add: PrimaryMAC_def mac_loop_eq)

text \<open>The message that is hashed determines the local name and the role.\<close>

lemma fingerprint_message_inject:
  assumes "CHR ''|'' \<notin> set role" "CHR ''|'' \<notin> set role'"
    and "localID @ ''|'' @ role = localID' @ ''|'' @ role'"
  shows "localID = localID' \<and> role = role'"
  using assms append_sep_inject_last [of "CHR ''|''" role role' localID localID'] by simp

text \<open>The encoding loses information: four or five byte values share each digit.\<close>

lemma bytesToBase62_lossy: "bytesToBase62 [x] = bytesToBase62 [x + 62]" if "unat x < 194" for x :: byte
proof -
  have "unat (x + 62) = unat x + 62" using that by (simp add: unat_plus_simple [THEN iffD1] unat_word_ariths)
  then show ?thesis by (simp add: bytesToBase62_def base62Dict_def)
qed

end
