(* ===== verification/Swarm_Cli.thy ===== *)
theory Swarm_Cli
  imports Swarm_Config Machine_Id Endpoint
begin

text \<open>
  The command \<^verbatim>\<open>swarm\<close>, \<^verbatim>\<open>cmd/swarm/*.go\<close>: the dispatch on the first argument, and the three
  subcommands with their flags. What they print is not modelled, except the fingerprint; an exit
  is its status. The demo is the composition of the registrar and the endpoint in one process.
\<close>

datatype command = RunFingerprint "string list" | RunConfig "string list" | RunDemo "string list"
  | ShowVersion | ShowHelp

definition swarm_main :: "string list \<Rightarrow> command outcome" where
  "swarm_main argv =
     (case argv of
        _ # cmd # args \<Rightarrow>
          if cmd = ''fingerprint'' \<or> cmd = ''fp'' then Done (RunFingerprint args)
          else if cmd = ''config'' then Done (RunConfig args)
          else if cmd = ''demo'' then Done (RunDemo args)
          else if cmd = ''version'' \<or> cmd = ''-v'' \<or> cmd = ''--version'' then Done ShowVersion
          else if cmd = ''help'' \<or> cmd = ''-h'' \<or> cmd = ''--help'' then Done ShowHelp
          else Exit 2
      | _ \<Rightarrow> Exit 2)"

section \<open>Fingerprint\<close>

text \<open>The result is the fingerprint printed; relays have none.\<close>

definition runFingerprint ::
    "(bytes \<Rightarrow> bytes \<Rightarrow> bytes) \<Rightarrow> string option \<Rightarrow> iface list option \<Rightarrow> string list \<Rightarrow> string option outcome" where
  "runFingerprint hmac_sha256 MachineID net_Interfaces args =
     (case Parse [(''local-id'', StringFlag), (''role'', StringFlag), (''v'', BoolFlag)] [] args of
        ParseExit n \<Rightarrow> Exit n
      | Parsed fs rest \<Rightarrow>
          let localID = string_flag ''local-id'' '''' fs; role = string_flag ''role'' ''client'' fs in
          (case ParseRole role of
             Inl err \<Rightarrow> Exit 1
           | Inr r \<Rightarrow>
               if role = ''relay'' then Done None
               else
                 (case MachineID of
                    None \<Rightarrow> Exit 1
                  | Some mid \<Rightarrow>
                      let mac = (case PrimaryMAC net_Interfaces of None \<Rightarrow> [] | Some m \<Rightarrow> m)
                      in Done (Some (Fingerprint hmac_sha256 mid mac localID role)))))"

section \<open>Config\<close>

text \<open>The result is the transport configuration printed, and the broker's address if it was asked for.\<close>

definition runConfigValidate ::
    "(string \<Rightarrow> string option) \<Rightarrow> (string \<Rightarrow> EndpointConfig option) \<Rightarrow> (string \<Rightarrow> duration option)
     \<Rightarrow> srv_lookup \<Rightarrow> string list \<Rightarrow> (TransportConfig \<times> (config_error + string) option) outcome" where
  "runConfigValidate open_file json_Decode ParseDuration LookupSRV args =
     (case Parse [(''resolve'', BoolFlag)] [] args of
        ParseExit n \<Rightarrow> Exit n
      | Parsed fs rest \<Rightarrow>
          if length rest \<noteq> 1 then Exit 1
          else
            (case LoadEndpointConfig open_file json_Decode (rest ! 0) of
               Inl err \<Rightarrow> Exit 1
             | Inr cfg \<Rightarrow>
                 (case TransportConfig_of ParseDuration cfg of
                    Inl err \<Rightarrow> Exit 1
                  | Inr tc \<Rightarrow>
                      Done (tc, if bool_flag [''resolve''] fs then Some (ResolveRegistrar LookupSRV cfg) else None))))"

definition runConfig ::
    "(string \<Rightarrow> string option) \<Rightarrow> (string \<Rightarrow> EndpointConfig option) \<Rightarrow> (string \<Rightarrow> duration option)
     \<Rightarrow> srv_lookup \<Rightarrow> string list \<Rightarrow> (TransportConfig \<times> (config_error + string) option) outcome" where
  "runConfig open_file json_Decode ParseDuration LookupSRV args =
     (case args of
        [] \<Rightarrow> Exit 1
      | cmd # rest \<Rightarrow>
          if cmd = ''validate'' then runConfigValidate open_file json_Decode ParseDuration LookupSRV rest
          else Exit 1)"

section \<open>Demo\<close>

definition Hour :: duration where
  "Hour = 3600000000000"

text \<open>What the administrator's goroutine does after its two seconds, at the registrar of then.\<close>

definition demo_admin :: "bool \<Rightarrow> time \<Rightarrow> Registrar \<Rightarrow> reg_op list" where
  "demo_admin denied now reg =
     (case ListPending reg of
        [] \<Rightarrow> []
      | pe # _ \<Rightarrow>
          if denied then [OpDeny (pl_RequestID pe)] else [OpApprove now (pl_RequestID pe) 2 3])"

text \<open>
  \<open>runDemo\<close>: \<open>regkey\<close> and \<open>epkey\<close> are the generated key pairs; \<open>evs\<close> is what \<open>AutoEnroll\<close> waits
  for, with the administrator's action in one of the timer events, and ends with \<open>Cancelled\<close> when
  the 30 seconds are over; the result is the endpoint and the registrar, or \<open>None\<close> while waiting.
\<close>

definition runDemo ::
    "prims \<Rightarrow> (bytes \<Rightarrow> bytes \<Rightarrow> bytes) \<Rightarrow> string option \<Rightarrow> iface list option
     \<Rightarrow> (bytes \<times> bytes) option \<Rightarrow> (bytes \<times> bytes) option \<Rightarrow> entropy \<Rightarrow> time \<Rightarrow> time \<Rightarrow> wait_event list
     \<Rightarrow> string list \<Rightarrow> (Endpoint \<times> Registrar) option outcome" where
  "runDemo P hmac_sha256 MachineID net_Interfaces regkey epkey ent now later evs args =
     (case Parse [(''pending'', BoolFlag), (''denied'', BoolFlag), (''role'', StringFlag),
                  (''local-id'', StringFlag)] [] args of
        ParseExit n \<Rightarrow> Exit n
      | Parsed fs rest \<Rightarrow>
          let pending = bool_flag [''pending''] fs; denied = bool_flag [''denied''] fs;
              role = string_flag ''role'' ''agent'' fs; localID = string_flag ''local-id'' ''demo'' fs in
          if pending \<and> denied then Exit 1
          else
            (case ParseRole role of
               Inl err \<Rightarrow> Exit 1
             | Inr roleFlag \<Rightarrow>
                 (case NewRegistrar regkey Hour of
                    Inl err \<Rightarrow> Exit 1
                  | Inr reg \<Rightarrow>
                      (case DeriveFingerprint hmac_sha256 MachineID net_Interfaces localID role of
                         None \<Rightarrow> Exit 1
                       | Some fp \<Rightarrow>
                           (case (if \<not> pending \<and> \<not> denied \<and> roleFlag \<noteq> RoleRelay
                                  then PreApprove fp 1 1 reg else (Inr (), reg)) of
                              (Inl err, _) \<Rightarrow> Exit 1
                            | (Inr u, reg1) \<Rightarrow>
                                (case NewEndpoint epkey of
                                   Inl err \<Rightarrow> Exit 1
                                 | Inr e \<Rightarrow>
                                     (case AutoEnroll P
                                             (DeriveFingerprint hmac_sha256 MachineID net_Interfaces localID
                                                (RoleName roleFlag))
                                             roleFlag (500 * Millisecond) ent now evs e reg1 of
                                        (None, _, _, _) \<Rightarrow> Done None
                                      | (Some (Inl err), _, _, _) \<Rightarrow> Exit 1
                                      | (Some (Inr v), e1, reg2, _) \<Rightarrow>
                                          (case Activate P later e1 reg2 of
                                             (Inl err, _, _) \<Rightarrow> Exit 1
                                           | (Inr w, e2, reg3) \<Rightarrow> Done (Some (e2, reg3))))))))))"

definition truncate :: "string \<Rightarrow> nat \<Rightarrow> string" where
  "truncate s n = (if length s \<le> n then s else take n s)"

section \<open>Lemmas\<close>

lemma RoleName_ParseRole: "ParseRole role = Inr r \<Longrightarrow> RoleName r = role"
  by (auto simp: ParseRole_def RoleName_def split: if_splits)

text \<open>
  The documented order of arguments, the path before \<open>--resolve\<close>, is refused for every
  configuration: the flag parser stops at the path.
\<close>

lemma validate_path_first:
  assumes "path = [] \<or> hd path \<noteq> CHR ''-''"
  shows "runConfigValidate op js pd srv [path, ''--resolve''] = Exit 1"
proof -
  have "length path < 2 \<or> hd path \<noteq> CHR ''-''" using assms by (cases path) auto
  then have "Parse [(''resolve'', BoolFlag)] [] [path, ''--resolve''] = Parsed [] [path, ''--resolve'']"
    by (simp only: Parse.simps if_True)
  then show ?thesis by (simp only: runConfigValidate_def) simp
qed

end
