(* ===== verification/Swarm_Demo.thy ===== *)
theory Swarm_Demo
  imports Swarm_Cli Endpoint_Props
begin

text \<open>
  The demo of \<^verbatim>\<open>cmd/swarm/demo.go\<close> end to end: configuration, fingerprint, registrar and
  endpoint together.
\<close>

definition demo_addr :: EndpointAddr where
  "demo_addr = \<lparr>ea_Domain = 1, ea_Group = 1, ea_Endpoint = 1, ea_RoleFlags = RoleAgent\<rparr>"

definition demo_claims :: "bytes \<Rightarrow> string \<Rightarrow> time \<Rightarrow> TokenClaims" where
  "demo_claims pub fp now =
     \<lparr>cl_EndpointID = 1, cl_Domain = 1, cl_Group = 1, cl_RoleFlags = RoleAgent, cl_PublicKey = pub,
      cl_Fingerprint = fp, cl_IssuedAt = now, cl_ExpiresAt = now + Hour, cl_Issuer = tokenIssuer\<rparr>"

lemma Parse_none [simp]: "Parse fs acc [] = Parsed acc []"
  by simp

text \<open>The flags of \<open>swarm demo\<close> without arguments.\<close>

lemma demo_flags:
  "bool_flag ns [] = False" "string_flag n d [] = d"
  by (simp_all add: bool_flag_def string_flag_def last_set_def)

text \<open>The demo succeeds: \<open>swarm demo\<close>, without arguments, starts a registrar, pre-approves the
  machine's fingerprint for domain 1, group 1, enrolls an agent without polling and activates it
  as endpoint 1, provided the machine has a fingerprint, the generated keys belong together, the
  claims can be marshalled and read back, and activation comes within the hour the token lives.\<close>
theorem demo_succeeds:
  assumes derive: "DeriveFingerprint hmac MachineID ifaces ''demo'' ''agent'' = Some fp" and fp: "fp \<noteq> []"
    and reg: "regkey = Some (rpub, rpriv)" "keypair P rpub rpriv"
    and ep: "epkey = Some (pub, priv)" "length pub = PublicKeySize"
    and ent: "randomRequestID ent = Some rid" "ent_nonce ent = Some nonce"
    and sig: "ed_Verify P pub nonce (ed_Sign P priv nonce)"
    and json: "json_ok P (demo_claims pub fp now)"
    and later: "later \<le> now + Hour"
  shows "\<exists>e r. runDemo P hmac MachineID ifaces regkey epkey ent now later evs [] = Done (Some (e, r)) \<and>
    en_state e = StateActive \<and> en_addr e = Some demo_addr \<and> isActive demo_addr r"
proof -
  obtain r0 where r0: "NewRegistrar (Some (rpub, rpriv)) Hour = Inr r0" by (simp add: NewRegistrar_def)
  obtain e where e: "NewEndpoint (Some (pub, priv)) = Inr e" by (simp add: NewEndpoint_def)
  define r where "r = snd (PreApprove fp 1 1 r0)"
  have pre: "PreApprove fp 1 1 r0 = (Inr (), r)" using fp by (simp add: r_def PreApprove_def)
  have run: "legal_ops (\<lambda>x r. fresh_op x r \<and> marshals_op P x r) (reg_exec P) [OpPreApprove fp 1 1] r0"
    "r = run_ops (reg_exec P) [OpPreApprove fp 1 1] r0"
    by (simp_all add: r_def)
  have facts: "gm_get (rg_byFingerprint r) fp = None" "countEndpoints 1 1 r = 0"
    "gm_get (rg_preApproved r) fp = Some \<lparr>am_Domain = 1, am_Group = 1\<rparr>"
    "gm_get (rg_pending r) rid = None" "rg_tokenTTL r = Hour" "rg_publicKey r = rpub" "rg_privateKey r = rpriv"
    using r0 fp by (auto simp: r_def NewRegistrar_def PreApprove_def countEndpoints_def gm_len_def)
  have "\<exists>e2 r2 e3 r3. AutoEnroll P (Some fp) RoleAgent (500 * Millisecond) ent now evs e r =
      (Some (Inr ()), e2, r2, []) \<and> en_state e2 = StateRegistered \<and> en_addr e2 = Some demo_addr \<and>
    Activate P later e2 r2 = (Inr (), e3, r3) \<and> en_state e3 = StateActive \<and>
    en_registrarKey e3 = rg_publicKey r \<and> en_addr e3 = Some demo_addr \<and> isActive demo_addr r3"
  proof (rule zero_touch [OF r0 run e ep(2) fp facts(1,3) _ _ ent(1) facts(4) ent(2) sig])
    show "json_ok P \<lparr>cl_EndpointID = ea_Endpoint demo_addr, cl_Domain = ea_Domain demo_addr,
      cl_Group = ea_Group demo_addr, cl_RoleFlags = RoleAgent, cl_PublicKey = pub, cl_Fingerprint = fp,
      cl_IssuedAt = now, cl_ExpiresAt = now + rg_tokenTTL r, cl_Issuer = tokenIssuer\<rparr>"
      using json by (simp add: demo_claims_def demo_addr_def facts)
  qed (use facts reg(2) later in \<open>simp_all add: demo_addr_def RoleOf_def\<close>)
  then obtain e2 r2 e3 r3 where auto: "AutoEnroll P (Some fp) RoleAgent (500 * Millisecond) ent now evs e r =
      (Some (Inr ()), e2, r2, [])" and act: "Activate P later e2 r2 = (Inr (), e3, r3)" "en_state e3 = StateActive"
      "en_addr e3 = Some demo_addr" "isActive demo_addr r3" by blast
  have "runDemo P hmac MachineID ifaces regkey epkey ent now later evs [] = Done (Some (e3, r3))"
    using derive r0 pre e auto act(1)
    by (simp add: runDemo_def demo_flags ParseRole_def RoleName_def reg(1) ep(1))
  with act show ?thesis by blast
qed

text \<open>A sample: a fixed hash, and a registrar key that signs one token.\<close>

definition d_hmac :: "bytes \<Rightarrow> bytes \<Rightarrow> bytes" where
  "d_hmac k m = [0, 10]"

definition d_claims :: TokenClaims where
  "d_claims = demo_claims (replicate 32 2) ''0A'' 5"

definition d_P :: prims where
  "d_P = \<lparr>ed_Sign = (\<lambda>k m. s_sig),
     ed_Verify = (\<lambda>pub m s. s = s_sig \<and> (pub = replicate 32 1 \<longrightarrow> m = signed_part [9])),
     json_Marshal = (\<lambda>c. if c = d_claims then Some [9] else None),
     json_Unmarshal = (\<lambda>b. if b = [9] then Some d_claims else None)\<rparr>"

theorem demo_succeeds_witness:
  "\<exists>e r. runDemo d_P d_hmac (Some ''m'') None (Some (replicate 32 1, [])) (Some (replicate 32 2, []))
      (s_ent 1) 5 1000 [] [] = Done (Some (e, r)) \<and> en_addr e = Some demo_addr"
proof -
  have fp: "DeriveFingerprint d_hmac (Some ''m'') None ''demo'' ''agent'' = Some ''0A''"
    by (simp add: DeriveFingerprint_def Fingerprint_def d_hmac_def bytesToBase62_def base62Dict_def Let_def)
  have pair: "keypair d_P (replicate 32 1) []"
    by (auto simp: keypair_def d_P_def s_sig_def split: if_splits)
  have json: "json_ok d_P (demo_claims (replicate 32 2) ''0A'' 5)"
    by (simp add: json_ok_def d_P_def d_claims_def)
  have "replicate 32 (2 :: byte) \<noteq> replicate 32 1" by (simp add: replicate_eq_replicate)
  then have sig: "ed_Verify d_P (replicate 32 2) [1] (ed_Sign d_P [] [1])" by (simp add: d_P_def)
  have ent: "randomRequestID (s_ent 1) = Some (s_rid 1)" "ent_nonce (s_ent 1) = Some [1]"
    by (simp_all add: s_ent_def s_rid_def randomRequestID_def)
  have "\<exists>e r. runDemo d_P d_hmac (Some ''m'') None (Some (replicate 32 1, [])) (Some (replicate 32 2, []))
      (s_ent 1) 5 1000 [] [] = Done (Some (e, r)) \<and>
    en_state e = StateActive \<and> en_addr e = Some demo_addr \<and> isActive demo_addr r"
    by (rule demo_succeeds [OF fp _ refl pair refl _ ent sig json]) (simp_all add: Hour_def)
  then show ?thesis by blast
qed

end
