(* ===== verification/Crypt.thy ===== *)
theory Crypt
  imports Gole_Prelude
begin

text \<open>
  The XOR ciphers of the tunnel, \<^verbatim>\<open>crypt.go\<close>: \<open>EConnXor\<close> over a stream, whose read and write
  positions in the key move with the bytes, and \<open>EPacketConnXor\<close> over packets, which starts at
  the front of the key each time. The function \<open>xor.Bytes\<close> and the key derivation are library
  functions and so parameters; the locale \<open>xor_lib\<close> is the documented contract of the first:
  it combines as many bytes as the shortest of its three slices has, in place, and returns
  their number. The first group of lemmas reduces the loops of \<open>EConnXor\<close> to an abstract
  specification, the combination of the stream with a periodic key stream.
\<close>

type_synonym xor_fun = "bytes \<Rightarrow> bytes \<Rightarrow> bytes \<Rightarrow> bytes \<times> nat"
  \<comment> \<open>destination before, operands; destination after, number of bytes\<close>

type_synonym io_error = string

type_synonym pbkdf2 = "bytes \<Rightarrow> bytes \<Rightarrow> nat \<Rightarrow> nat \<Rightarrow> bytes"
  \<comment> \<open>password, salt, iterations, length of the key\<close>

section \<open>The stream cipher\<close>

record EConnXor =
  ec_key :: bytes
  ec_key_ri :: nat
  ec_key_wi :: nat

text \<open>
  The loop of \<open>Read\<close> and \<open>Write\<close>: \<open>b[i:n]\<close> is what is left to combine, \<open>ki\<close> the position in
  the key. The result is the buffer and the new position.
\<close>

function crypt_loop :: "xor_fun \<Rightarrow> bytes \<Rightarrow> nat \<Rightarrow> bytes \<Rightarrow> nat \<Rightarrow> nat \<Rightarrow> bytes \<times> nat" where
  "crypt_loop xb key n b i ki =
     (if i < n then
        (case xb (take (n - i) (drop i b)) (take (n - i) (drop i b)) (drop ki key) of
           (seg, ct) \<Rightarrow>
             let b1 = take i b @ seg @ drop n b in
             if ct = 0 then (b1, ki)
             else crypt_loop xb key n b1 (i + ct) ((ki + ct) mod length key))
      else (b, ki))"
  by pat_completeness auto
termination
  by (relation "measure (\<lambda>(xb, key, n, b, i, ki). n - i)") auto

declare crypt_loop.simps [simp del]

text \<open>
  \<open>Read\<close> into the buffer \<open>b\<close>: the connection stores \<open>data\<close> at its front and returns \<open>err\<close>.
\<close>

definition EConnXor_Read ::
    "xor_fun \<Rightarrow> bytes \<times> io_error option \<Rightarrow> bytes \<Rightarrow> EConnXor
     \<Rightarrow> (nat \<times> io_error option) \<times> bytes \<times> EConnXor" where
  "EConnXor_Read xb rd b e =
     (case rd of (data, err) \<Rightarrow>
        let n = length data; b0 = data @ drop n b in
        case crypt_loop xb (ec_key e) n b0 0 (ec_key_ri e) of
          (b1, ki) \<Rightarrow> ((n, err), b1, e\<lparr>ec_key_ri := ki\<rparr>))"

text \<open>\<open>Write\<close>: the caller's buffer is encrypted in place and handed to the connection.\<close>

definition EConnXor_Write ::
    "xor_fun \<Rightarrow> (bytes \<Rightarrow> nat \<times> io_error option) \<Rightarrow> bytes \<Rightarrow> EConnXor
     \<Rightarrow> (nat \<times> io_error option) \<times> bytes \<times> EConnXor" where
  "EConnXor_Write xb conn_Write b e =
     (case crypt_loop xb (ec_key e) (length b) b 0 (ec_key_wi e) of
        (b1, ki) \<Rightarrow> (conn_Write b1, b1, e\<lparr>ec_key_wi := ki\<rparr>))"

section \<open>The packet cipher\<close>

record EPacketConnXor =
  pc_key :: bytes

definition EPacketConnXor_ReadFrom ::
    "xor_fun \<Rightarrow> bytes \<times> 'addr \<times> io_error option \<Rightarrow> bytes \<Rightarrow> EPacketConnXor
     \<Rightarrow> (nat \<times> 'addr \<times> io_error option) \<times> bytes" where
  "EPacketConnXor_ReadFrom xb rd b e =
     (case rd of (data, addr, err) \<Rightarrow>
        let n = length data; b0 = data @ drop n b in
        ((n, addr, err), fst (xb b0 (take n b0) (pc_key e))))"

definition EPacketConnXor_WriteTo ::
    "xor_fun \<Rightarrow> (bytes \<Rightarrow> nat \<times> io_error option) \<Rightarrow> bytes \<Rightarrow> EPacketConnXor
     \<Rightarrow> (nat \<times> io_error option) \<times> bytes" where
  "EPacketConnXor_WriteTo xb conn_WriteTo b e =
     (let b1 = fst (xb b b (pc_key e)) in (conn_WriteTo b1, b1))"

text \<open>\<open>Read\<close> and \<open>Write\<close> need the packet connection to be a \<open>net.Conn\<close> as well.\<close>

definition not_implemented :: io_error where
  "not_implemented = ''not implemented''"

definition EPacketConnXor_Read ::
    "xor_fun \<Rightarrow> (bytes \<times> io_error option) option \<Rightarrow> bytes \<Rightarrow> EPacketConnXor
     \<Rightarrow> (nat \<times> io_error option) \<times> bytes" where
  "EPacketConnXor_Read xb as_conn b e =
     (case as_conn of
        None \<Rightarrow> ((0, Some not_implemented), b)
      | Some (data, err) \<Rightarrow>
          let n = length data; b0 = data @ drop n b in
          ((n, err), fst (xb b0 (take n b0) (pc_key e))))"

definition EPacketConnXor_Write ::
    "xor_fun \<Rightarrow> (bytes \<Rightarrow> nat \<times> io_error option) option \<Rightarrow> bytes \<Rightarrow> EPacketConnXor
     \<Rightarrow> (nat \<times> io_error option) \<times> bytes" where
  "EPacketConnXor_Write xb as_conn b e =
     (case as_conn of
        None \<Rightarrow> ((0, Some not_implemented), b)
      | Some conn_Write \<Rightarrow> let b1 = fst (xb b b (pc_key e)) in (conn_Write b1, b1))"

section \<open>Constructors\<close>

definition crypt_salt :: bytes where
  "crypt_salt = bytes_of_string ''saltybiscuit''"

definition NewEConn :: "pbkdf2 \<Rightarrow> string \<Rightarrow> string \<Rightarrow> EConnXor" where
  "NewEConn pbkdf2_Key enc key =
     (let k = pbkdf2_Key (bytes_of_string key) crypt_salt 64 4096
      in \<lparr>ec_key = k, ec_key_ri = 0, ec_key_wi = 0\<rparr>)"

definition NewEPacketConn :: "pbkdf2 \<Rightarrow> string \<Rightarrow> string \<Rightarrow> EPacketConnXor" where
  "NewEPacketConn pbkdf2_Key enc key =
     (let k = pbkdf2_Key (bytes_of_string key) crypt_salt 64 4096 in \<lparr>pc_key = k\<rparr>)"

section \<open>The contract of the library function\<close>

locale xor_lib =
  fixes xor_Bytes :: xor_fun
  assumes count: "snd (xor_Bytes dst a b) = min (length dst) (min (length a) (length b))"
    and len: "length (fst (xor_Bytes dst a b)) = length dst"
    and combined: "i < snd (xor_Bytes dst a b) \<Longrightarrow> fst (xor_Bytes dst a b) ! i = a ! i XOR b ! i"
    and untouched: "snd (xor_Bytes dst a b) \<le> i \<Longrightarrow> i < length dst \<Longrightarrow> fst (xor_Bytes dst a b) ! i = dst ! i"

definition key_byte :: "bytes \<Rightarrow> nat \<Rightarrow> nat \<Rightarrow> byte" where
  "key_byte key k j = key ! ((k + j) mod length key)"

definition stream_xor :: "bytes \<Rightarrow> nat \<Rightarrow> bytes \<Rightarrow> bytes" where
  "stream_xor key k bs = map (\<lambda>j. bs ! j XOR key_byte key k j) [0..<length bs]"

lemma length_stream_xor [simp]: "length (stream_xor key k bs) = length bs"
  by (simp add: stream_xor_def)

lemma nth_stream_xor [simp]: "j < length bs \<Longrightarrow> stream_xor key k bs ! j = bs ! j XOR key_byte key k j"
  by (simp add: stream_xor_def)

lemma stream_xor_twice [simp]: "stream_xor key k (stream_xor key k bs) = bs"
  by (simp add: list_eq_iff_nth_eq xor.assoc)

lemma stream_xor_Nil [simp]: "stream_xor key k [] = []"
  by (simp add: stream_xor_def)

lemma key_byte_shift: "key_byte key ((k + m) mod length key) j = key_byte key k (m + j)"
  by (simp add: key_byte_def mod_add_left_eq add.assoc)

lemma stream_xor_append:
  "stream_xor key k (xs @ ys) = stream_xor key k xs @ stream_xor key ((k + length xs) mod length key) ys"
proof (rule nth_equalityI)
  fix j assume "j < length (stream_xor key k (xs @ ys))"
  then show "stream_xor key k (xs @ ys) ! j =
    (stream_xor key k xs @ stream_xor key ((k + length xs) mod length key) ys) ! j"
    by (auto simp: nth_append key_byte_shift)
qed simp

lemma stream_xor_take: "take m (stream_xor key k bs) = stream_xor key k (take m bs)"
  by (rule nth_equalityI) auto

text \<open>The specification of the packet cipher: one key stream per packet, as long as the key.\<close>

definition packet_xor :: "bytes \<Rightarrow> bytes \<Rightarrow> bytes" where
  "packet_xor key p = stream_xor key 0 (take (length key) p) @ drop (length key) p"

lemma length_packet_xor [simp]: "length (packet_xor key p) = length p"
  by (auto simp: packet_xor_def)

lemma nth_packet_xor:
  "i < length p \<Longrightarrow> packet_xor key p ! i = (if i < length key then p ! i XOR key ! i else p ! i)"
  by (auto simp: packet_xor_def nth_append key_byte_def)

lemma packet_xor_twice [simp]: "packet_xor key (packet_xor key p) = p"
  by (simp add: list_eq_iff_nth_eq nth_packet_xor xor.assoc)

lemma take_packet_xor: "take m (packet_xor key p) = packet_xor key (take m p)"
  by (rule nth_equalityI) (auto simp: nth_packet_xor)

lemma packet_xor_front:
  "take (length key) (packet_xor key p) = stream_xor key 0 (take (length key) p)"
  "drop (length key) (packet_xor key p) = drop (length key) p"
  by (cases "length p \<le> length key"; simp add: packet_xor_def)+

context xor_lib begin

text \<open>One call on a slice, with itself as the first operand.\<close>

lemma segment:
  assumes "k < length key"
  shows "xor_Bytes s s (drop k key) =
    (stream_xor key k (take (min (length s) (length key - k)) s) @ drop (length key - k) s,
     min (length s) (length key - k))"
    (is "_ = (?r, ?n)")
proof -
  have n: "snd (xor_Bytes s s (drop k key)) = ?n" by (simp add: count)
  have "fst (xor_Bytes s s (drop k key)) = ?r"
  proof (rule nth_equalityI)
    show "length (fst (xor_Bytes s s (drop k key))) = length ?r" by (auto simp: len)
    fix i assume "i < length (fst (xor_Bytes s s (drop k key)))"
    then have i: "i < length s" by (simp add: len)
    show "fst (xor_Bytes s s (drop k key)) ! i = ?r ! i"
    proof (cases "i < ?n")
      case True
      then have "k + i < length key" by (simp add: less_diff_conv add.commute)
      then have "key_byte key k i = drop k key ! i" by (simp add: key_byte_def)
      with True n show ?thesis by (simp add: combined nth_append)
    next
      case False
      with i n show ?thesis by (simp add: untouched nth_append)
    qed
  qed
  with n show ?thesis by (metis prod.collapse)
qed

text \<open>The loop, wherever the key wraps around, combines the rest of the slice with the key stream.\<close>

lemma crypt_loop:
  assumes "ki < length key" "i \<le> n" "n \<le> length b"
  shows "crypt_loop xor_Bytes key n b i ki =
    (take i b @ stream_xor key ki (take (n - i) (drop i b)) @ drop n b, (ki + (n - i)) mod length key)"
  using assms
proof (induction "n - i" arbitrary: b i ki rule: less_induct)
  case less
  let ?L = "length key"
  define s where "s = take (n - i) (drop i b)"
  define m where "m = min (length s) (?L - ki)"
  define b1 where "b1 = take i b @ stream_xor key ki (take m s) @ drop m s @ drop n b"
  show ?case
  proof (cases "i < n")
    case True
    with less.prems have m: "m \<noteq> 0" "m \<le> n - i" "length s = n - i" by (auto simp: m_def s_def)
    have drop: "drop (?L - ki) s = drop m s" by (auto simp: m_def min_def)
    have seg: "xor_Bytes s s (drop ki key) = (stream_xor key ki (take m s) @ drop m s, m)"
      using segment [OF less.prems(1), of s] unfolding drop m_def [symmetric] .
    have whole: "stream_xor key ki s =
        stream_xor key ki (take m s) @ stream_xor key ((ki + m) mod ?L) (drop m s)"
      using stream_xor_append [of key ki "take m s" "drop m s"] m by simp
    have "crypt_loop xor_Bytes key n b i ki =
        crypt_loop xor_Bytes key n b1 (i + m) ((ki + m) mod ?L)"
      using True m by (subst crypt_loop.simps) (simp add: seg Let_def b1_def flip: s_def)
    also have "\<dots> = (take (i + m) b1 @ stream_xor key ((ki + m) mod ?L)
        (take (n - (i + m)) (drop (i + m) b1)) @ drop n b1, ((ki + m) mod ?L + (n - (i + m))) mod ?L)"
      using less.prems m by (intro less.hyps) (auto simp: b1_def intro!: mod_less_divisor)
    also have "take (i + m) b1 = take i b @ stream_xor key ki (take m s)"
      using less.prems m by (simp add: b1_def)
    also have "take (n - (i + m)) (drop (i + m) b1) = drop m s"
      using less.prems m by (simp add: b1_def)
    also have "drop n b1 = drop n b" using less.prems m by (simp add: b1_def)
    also have "((ki + m) mod ?L + (n - (i + m))) mod ?L = (ki + (n - i)) mod ?L"
    proof -
      have "ki + m + (n - (i + m)) = ki + (n - i)" using m True by simp
      then show ?thesis by (metis mod_add_left_eq)
    qed
    finally show ?thesis using whole by (simp flip: s_def)
  next
    case False
    with less.prems show ?thesis by (subst crypt_loop.simps) simp
  qed
qed

lemma Write_eq:
  assumes "ec_key_wi e < length (ec_key e)"
  shows "EConnXor_Write xor_Bytes conn_Write b e =
    (let c = stream_xor (ec_key e) (ec_key_wi e) b
     in (conn_Write c, c, e\<lparr>ec_key_wi := (ec_key_wi e + length b) mod length (ec_key e)\<rparr>))"
  using assms by (simp add: EConnXor_Write_def crypt_loop Let_def)

lemma Read_eq:
  assumes "ec_key_ri e < length (ec_key e)" "length data \<le> length b"
  shows "EConnXor_Read xor_Bytes (data, err) b e =
    ((length data, err), stream_xor (ec_key e) (ec_key_ri e) data @ drop (length data) b,
     e\<lparr>ec_key_ri := (ec_key_ri e + length data) mod length (ec_key e)\<rparr>)"
  using assms by (simp add: EConnXor_Read_def crypt_loop Let_def)

lemma packet: "fst (xor_Bytes b b key) = packet_xor key b"
proof (rule nth_equalityI)
  fix i assume "i < length (fst (xor_Bytes b b key))"
  then show "fst (xor_Bytes b b key) ! i = packet_xor key b ! i"
    by (cases "i < length key") (simp_all add: len count combined untouched nth_packet_xor)
qed (simp add: len)

text \<open>Received data in front of what the buffer held: only the data takes part.\<close>

lemma packet_read: "take (length data) (fst (xor_Bytes (data @ rest) data key)) = packet_xor key data"
proof (rule nth_equalityI)
  fix i assume "i < length (take (length data) (fst (xor_Bytes (data @ rest) data key)))"
  then have "i < length data" by simp
  then show "take (length data) (fst (xor_Bytes (data @ rest) data key)) ! i = packet_xor key data ! i"
    by (cases "i < length key") (simp_all add: count combined untouched nth_append nth_packet_xor)
qed (simp add: len)

end

end
