(* ===== verification/Crypt_Props.thy ===== *)
theory Crypt_Props
  imports Crypt
begin

text \<open>
  Sessions over the ciphers of \<^verbatim>\<open>crypt.go\<close>: what one end of an \<open>EConnXor\<close> connection sends and
  gets, whatever its sequence of reads and writes, and that the other end decrypts it; and the
  same for one packet. The contract of \<open>xor.Bytes\<close> is discharged for a reference function.
\<close>

section \<open>A function with the contract\<close>

definition xor_ref :: xor_fun where
  "xor_ref dst a b =
     (let n = min (length dst) (min (length a) (length b))
      in (map2 (XOR) (take n a) (take n b) @ drop n dst, n))"

interpretation xor_ref: xor_lib xor_ref
  by unfold_locales (auto simp: xor_ref_def Let_def nth_append)

section \<open>One end of a connection\<close>

text \<open>A read carries what the connection delivered and the buffer it was read into.\<close>

datatype econn_op = DoWrite bytes | DoRead bytes bytes

fun econn_run :: "xor_fun \<Rightarrow> econn_op list \<Rightarrow> EConnXor \<Rightarrow> bytes \<times> bytes \<times> EConnXor" where
  "econn_run xb [] e = ([], [], e)"
| "econn_run xb (DoWrite b # ops) e =
     (case EConnXor_Write xb (\<lambda>c. (length c, None)) b e of
        (_, c, e1) \<Rightarrow> (case econn_run xb ops e1 of (sent, got, e2) \<Rightarrow> (c @ sent, got, e2)))"
| "econn_run xb (DoRead data b # ops) e =
     (case EConnXor_Read xb (data, None) b e of
        ((n, _), b1, e1) \<Rightarrow>
          (case econn_run xb ops e1 of (sent, got, e2) \<Rightarrow> (sent, take n b1 @ got, e2)))"

fun written :: "econn_op list \<Rightarrow> bytes" where
  "written [] = []"
| "written (DoWrite b # ops) = b @ written ops"
| "written (DoRead data b # ops) = written ops"

fun received :: "econn_op list \<Rightarrow> bytes" where
  "received [] = []"
| "received (DoWrite b # ops) = received ops"
| "received (DoRead data b # ops) = data @ received ops"

fun fits :: "econn_op \<Rightarrow> bool" where
  "fits (DoWrite b) \<longleftrightarrow> True"
| "fits (DoRead data b) \<longleftrightarrow> length data \<le> length b"

context xor_lib begin

text \<open>The refinement: an end of a connection is two positions in one key stream.\<close>

lemma econn_run:
  assumes "list_all fits ops" "ec_key_wi e < length (ec_key e)" "ec_key_ri e < length (ec_key e)"
  shows "econn_run xor_Bytes ops e =
    (stream_xor (ec_key e) (ec_key_wi e) (written ops), stream_xor (ec_key e) (ec_key_ri e) (received ops),
     e\<lparr>ec_key_wi := (ec_key_wi e + length (written ops)) mod length (ec_key e),
       ec_key_ri := (ec_key_ri e + length (received ops)) mod length (ec_key e)\<rparr>)"
  using assms
proof (induction ops arbitrary: e)
  case Nil
  then show ?case by simp
next
  case (Cons x ops)
  have pos: "0 < length (ec_key e)" using Cons.prems by linarith
  show ?case
  proof (cases x)
    case (DoWrite b)
    with Cons pos show ?thesis
      by (simp add: Write_eq Let_def stream_xor_append mod_add_left_eq add.assoc)
  next
    case (DoRead data b)
    with Cons pos show ?thesis
      by (simp add: Read_eq stream_xor_append mod_add_left_eq add.assoc)
  qed
qed

end

lemma NewEConn_fields:
  assumes "length (pb (bytes_of_string key) crypt_salt 64 4096) = 4096"
  shows "ec_key (NewEConn pb enc key) = pb (bytes_of_string key) crypt_salt 64 4096"
    "ec_key_wi (NewEConn pb enc key) = 0" "ec_key_ri (NewEConn pb enc key) = 0"
    "ec_key_wi (NewEConn pb enc key) < length (ec_key (NewEConn pb enc key))"
    "ec_key_ri (NewEConn pb enc key) < length (ec_key (NewEConn pb enc key))"
  unfolding NewEConn_def Let_def using assms by simp_all

text \<open>C29. The encrypted stream is transparent: two ends made with the same key string, each doing any
  sequence of reads and writes of any sizes. Whatever part of what one end put on the wire the
  other has read, in whatever pieces, comes out as the same part of what the first end wrote, and
  on the wire is the text combined with one key stream of period 4096, whatever \<open>enc\<close> says.
  Hypotheses on the libraries: the contract of \<open>xor.Bytes\<close> and the length of the derived key.\<close>
theorem econn_stream:
  assumes xb: "xor_lib xb" and key: "length (pb (bytes_of_string key) crypt_salt 64 4096) = 4096"
    and fit: "list_all fits ops" "list_all fits ops'"
    and run: "econn_run xb ops (NewEConn pb enc key) = (sent, got, e)"
    and run': "econn_run xb ops' (NewEConn pb enc' key) = (sent', got', e')"
    and wire: "received ops' = take k sent"
  shows "got' = take k (written ops) \<and> length sent = length (written ops) \<and>
    (\<forall>i < length sent. sent ! i =
       written ops ! i XOR pb (bytes_of_string key) crypt_salt 64 4096 ! (i mod 4096))"
proof -
  let ?key = "pb (bytes_of_string key) crypt_salt 64 4096"
  note new = NewEConn_fields [of pb key, OF key]
  have sent: "sent = stream_xor ?key 0 (written ops)" and got: "got' = stream_xor ?key 0 (received ops')"
    using xor_lib.econn_run [OF xb fit(1) new(4,5)] xor_lib.econn_run [OF xb fit(2) new(4,5)] run run'
    by (simp_all add: new(1-3))
  have "got' = take k (written ops)"
    unfolding got wire sent by (simp add: stream_xor_take)
  then show ?thesis by (simp add: sent key key_byte_def)
qed

text \<open>A key derivation of the right length, for the examples.\<close>

definition s_pbkdf2 :: pbkdf2 where
  "s_pbkdf2 password salt iter n = take n (password @ salt @ replicate n 7)"

lemma s_pbkdf2_length: "length (s_pbkdf2 password salt iter n) = n"
  by (simp add: s_pbkdf2_def)

theorem econn_stream_witness:
  "\<exists>sent e got e'. econn_run xor_ref [DoWrite [1, 2, 3], DoWrite [4]] (NewEConn s_pbkdf2 ''xor'' ''k'') =
      (sent, [], e) \<and>
    econn_run xor_ref [DoRead (take 2 sent) [0, 0, 0], DoRead (drop 2 sent) [0, 0]]
      (NewEConn s_pbkdf2 ''xor'' ''k'') = ([], got, e') \<and> got = [1, 2, 3, 4]"
proof -
  let ?e = "NewEConn s_pbkdf2 ''xor'' ''k''"
  note new = NewEConn_fields [of s_pbkdf2 "''k''" "''xor''", OF s_pbkdf2_length]
  obtain sent e where run: "econn_run xor_ref [DoWrite [1, 2, 3], DoWrite [4]] ?e = (sent, [], e)"
    and len: "length sent = 4"
    using xor_ref.econn_run [of "[DoWrite [1, 2, 3], DoWrite [4]]", OF _ new(4,5)] by simp
  let ?reads = "[DoRead (take 2 sent) [0, 0, 0], DoRead (drop 2 sent) [0, 0]]"
  have fit: "list_all fits ?reads" by (simp add: len)
  obtain got e' where run': "econn_run xor_ref ?reads ?e = ([], got, e')"
    using xor_ref.econn_run [OF fit new(4,5)] by simp
  have "got = take 4 [1, 2, 3, 4]"
    using econn_stream [OF xor_ref.xor_lib_axioms s_pbkdf2_length _ fit run run', of 4] len by simp
  with run run' show ?thesis by simp
qed

section \<open>Packets\<close>

text \<open>C30. Packets survive, but only their first 4096 bytes are encrypted: what \<open>WriteTo\<close> sends,
  read by \<open>ReadFrom\<close> on a socket with the same key into any buffer, is the packet cut to that
  buffer; and from byte 4096 on the packet on the wire is the plain text.\<close>
theorem epacket_roundtrip:
  assumes xb: "xor_lib xb" and key: "length (pb (bytes_of_string key) crypt_salt 64 4096) = 4096"
    and send: "EPacketConnXor_WriteTo xb conn_WriteTo p (NewEPacketConn pb enc key) = (r, c)"
    and recv: "EPacketConnXor_ReadFrom xb (take (length b) c, from, err) b (NewEPacketConn pb enc' key) =
      ((n, from', err'), b')"
  shows "r = conn_WriteTo c \<and> take n b' = take (length b) p \<and> drop 4096 c = drop 4096 p \<and>
    take 4096 c = stream_xor (pb (bytes_of_string key) crypt_salt 64 4096) 0 (take 4096 p)"
proof -
  let ?key = "pb (bytes_of_string key) crypt_salt 64 4096"
  have c: "c = packet_xor ?key p" and r: "r = conn_WriteTo c"
    using send xor_lib.packet [OF xb, of p ?key]
    by (auto simp: EPacketConnXor_WriteTo_def NewEPacketConn_def Let_def)
  let ?d = "take (length b) c"
  have "n = length ?d" "b' = fst (xb (?d @ drop (length ?d) b) ?d ?key)"
    using recv by (auto simp: EPacketConnXor_ReadFrom_def NewEPacketConn_def Let_def)
  then have "take n b' = packet_xor ?key ?d"
    using xor_lib.packet_read [OF xb, of ?d "drop (length ?d) b" ?key] by simp
  also have "\<dots> = take (length b) p" by (simp add: c take_packet_xor)
  finally show ?thesis using r packet_xor_front [of ?key p] by (simp add: c key)
qed

theorem epacket_roundtrip_witness:
  "\<exists>c n b'. EPacketConnXor_WriteTo xor_ref (\<lambda>c. (length c, None)) [1, 2, 3] (NewEPacketConn s_pbkdf2 ''xor'' ''k'') =
      ((3, None), c) \<and>
    EPacketConnXor_ReadFrom xor_ref (take 2 c, (), None) [0, 0] (NewEPacketConn s_pbkdf2 ''xor'' ''k'') =
      ((n, (), None), b') \<and> take n b' = [1, 2]"
proof -
  let ?e = "NewEPacketConn s_pbkdf2 ''xor'' ''k''" and ?w = "\<lambda>c. (length c, None :: io_error option)"
  obtain r c where send: "EPacketConnXor_WriteTo xor_ref ?w [1, 2, 3] ?e = (r, c)"
    by (cases "EPacketConnXor_WriteTo xor_ref ?w [1, 2, 3] ?e")
  have "length c = 3" using send by (auto simp: EPacketConnXor_WriteTo_def Let_def xor_ref.len)
  obtain n b' where recv: "EPacketConnXor_ReadFrom xor_ref (take (length [0, 0 :: byte]) c, (), None) [0, 0] ?e =
      ((n, (), None), b')" by (simp add: EPacketConnXor_ReadFrom_def Let_def)
  have two: "length [0, 0 :: byte] = 2" by simp
  have "r = (3, None) \<and> take n b' = [1, 2]"
    using epacket_roundtrip [OF xor_ref.xor_lib_axioms s_pbkdf2_length send recv] \<open>length c = 3\<close> by simp
  with send recv [unfolded two] show ?thesis by blast
qed

end
