(* ===== verification/Socks5.thy ===== *)
theory Socks5
  imports Gole_Prelude
begin

text \<open>
  The SOCKS5 server at the end of the tunnel, \<^verbatim>\<open>s5/s5.go\<close>. A connection delivers its bytes in
  segments, one per \<open>Read\<close> unless the buffer is smaller; the end of the list is the end of
  the stream. \<open>Dialer.Dial\<close> is a parameter: the local address of the connection it made, if it
  made one. Go panics are results. The text form of addresses is that of \<open>net.IP.String\<close> and
  \<open>net.JoinHostPort\<close>.
\<close>

section \<open>Reading\<close>

datatype read_error = EOF | UnexpectedEOF

text \<open>
  \<open>io.ReadAtLeast\<close> into a buffer of \<open>cap\<close> bytes that already holds \<open>acc\<close>: the bytes it holds
  afterwards and what the connection still delivers. \<open>io.ReadFull\<close> is the case \<open>m = cap\<close>.
\<close>

fun ReadAtLeast :: "nat \<Rightarrow> nat \<Rightarrow> bytes \<Rightarrow> bytes list \<Rightarrow> (read_error + bytes) \<times> bytes list" where
  "ReadAtLeast cap m acc [] =
     (if m \<le> length acc then Inr acc else Inl (if acc = [] then EOF else UnexpectedEOF), [])"
| "ReadAtLeast cap m acc (s # segs) =
     (if m \<le> length acc then (Inr acc, s # segs)
      else if length s \<le> cap - length acc then ReadAtLeast cap m (acc @ s) segs
      else (Inr (acc @ take (cap - length acc) s), drop (cap - length acc) s # segs))"

definition ReadFull :: "nat \<Rightarrow> bytes list \<Rightarrow> (read_error + bytes) \<times> bytes list" where
  "ReadFull n segs = ReadAtLeast n n [] segs"

section \<open>Addresses\<close>

definition v4InV6Prefix :: bytes where
  "v4InV6Prefix = replicate 10 0 @ [0xff, 0xff]"

text \<open>\<open>nil\<close> is the empty slice.\<close>

definition To4 :: "bytes \<Rightarrow> bytes" where
  "To4 ip = (if length ip = 4 then ip
             else if length ip = 16 \<and> take 12 ip = v4InV6Prefix then drop 12 ip else [])"

definition To16 :: "bytes \<Rightarrow> bytes" where
  "To16 ip = (if length ip = 4 then v4InV6Prefix @ ip else if length ip = 16 then ip else [])"

definition ip_Equal :: "bytes \<Rightarrow> bytes \<Rightarrow> bool" where
  "ip_Equal ip x =
     (if length ip = length x then ip = x
      else if length ip = 4 \<and> length x = 16 then take 12 x = v4InV6Prefix \<and> drop 12 x = ip
      else if length ip = 16 \<and> length x = 4 then take 12 ip = v4InV6Prefix \<and> drop 12 ip = x
      else False)"

fun join :: "string \<Rightarrow> string list \<Rightarrow> string" where
  "join sep [] = []"
| "join sep [s] = s"
| "join sep (s # ss) = s @ sep @ join sep ss"

fun hex_nat :: "nat \<Rightarrow> string" where
  "hex_nat n = (if n < 16 then [''0123456789abcdef'' ! n]
                else hex_nat (n div 16) @ [''0123456789abcdef'' ! (n mod 16)])"

declare hex_nat.simps [simp del]

fun groups16 :: "bytes \<Rightarrow> nat list" where
  "groups16 (a # b # r) = (256 * unat a + unat b) # groups16 r"
| "groups16 _ = []"

definition zeros :: "nat list \<Rightarrow> nat" where
  "zeros gs = length (takeWhile (\<lambda>g. g = 0) gs)"

text \<open>The first of the longest runs of at least two zero groups, as start and length.\<close>

definition zero_run :: "nat list \<Rightarrow> nat \<times> nat" where
  "zero_run gs =
     fold (\<lambda>i best. let l = zeros (drop i gs) in if 2 \<le> l \<and> snd best < l then (i, l) else best)
       [0..<length gs] (0, 0)"

definition ip6_String :: "bytes \<Rightarrow> string" where
  "ip6_String ip =
     (let gs = groups16 ip in
      case zero_run gs of
        (start, len) \<Rightarrow>
          if len = 0 then join '':'' (map hex_nat gs)
          else join '':'' (map hex_nat (take start gs)) @ ''::''
            @ join '':'' (map hex_nat (drop (start + len) gs)))"

definition ip4_String :: "bytes \<Rightarrow> string" where
  "ip4_String ip = join ''.'' (map (\<lambda>b. show_nat (unat b)) ip)"

text \<open>\<open>net.IP.String\<close> on slices of 4 and 16 bytes.\<close>

definition IP_String :: "bytes \<Rightarrow> string" where
  "IP_String ip = (if To4 ip \<noteq> [] then ip4_String (To4 ip) else ip6_String ip)"

definition JoinHostPort :: "string \<Rightarrow> string \<Rightarrow> string" where
  "JoinHostPort host port =
     (if CHR '':'' \<in> set host then ''['' @ host @ '']:'' @ port else host @ '':'' @ port)"

section \<open>The protocol\<close>

datatype s5_error =
    S5Read read_error | S5Write string
  | errAddrType | errVer | errAuthExtraData | errReqExtraData | errCmd

abbreviation (input) socksVer5 :: byte where "socksVer5 \<equiv> 0x05"
abbreviation (input) socksCmdConnect :: byte where "socksCmdConnect \<equiv> 0x01"

text \<open>
  \<open>handShake\<close>: the error if any, what is left of the stream and the writes. \<open>conn_Write\<close> is the
  error a write returns.
\<close>

definition handShake ::
    "(bytes \<Rightarrow> string option) \<Rightarrow> bytes list \<Rightarrow> s5_error option \<times> bytes list \<times> bytes list" where
  "handShake conn_Write segs =
     (let confirm = (\<lambda>segs. (map_option S5Write (conn_Write [socksVer5, 0]), segs, [[socksVer5, 0]])) in
      case ReadAtLeast 258 2 [] segs of
        (Inl err, segs1) \<Rightarrow> (Some (S5Read err), segs1, [])
      | (Inr buf, segs1) \<Rightarrow>
          if buf ! 0 \<noteq> socksVer5 then (Some errVer, segs1, [])
          else
            let n = length buf; nmethod = unat (buf ! 1); msgLen = nmethod + 2 in
            if n = msgLen then confirm segs1
            else if n < msgLen then
              (case ReadFull (msgLen - n) segs1 of
                 (Inl err, segs2) \<Rightarrow> (Some (S5Read err), segs2, [])
               | (Inr _, segs2) \<Rightarrow> confirm segs2)
            else (Some errAuthExtraData, segs1, []))"

datatype 'a s5_result = S5Ok 'a | S5Fail s5_error | S5Panic

text \<open>
  The target address and port in a complete request. The bound of the domain slice is computed
  in \<open>uint8\<close>, and a slice whose upper bound is below its lower bound panics.
\<close>

definition target_of :: "bytes \<Rightarrow> string s5_result" where
  "target_of buf =
     (let port = be_get (drop (length buf - 2) buf);
          result = (\<lambda>host. S5Ok (JoinHostPort host (show_nat port))) in
      if buf ! 3 = 1 then result (IP_String (take 4 (drop 4 buf)))
      else if buf ! 3 = 4 then result (IP_String (take 16 (drop 4 buf)))
      else
        let hi = (5 :: byte) + buf ! 4 in
        if unat hi < 5 then S5Panic
        else result (string_of_bytes (take (unat hi - 5) (drop 5 buf))))"

text \<open>The length of the whole request, from its first five bytes.\<close>

definition request_len :: "bytes \<Rightarrow> nat option" where
  "request_len buf =
     (if buf ! 3 = 1 then Some (3 + 1 + 4 + 2)
      else if buf ! 3 = 4 then Some (3 + 1 + 16 + 2)
      else if buf ! 3 = 3 then Some (unat (buf ! 4) + (3 + 1 + 1 + 2))
      else None)"

definition parseTarget :: "bytes list \<Rightarrow> string s5_result \<times> bytes list" where
  "parseTarget segs =
     (case ReadAtLeast 263 5 [] segs of
        (Inl err, segs1) \<Rightarrow> (S5Fail (S5Read err), segs1)
      | (Inr buf, segs1) \<Rightarrow>
          if buf ! 0 \<noteq> socksVer5 then (S5Fail errVer, segs1)
          else if buf ! 1 \<noteq> socksCmdConnect then (S5Fail errCmd, segs1)
          else
            let n = length buf in
            case request_len buf of
              None \<Rightarrow> (S5Fail errAddrType, segs1)
            | Some reqLen \<Rightarrow>
                if n = reqLen then (target_of buf, segs1)
                else if n < reqLen then
                  (case ReadFull (reqLen - n) segs1 of
                     (Inl err, segs2) \<Rightarrow> (S5Fail (S5Read err), segs2)
                   | (Inr more, segs2) \<Rightarrow> (target_of (buf @ more), segs2))
                else (S5Fail errReqExtraData, segs1))"

section \<open>The connection\<close>

record TCPAddr =
  ta_IP :: bytes
  ta_Port :: nat
  ta_Zone :: string

text \<open>The reply, from the local address of the connection to the target.\<close>

definition s5_reply :: "TCPAddr \<Rightarrow> bytes" where
  "s5_reply a =
     (let zone = (if ta_Zone a = [] then (if ip_Equal (ta_IP a) (To4 (ta_IP a)) then ''ip4'' else ''ip6'')
                  else ta_Zone a);
          ip = (if zone = ''ip6'' then To16 (ta_IP a) else To4 (ta_IP a))
      in [0x05, 0x00, 0x00, if zone = ''ip6'' then 0x04 else 0x01] @ ip
         @ [word_of_nat (ta_Port a div 256), word_of_nat (ta_Port a)])"

section \<open>Copying\<close>

text \<open>
  What a connection still delivers: its segments, and the bytes that come with its end, which are
  forwarded if the end is a plain end of file. \<open>copy_read\<close> is one iteration of \<open>netCopy\<close>: the
  bytes it writes, if any, and what is left unless the loop ends.
\<close>

type_synonym feed = "bytes list \<times> bytes \<times> bool"

fun copy_read :: "feed \<Rightarrow> bytes list \<times> feed option" where
  "copy_read ([], b, eof) = (if eof \<and> b \<noteq> [] then [b] else [], None)"
| "copy_read (s # segs, fin) =
     (if s = [] then [] else [take 4096 s],
      Some (if length s \<le> 4096 then segs else drop 4096 s # segs, fin))"

text \<open>\<open>netCopy\<close>, run to its end: everything it writes, in order.\<close>

function netCopy :: "bytes list \<Rightarrow> bytes \<times> bool \<Rightarrow> bytes list" where
  "netCopy [] fin = (case fin of (b, eof) \<Rightarrow> if eof \<and> b \<noteq> [] then [b] else [])"
| "netCopy (s # segs) fin =
     (if s = [] then netCopy segs fin
      else if length s \<le> 4096 then s # netCopy segs fin
      else take 4096 s # netCopy (drop 4096 s # segs) fin)"
  by pat_completeness auto
termination
  by (relation "measure (\<lambda>(segs, fin). length (concat segs) + length segs)") auto

text \<open>
  The two copies of \<open>pipeWhenClose\<close> and the calls that end it: a goroutine copies from the client
  to the target, the function itself copies from the target to the client; when the latter ends,
  the deferred \<open>remoteConn.Close\<close> runs, the function returns, and the deferred function of
  \<open>HandleConnection\<close> closes the connection to the client. A \<open>Write\<close> on a connection that is closed,
  or whose peer is gone, fails, and \<open>netCopy\<close> ignores that; a \<open>Read\<close> on a closed connection fails
  with another error than \<open>io.EOF\<close>, which ends the loop.
\<close>

datatype pipe_main = Copying | ClosingTarget | ClosingClient | Returned

record pipe =
  pp_up :: feed
  pp_up_done :: bool
  pp_down :: feed
  pp_main :: pipe_main
  pp_client_gone :: bool
  pp_target_gone :: bool
  pp_to_client :: "bytes list"
  pp_to_target :: "bytes list"

definition target_closed :: "pipe \<Rightarrow> bool" where
  "target_closed p \<longleftrightarrow> pp_main p = ClosingClient \<or> pp_main p = Returned"

datatype pipe_op = CopyUp | CopyDown | CloseTarget | CloseClient | ClientGone | TargetGone

fun pipe_ready :: "pipe_op \<Rightarrow> pipe \<Rightarrow> bool" where
  "pipe_ready CopyUp p \<longleftrightarrow> \<not> pp_up_done p"
| "pipe_ready CopyDown p \<longleftrightarrow> pp_main p = Copying"
| "pipe_ready CloseTarget p \<longleftrightarrow> pp_main p = ClosingTarget"
| "pipe_ready CloseClient p \<longleftrightarrow> pp_main p = ClosingClient"
| "pipe_ready _ p \<longleftrightarrow> True"

definition copy_up :: "pipe \<Rightarrow> pipe" where
  "copy_up p =
     (if pp_main p = Returned then p\<lparr>pp_up_done := True\<rparr>
      else case copy_read (pp_up p) of
        (ws, left) \<Rightarrow>
          (case left of None \<Rightarrow> p\<lparr>pp_up_done := True\<rparr> | Some up \<Rightarrow> p\<lparr>pp_up := up\<rparr>)
            \<lparr>pp_to_target :=
               pp_to_target p @ (if target_closed p \<or> pp_target_gone p then [] else ws)\<rparr>)"

definition copy_down :: "pipe \<Rightarrow> pipe" where
  "copy_down p =
     (case copy_read (pp_down p) of
        (ws, left) \<Rightarrow>
          (case left of None \<Rightarrow> p\<lparr>pp_main := ClosingTarget\<rparr> | Some down \<Rightarrow> p\<lparr>pp_down := down\<rparr>)
            \<lparr>pp_to_client := pp_to_client p @ (if pp_client_gone p then [] else ws)\<rparr>)"

fun pipe_exec :: "pipe_op \<Rightarrow> pipe \<Rightarrow> pipe" where
  "pipe_exec CopyUp p = copy_up p"
| "pipe_exec CopyDown p = copy_down p"
| "pipe_exec CloseTarget p = p\<lparr>pp_main := ClosingClient\<rparr>"
| "pipe_exec CloseClient p = p\<lparr>pp_main := Returned\<rparr>"
| "pipe_exec ClientGone p = p\<lparr>pp_client_gone := True\<rparr>"
| "pipe_exec TargetGone p = p\<lparr>pp_target_gone := True\<rparr>"

section \<open>The connection\<close>

datatype s5_end =
    S5Closed s5_error "bytes list"
  | S5NoDial string "bytes list"
  | S5Piped string pipe
  | S5Crashed

text \<open>
  \<open>pipeWhenClose\<close>: the dialled target, and the state in which the two copies start, after the
  reply was written to the client.
\<close>

definition pipeWhenClose ::
    "(string \<Rightarrow> TCPAddr option) \<Rightarrow> feed \<Rightarrow> feed \<Rightarrow> string \<Rightarrow> bytes list \<Rightarrow> s5_end" where
  "pipeWhenClose dial client remote target writes =
     (case dial target of
        None \<Rightarrow> S5NoDial target writes
      | Some tcpAddr \<Rightarrow>
          S5Piped target
            \<lparr>pp_up = client, pp_up_done = False, pp_down = remote, pp_main = Copying,
             pp_client_gone = False, pp_target_gone = False,
             pp_to_client = writes @ [s5_reply tcpAddr], pp_to_target = []\<rparr>)"

text \<open>
  \<open>HandleConnection\<close>: how the connection ended, or the pipe it became. A panic is not recovered,
  so that it ends the process.
\<close>

definition HandleConnection ::
    "(bytes \<Rightarrow> string option) \<Rightarrow> (string \<Rightarrow> TCPAddr option) \<Rightarrow> feed \<Rightarrow> feed \<Rightarrow> s5_end" where
  "HandleConnection conn_Write dial client remote =
     (case handShake conn_Write (fst client) of
        (Some err, _, writes) \<Rightarrow> S5Closed err writes
      | (None, segs1, writes) \<Rightarrow>
          (case parseTarget segs1 of
             (S5Fail err, _) \<Rightarrow> S5Closed err writes
           | (S5Panic, _) \<Rightarrow> S5Crashed
           | (S5Ok addr, segs2) \<Rightarrow> pipeWhenClose dial (segs2, snd client) remote addr writes))"

section \<open>The list of connections\<close>

text \<open>
  The deferred removal of a connection from the list \<open>Conns\<close>. The loop ranges over the slice it
  had at its start, while its body, and the loops of other connections, shorten the list in place:
  \<open>arr\<close> is the shared array and \<open>m\<close> the current length. \<open>remove_step\<close> is one iteration; a slice
  whose lower bound exceeds the length panics (\<open>None\<close>). There is no lock.
\<close>

definition remove_step :: "'c \<Rightarrow> nat \<Rightarrow> 'c list \<times> nat \<Rightarrow> ('c list \<times> nat) option" where
  "remove_step c i conns =
     (case conns of
        (arr, m) \<Rightarrow>
          if arr ! i = c then
            if i + 1 \<le> m
            then Some (take i arr @ drop (i + 1) (take m arr) @ drop (m - 1) arr, m - 1)
            else None
          else Some (arr, m))"

fun remove_loop :: "'c \<Rightarrow> nat list \<Rightarrow> 'c list \<times> nat \<Rightarrow> ('c list \<times> nat) option" where
  "remove_loop c [] conns = Some conns"
| "remove_loop c (i # is) conns =
     (case remove_step c i conns of None \<Rightarrow> None | Some conns' \<Rightarrow> remove_loop c is conns')"

text \<open>The loop when no other goroutine runs meanwhile.\<close>

definition removeConn :: "'c \<Rightarrow> 'c list \<Rightarrow> 'c list option" where
  "removeConn c Conns =
     map_option (\<lambda>(arr, m). take m arr) (remove_loop c [0..<length Conns] (Conns, length Conns))"

text \<open>
  The loops of several connections interleaved: \<open>RangeConns c\<close> evaluates the slice \<open>c\<close>'s loop ranges
  over, \<open>NextConn c\<close> is its next iteration. \<open>rm_conns = None\<close> is the process after a panic.
  Connections that are added meanwhile are left out.
\<close>

record 'c removals =
  rm_conns :: "('c list \<times> nat) option"
  rm_todo :: "'c \<Rightarrow> nat list"

datatype 'c removal_op = RangeConns 'c | NextConn 'c

definition start_removals :: "'c list \<Rightarrow> 'c removals" where
  "start_removals Conns = \<lparr>rm_conns = Some (Conns, length Conns), rm_todo = (\<lambda>c. [])\<rparr>"

fun removal_exec :: "'c removal_op \<Rightarrow> 'c removals \<Rightarrow> 'c removals" where
  "removal_exec (RangeConns c) st =
     (case rm_conns st of
        None \<Rightarrow> st
      | Some (arr, m) \<Rightarrow> st\<lparr>rm_todo := (rm_todo st)(c := [0..<m])\<rparr>)"
| "removal_exec (NextConn c) st =
     (case rm_conns st of
        None \<Rightarrow> st
      | Some conns \<Rightarrow>
          (case rm_todo st c of
             [] \<Rightarrow> st
           | i # is \<Rightarrow>
               st\<lparr>rm_conns := remove_step c i conns, rm_todo := (rm_todo st)(c := is)\<rparr>))"

end
