(* ===== verification/Socks5_Props.thy ===== *)
theory Socks5_Props
  imports Socks5 "HOL-Library.Sublist"
begin

text \<open>
  What a SOCKS5 client that keeps to the protocol gets from \<^verbatim>\<open>s5/s5.go\<close>, however the network
  cuts its messages into segments, what the two copies of a piped connection deliver however they
  interleave with each other and with the closes, and what the removal of a connection from the
  list \<open>Conns\<close> does alone and beside another one.
\<close>

section \<open>Segments\<close>

lemma ReadAtLeast_enough:
  assumes "m \<le> length acc + length (concat gs)" "length acc + length (concat gs) \<le> cap"
  shows "\<exists>p gs'. ReadAtLeast cap m acc (gs @ rs) = (Inr (acc @ p), gs' @ rs) \<and>
    p @ concat gs' = concat gs \<and> m \<le> length (acc @ p) \<and> set gs' \<subseteq> set gs"
  using assms
proof (induction gs arbitrary: acc)
  case Nil
  then show ?case by (cases rs) auto
next
  case (Cons g gs)
  show ?case
  proof (cases "m \<le> length acc")
    case True
    then show ?thesis by (intro exI [of _ "[]"] exI [of _ "g # gs"]) simp
  next
    case False
    from Cons.prems Cons.IH [of "acc @ g"] obtain p gs' where
      "ReadAtLeast cap m (acc @ g) (gs @ rs) = (Inr ((acc @ g) @ p), gs' @ rs)"
      "p @ concat gs' = concat gs" "m \<le> length ((acc @ g) @ p)" "set gs' \<subseteq> set gs" by auto
    with False Cons.prems show ?thesis by (intro exI [of _ "g @ p"] exI [of _ gs']) auto
  qed
qed

lemma ReadFull_exact:
  assumes "length (concat gs) = n" "[] \<notin> set gs"
  shows "ReadFull n (gs @ rs) = (Inr (concat gs), rs)"
proof -
  obtain p gs' where r: "ReadAtLeast n n [] (gs @ rs) = (Inr ([] @ p), gs' @ rs)"
    "p @ concat gs' = concat gs" "n \<le> length ([] @ p)" "set gs' \<subseteq> set gs"
    using ReadAtLeast_enough [of n "[]" gs n rs] assms(1) by auto
  have "length p + length (concat gs') = n" using r(2) assms(1) by (metis length_append)
  with r(3) have "length (concat gs') = 0" unfolding append_Nil by linarith
  then have "concat gs' = []" by (simp only: length_0_conv)
  moreover have "[] \<notin> set gs'" using r(4) assms(2) by blast
  ultimately have "gs' = []" by (cases gs') auto
  with r show ?thesis by (simp add: ReadFull_def)
qed

text \<open>A message of known length is read in one or two steps.\<close>

lemma read_message:
  assumes "concat gs = msg" "m \<le> length msg" "length msg \<le> cap" "[] \<notin> set gs"
  obtains p q gs' where "ReadAtLeast cap m [] (gs @ rs) = (Inr p, gs' @ rs)" "p @ q = msg" "m \<le> length p"
    "q = [] \<Longrightarrow> gs' = []" "ReadFull (length msg - length p) (gs' @ rs) = (Inr q, rs)"
proof -
  obtain p gs' where r: "ReadAtLeast cap m [] (gs @ rs) = (Inr ([] @ p), gs' @ rs)"
    "p @ concat gs' = concat gs" "m \<le> length ([] @ p)" "set gs' \<subseteq> set gs"
    using ReadAtLeast_enough [of m "[]" gs cap rs] assms by auto
  have ne: "[] \<notin> set gs'" using r(4) assms(4) by blast
  have "length (concat gs') = length msg - length p"
    using r(2) assms(1) by (metis add_diff_cancel_left' length_append)
  then have "ReadFull (length msg - length p) (gs' @ rs) = (Inr (concat gs'), rs)"
    by (rule ReadFull_exact [OF _ ne])
  moreover have "concat gs' = [] \<Longrightarrow> gs' = []" using ne by (cases gs') auto
  ultimately show ?thesis using r assms(1) by (intro that) auto
qed

lemma nth_prefix: "p @ q = msg \<Longrightarrow> i < length p \<Longrightarrow> p ! i = msg ! i"
  by (auto simp: nth_append)

section \<open>The client's messages\<close>

definition s5_greeting :: "bytes \<Rightarrow> bytes" where
  "s5_greeting methods = [5, word_of_nat (length methods)] @ methods"

datatype s5_target = S5_IPv4 bytes | S5_Domain string | S5_IPv6 bytes

fun valid_target :: "s5_target \<Rightarrow> bool" where
  "valid_target (S5_IPv4 ip) \<longleftrightarrow> length ip = 4"
| "valid_target (S5_Domain d) \<longleftrightarrow> length d < 256"
| "valid_target (S5_IPv6 ip) \<longleftrightarrow> length ip = 16"

fun target_bytes :: "s5_target \<Rightarrow> bytes" where
  "target_bytes (S5_IPv4 ip) = 1 # ip"
| "target_bytes (S5_Domain d) = 3 # word_of_nat (length d) # bytes_of_string d"
| "target_bytes (S5_IPv6 ip) = 4 # ip"

fun target_host :: "s5_target \<Rightarrow> string" where
  "target_host (S5_IPv4 ip) = IP_String ip"
| "target_host (S5_Domain d) = d"
| "target_host (S5_IPv6 ip) = IP_String ip"

fun too_long :: "s5_target \<Rightarrow> bool" where
  "too_long (S5_Domain d) \<longleftrightarrow> 250 < length d"
| "too_long _ \<longleftrightarrow> False"

definition s5_request :: "s5_target \<Rightarrow> u16 \<Rightarrow> bytes" where
  "s5_request t port =
     [5, 1, 0] @ target_bytes t @ [word_of_nat (unat port div 256), word_of_nat (unat port mod 256)]"

lemma handShake_ok:
  assumes "concat gs = s5_greeting methods" "length methods < 256" "[] \<notin> set gs"
    and "conn_Write [5, 0] = None"
  shows "handShake conn_Write (gs @ rs) = (None, rs, [[5, 0]])"
proof -
  let ?msg = "s5_greeting methods"
  have len: "2 \<le> length ?msg" "length ?msg \<le> 258" using assms(2) by (simp_all add: s5_greeting_def)
  obtain p q gs' where r: "ReadAtLeast 258 2 [] (gs @ rs) = (Inr p, gs' @ rs)" "p @ q = ?msg" "2 \<le> length p"
    "q = [] \<Longrightarrow> gs' = []" "ReadFull (length ?msg - length p) (gs' @ rs) = (Inr q, rs)"
    by (rule read_message [OF assms(1) len assms(3), of rs]) (rule that)
  have "p \<noteq> []" using r(3) by auto
  then have "p ! 0 = 5" "p ! 1 = word_of_nat (length methods)"
    using r(3) nth_prefix [OF r(2), of 0] nth_prefix [OF r(2), of 1] by (simp_all add: s5_greeting_def)
  moreover have "unat (word_of_nat (length methods) :: byte) + 2 = length ?msg"
    using assms(2) by (simp add: s5_greeting_def unat_of_nat take_bit_eq_mod)
  moreover have "length p + length q = length ?msg" using r(2) by (metis length_append)
  ultimately show ?thesis using r assms(4) by (cases q) (auto simp: handShake_def Let_def)
qed

lemma be_get_port: "be_get [word_of_nat (unat port div 256), word_of_nat (unat (port :: u16) mod 256)] = unat port"
proof -
  have "unat port < 65536" using unsigned_less [of port] by simp
  then show ?thesis by (simp add: be_get_def unat_of_nat take_bit_eq_mod)
qed

text \<open>The domain bound wraps around in \<open>uint8\<close> from length 251 on.\<close>

lemma domain_bound:
  assumes "n < 256"
  shows "unat ((5 :: byte) + word_of_nat n) < 5 \<longleftrightarrow> 250 < n"
    "n \<le> 250 \<Longrightarrow> unat ((5 :: byte) + word_of_nat n) = n + 5"
proof -
  have "unat ((5 :: byte) + word_of_nat n) = (if n \<le> 250 then n + 5 else n - 251)"
    using assms by (simp add: unat_word_ariths unat_of_nat take_bit_eq_mod mod_if)
  then show "unat ((5 :: byte) + word_of_nat n) < 5 \<longleftrightarrow> 250 < n"
    "n \<le> 250 \<Longrightarrow> unat ((5 :: byte) + word_of_nat n) = n + 5" using assms by (auto split: if_splits)
qed

lemma target_of_request:
  assumes "valid_target t"
  shows "target_of (s5_request t port) =
    (if too_long t then S5Panic else S5Ok (JoinHostPort (target_host t) (show_nat (unat port))))"
proof (cases t)
  case (S5_IPv4 ip)
  with assms be_get_port [of port] show ?thesis by (simp add: target_of_def s5_request_def Let_def)
next
  case (S5_IPv6 ip)
  with assms be_get_port [of port] show ?thesis by (simp add: target_of_def s5_request_def Let_def)
next
  case (S5_Domain d)
  with assms be_get_port [of port] domain_bound [of "length d"] show ?thesis
    by (simp add: target_of_def s5_request_def Let_def)
qed

lemma parseTarget_ok:
  assumes "concat gs = s5_request t port" "valid_target t" "[] \<notin> set gs"
  shows "parseTarget (gs @ rs) = (target_of (s5_request t port), rs)"
proof -
  let ?msg = "s5_request t port"
  have len: "5 \<le> length ?msg" "length ?msg \<le> 263"
    using assms(2) by (cases t; simp add: s5_request_def)+
  obtain p q gs' where r: "ReadAtLeast 263 5 [] (gs @ rs) = (Inr p, gs' @ rs)" "p @ q = ?msg" "5 \<le> length p"
    "q = [] \<Longrightarrow> gs' = []" "ReadFull (length ?msg - length p) (gs' @ rs) = (Inr q, rs)"
    by (rule read_message [OF assms(1) len assms(3), of rs]) (rule that)
  have nth: "p ! 0 = ?msg ! 0" "p ! Suc 0 = ?msg ! Suc 0" "p ! 3 = ?msg ! 3" "p ! 4 = ?msg ! 4"
    using r(3) by (auto intro!: nth_prefix [OF r(2)])
  have sum: "length p + length q = length ?msg" using r(2) by (metis length_append)
  have reqm: "request_len ?msg = Some (length ?msg)"
    using assms(2) by (cases t) (auto simp: request_len_def s5_request_def unat_of_nat take_bit_eq_mod)
  from reqm have req: "request_len p = Some (length ?msg)" by (simp only: request_len_def nth)
  have head: "?msg ! 0 = 5" "?msg ! Suc 0 = 1" by (simp_all add: s5_request_def)
  show ?thesis
  proof (cases q)
    case Nil
    with r show ?thesis by (simp add: parseTarget_def reqm head)
  next
    case (Cons x q')
    with sum have "length p < length ?msg" by simp
    with r show ?thesis by (simp add: parseTarget_def req nth head)
  qed
qed

section \<open>The copies\<close>

lemma concat_netCopy: "concat (netCopy segs fin) = concat segs @ (if snd fin then fst fin else [])"
  by (induction segs fin rule: netCopy.induct) (auto split: prod.split)

text \<open>\<open>netCopy\<close> is its iterations.\<close>

definition copied :: "feed \<Rightarrow> bytes list" where
  "copied feed = netCopy (fst feed) (snd feed)"

lemma copied_step:
  "copied feed = fst (copy_read feed) @
     (case snd (copy_read feed) of None \<Rightarrow> [] | Some left \<Rightarrow> copied left)"
  by (cases feed rule: copy_read.cases) (auto simp: copied_def)

lemma pipe_sel [simp]:
  "pp_to_target (copy_down p) = pp_to_target p" "pp_up (copy_down p) = pp_up p"
  "pp_up_done (copy_down p) = pp_up_done p" "pp_to_client (copy_up p) = pp_to_client p"
  "pp_down (copy_up p) = pp_down p" "pp_main (copy_up p) = pp_main p"
  "pp_client_gone (copy_up p) = pp_client_gone p" "pp_target_gone (copy_up p) = pp_target_gone p"
  "pp_client_gone (copy_down p) = pp_client_gone p" "pp_target_gone (copy_down p) = pp_target_gone p"
  by (auto simp: copy_up_def copy_down_def split: prod.split option.split)

text \<open>What was written to the target so far is what the client sent, as far as it was copied, and
  the beginning of it once the target is closed or gone; the same for the client.\<close>

definition up_inv :: "bytes list \<Rightarrow> pipe \<Rightarrow> bool" where
  "up_inv everything p \<longleftrightarrow>
     (if target_closed p \<or> pp_target_gone p then prefix (pp_to_target p) everything
      else pp_to_target p @ (if pp_up_done p then [] else copied (pp_up p)) = everything)"

definition down_inv :: "bytes list \<Rightarrow> pipe \<Rightarrow> bool" where
  "down_inv everything p \<longleftrightarrow>
     (if pp_client_gone p then prefix (pp_to_client p) everything
      else pp_to_client p @ (if pp_main p = Copying then copied (pp_down p) else []) = everything)"

lemma copy_up_inv:
  assumes "up_inv everything p" "\<not> pp_up_done p"
  shows "up_inv everything (copy_up p)"
proof (cases "target_closed p \<or> pp_target_gone p")
  case True
  with assms(1) show ?thesis
    by (auto simp: up_inv_def copy_up_def target_closed_def split: prod.split option.split)
next
  case False
  then have "pp_main p \<noteq> Returned" by (simp add: target_closed_def)
  with False assms copied_step [of "pp_up p"] show ?thesis
    by (auto simp: up_inv_def copy_up_def target_closed_def split: prod.splits option.splits)
qed

lemma copy_down_inv:
  assumes "down_inv everything p" "pp_main p = Copying"
  shows "down_inv everything (copy_down p)"
  using assms copied_step [of "pp_down p"]
  by (auto simp: down_inv_def copy_down_def split: prod.splits option.splits)

lemma prefix_of: "xs @ ys = zs \<Longrightarrow> prefix xs zs"
  by auto

lemma pipe_exec_inv:
  assumes "up_inv u p \<and> down_inv d p" "pipe_ready x p"
  shows "up_inv u (pipe_exec x p) \<and> down_inv d (pipe_exec x p)"
proof (cases x)
  case CopyUp
  with assms copy_up_inv [of u p] show ?thesis by (auto simp: down_inv_def split: if_splits)
next
  case CopyDown
  have "up_inv u (copy_down p)"
    using assms CopyDown
    by (auto simp: up_inv_def target_closed_def copy_down_def split: prod.split option.split)
  with CopyDown assms copy_down_inv [of d p] show ?thesis by simp
next
  case CloseTarget
  with assms show ?thesis
    by (auto simp: up_inv_def down_inv_def target_closed_def intro: prefix_of split: if_splits)
next
  case CloseClient
  with assms show ?thesis by (auto simp: up_inv_def down_inv_def target_closed_def)
next
  case ClientGone
  with assms show ?thesis
    by (auto simp: up_inv_def down_inv_def target_closed_def intro: prefix_of split: if_splits)
next
  case TargetGone
  with assms show ?thesis
    by (auto simp: up_inv_def down_inv_def target_closed_def intro: prefix_of split: if_splits)
qed

text \<open>After the target was closed it gets nothing more, and it stays closed.\<close>

definition cut_off :: "bytes list \<Rightarrow> pipe \<Rightarrow> bool" where
  "cut_off sent p \<longleftrightarrow> target_closed p \<and> pp_to_target p = sent"

lemma cut_off_step: "cut_off sent p \<Longrightarrow> pipe_ready x p \<Longrightarrow> cut_off sent (pipe_exec x p)"
  by (cases x) (auto simp: cut_off_def target_closed_def copy_up_def split: prod.split option.split)

interpretation s5_pipe: guarded_system pipe_ready pipe_exec "\<lambda>p. up_inv u p \<and> down_inv d p" for u d
  by unfold_locales (rule pipe_exec_inv)

interpretation s5_cut: guarded_system pipe_ready pipe_exec "cut_off sent" for sent
  by unfold_locales (rule cut_off_step)

section \<open>The connection\<close>

text \<open>A zone other than \<open>ip6\<close> makes the reply of an IPv6 connection malformed: it says IPv4 and
  has no address.\<close>

lemma s5_reply_zoned:
  assumes "ta_Zone a \<noteq> []" "ta_Zone a \<noteq> ''ip6''" "To4 (ta_IP a) = []"
  shows "s5_reply a = [5, 0, 0, 1, word_of_nat (ta_Port a div 256), word_of_nat (ta_Port a)]"
  using assms by (simp add: s5_reply_def Let_def)

definition s5_start :: "TCPAddr \<Rightarrow> feed \<Rightarrow> feed \<Rightarrow> pipe" where
  "s5_start a client remote =
     \<lparr>pp_up = client, pp_up_done = False, pp_down = remote, pp_main = Copying,
      pp_client_gone = False, pp_target_gone = False,
      pp_to_client = [[5, 0], s5_reply a], pp_to_target = []\<rparr>"

text \<open>C31. A SOCKS5 client gets through: whatever the authentication methods it offers and however its
  greeting and its \<open>CONNECT\<close> request (IPv4, IPv6 or domain, any port) are cut into segments, the
  server answers the greeting, dials exactly the requested host and port and, if that succeeds,
  sends the success reply and copies in both directions; however the copies interleave, the client
  gets the target's bytes unchanged and in order, and all of them by the time that copy ends unless
  it is gone; the target gets the client's bytes unchanged and in order, all of them once the other
  copy has ended while the target was open; but when the target's stream ends, the target is closed
  and gets nothing more of what the client still sends. Except that a domain of more than 250 bytes
  makes the server panic, which ends the process (a defect).\<close>
theorem s5_connects:
  assumes greeting: "concat gs = s5_greeting methods" "length methods < 256" "[] \<notin> set gs"
    and request: "concat rs = s5_request t port" "valid_target t" "[] \<notin> set rs"
    and ok: "conn_Write [5, 0] = None"
    and target: "target = JoinHostPort (target_host t) (show_nat (unat port))"
    and run: "result = HandleConnection conn_Write dial (gs @ rs @ data, fin) (rsegs, rfin)"
    and ops: "dial target = Some a \<Longrightarrow> legal_ops pipe_ready pipe_exec (ops @ later) (s5_start a (data, fin) (rsegs, rfin))"
    and p: "p = run_ops pipe_exec ops (s5_start a (data, fin) (rsegs, rfin))"
  shows "(too_long t \<longrightarrow> result = S5Crashed) \<and>
    (\<not> too_long t \<and> dial target = None \<longrightarrow> result = S5NoDial target [[5, 0]]) \<and>
    (\<not> too_long t \<and> dial target = Some a \<longrightarrow>
      result = S5Piped target (s5_start a (data, fin) (rsegs, rfin)) \<and>
      prefix (pp_to_client p) ([[5, 0], s5_reply a] @ netCopy rsegs rfin) \<and>
      (pp_main p \<noteq> Copying \<and> \<not> pp_client_gone p \<longrightarrow>
         concat (pp_to_client p) = [5, 0] @ s5_reply a @ concat rsegs @ (if snd rfin then fst rfin else [])) \<and>
      prefix (pp_to_target p) (netCopy data fin) \<and>
      (pp_up_done p \<and> \<not> target_closed p \<and> \<not> pp_target_gone p \<longrightarrow>
         concat (pp_to_target p) = concat data @ (if snd fin then fst fin else [])) \<and>
      (target_closed p \<longrightarrow> pp_to_target (run_ops pipe_exec later p) = pp_to_target p))"
proof -
  have "handShake conn_Write (gs @ rs @ data) = (None, rs @ data, [[5, 0]])"
    by (rule handShake_ok [OF greeting, of conn_Write "rs @ data"]) (rule ok)
  moreover have "parseTarget (rs @ data) = (target_of (s5_request t port), data)"
    by (rule parseTarget_ok [OF request])
  ultimately have result: "result = (if too_long t then S5Crashed else
      case dial target of None \<Rightarrow> S5NoDial target [[5, 0]]
      | Some a \<Rightarrow> S5Piped target (s5_start a (data, fin) (rsegs, rfin)))"
    using run target_of_request [OF request(2), of port] target
    by (auto simp: HandleConnection_def pipeWhenClose_def s5_start_def split: option.split)
  let ?s = "s5_start a (data, fin) (rsegs, rfin)"
  let ?d = "[[5, 0], s5_reply a] @ netCopy rsegs rfin"
  show ?thesis
  proof (cases "dial target = Some a")
    case True
    note legal = ops [OF this, unfolded legal_ops_append]
    have "up_inv (netCopy data fin) p \<and> down_inv ?d p"
      unfolding p using legal
      by (intro s5_pipe.run_inv) (simp_all add: up_inv_def down_inv_def s5_start_def target_closed_def copied_def)
    then have inv: "up_inv (netCopy data fin) p" "down_inv ?d p" by simp_all
    have "prefix (pp_to_client p) ?d" using inv(2) by (auto simp: down_inv_def intro: prefix_of split: if_splits)
    moreover have "concat (pp_to_client p) = concat ?d" if "pp_main p \<noteq> Copying" "\<not> pp_client_gone p"
      using inv(2) that by (simp add: down_inv_def)
    moreover have "prefix (pp_to_target p) (netCopy data fin)"
      using inv(1) by (auto simp: up_inv_def intro: prefix_of split: if_splits)
    moreover have "concat (pp_to_target p) = concat (netCopy data fin)"
      if "pp_up_done p" "\<not> target_closed p" "\<not> pp_target_gone p"
      using inv(1) that by (simp add: up_inv_def)
    moreover have "pp_to_target (run_ops pipe_exec later p) = pp_to_target p" if "target_closed p"
      using s5_cut.run_inv [of "pp_to_target p" p later] legal that by (simp add: cut_off_def p)
    ultimately show ?thesis using result True by (simp add: concat_netCopy)
  qed (use result in \<open>auto split: option.splits if_splits\<close>)
qed

lemma s5_ok_port: "show_nat 80 = ''80''"
  by code_simp

definition s5_local :: TCPAddr where
  "s5_local = \<lparr>ta_IP = [10, 0, 0, 1], ta_Port = 258, ta_Zone = []\<rparr>"

text \<open>The client sends four bytes, the target two; the target ends between them.\<close>

theorem s5_connects_witness:
  "\<exists>p. HandleConnection (\<lambda>_. None) (\<lambda>t. if t = ''hi:80'' then Some s5_local else None)
      ([[5], [1, 0], [5, 1, 0, 3, 2], [104, 105, 0], [80], [1, 2], [3, 4]], [], True) ([[8, 9]], [], True) =
      S5Piped ''hi:80'' p \<and>
    concat (pp_to_client (run_ops pipe_exec [CopyUp, CopyDown, CopyDown] p)) = [5, 0] @ s5_reply s5_local @ [8, 9] \<and>
    pp_to_target (run_ops pipe_exec [CopyUp, CopyDown, CopyDown, CloseTarget, CopyUp, CloseClient] p) = [[1, 2]] \<and>
    HandleConnection (\<lambda>_. None) (\<lambda>_. None)
      ([s5_greeting [0], s5_request (S5_Domain (replicate 251 CHR ''a'')) 80], [], True) ([], [], True) =
      S5Crashed"
proof -
  let ?host = "S5_Domain [CHR ''h'', CHR ''i'']" and ?long = "S5_Domain (replicate 251 CHR ''a'')"
  let ?ok = "\<lambda>_. None" and ?fin = "([], True)"
  let ?dial = "\<lambda>t. if t = ''hi:80'' then Some s5_local else None"
  have hi: "bytes_of_string ''hi'' = [104, 105]" by (simp add: bytes_of_string_def byte_of_char_def)
  let ?p = "s5_start s5_local ([[1, 2], [3, 4]], ?fin) ([[8, 9]], ?fin)"
  note here = s5_connects [of "[[5], [1, 0]]" "[0]" "[[5, 1, 0, 3, 2], [104, 105, 0], [80]]" ?host 80
      ?ok "''hi:80''" _ ?dial "[[1, 2], [3, 4]]" ?fin "[[8, 9]]" ?fin s5_local, OF _ _ _ _ _ _ _ _ refl _ refl]
  have "HandleConnection ?ok ?dial ([[5], [1, 0], [5, 1, 0, 3, 2], [104, 105, 0], [80], [1, 2], [3, 4]], ?fin) ([[8, 9]], ?fin) =
      S5Piped ''hi:80'' ?p \<and>
    concat (pp_to_client (run_ops pipe_exec [CopyUp, CopyDown, CopyDown] ?p)) = [5, 0] @ s5_reply s5_local @ [8, 9]"
    using here [of "[CopyUp, CopyDown, CopyDown]" "[]"]
    by (simp add: s5_greeting_def s5_request_def hi s5_ok_port JoinHostPort_def s5_start_def copy_up_def
        copy_down_def)
  moreover have "pp_to_target (run_ops pipe_exec ([CopyUp, CopyDown, CopyDown, CloseTarget] @ [CopyUp, CloseClient]) ?p) =
      pp_to_target (run_ops pipe_exec [CopyUp, CopyDown, CopyDown, CloseTarget] ?p)"
    using here [of "[CopyUp, CopyDown, CopyDown, CloseTarget]" "[CopyUp, CloseClient]"]
    by (simp add: s5_greeting_def s5_request_def hi s5_ok_port JoinHostPort_def s5_start_def copy_up_def
        copy_down_def target_closed_def)
  moreover have "pp_to_target (run_ops pipe_exec [CopyUp, CopyDown, CopyDown, CloseTarget] ?p) = [[1, 2]]"
    by (simp add: s5_start_def copy_up_def copy_down_def target_closed_def)
  moreover have "HandleConnection ?ok ?ok ([s5_greeting [0], s5_request ?long 80], ?fin) ([], ?fin) = S5Crashed"
    using s5_connects [of "[s5_greeting [0]]" "[0]" "[s5_request ?long 80]" ?long 80 ?ok
        "JoinHostPort (target_host ?long) (show_nat (unat (80 :: u16)))" _ ?ok "[]" ?fin "[]" ?fin s5_local "[]" "[]",
        OF _ _ _ _ _ _ _ refl refl _ refl]
    by (simp add: s5_greeting_def s5_request_def)
  ultimately show ?thesis by (intro exI [of _ ?p]) simp
qed

section \<open>The list of connections\<close>

lemma remove_loop_skip: "\<forall>i \<in> set is. arr ! i \<noteq> c \<Longrightarrow> remove_loop c is (arr, m) = Some (arr, m)"
  by (induction "is") (auto simp: remove_step_def)

lemma remove_loop_append:
  "\<forall>i \<in> set is. arr ! i \<noteq> c \<Longrightarrow> remove_loop c (is @ js) (arr, m) = remove_loop c js (arr, m)"
  by (induction "is") (auto simp: remove_step_def)

text \<open>Run alone, the in-place removal takes out the connection and nothing else; the last cell of
  the array keeps its old content.\<close>

lemma remove_loop_split:
  assumes "distinct (xs @ c # ys)" "Conns = xs @ c # ys" "n = length Conns"
  shows "remove_loop c [0..<n] (Conns, n) = Some (xs @ ys @ drop (n - 1) Conns, n - 1)"
proof -
  from assms have c: "c \<notin> set xs" "c \<notin> set ys" by auto
  let ?k = "length xs"
  have idx: "[0..<n] = [0..<?k] @ ?k # [Suc ?k..<n]"
  proof -
    have "?k < n" by (simp add: assms)
    then have "[0..<n] = [0..<?k] @ [?k..<n]" "[?k..<n] = ?k # [Suc ?k..<n]"
      using upt_add_eq_append [of 0 ?k "n - ?k"] by (simp_all add: upt_conv_Cons)
    then show ?thesis by simp
  qed
  have before: "\<forall>i \<in> set [0..<?k]. Conns ! i \<noteq> c"
    using c(1) by (auto simp: assms nth_append dest: nth_mem)
  let ?arr = "xs @ ys @ drop (n - 1) Conns"
  have after: "\<forall>i \<in> set [Suc ?k..<n]. ?arr ! i \<noteq> c"
  proof (cases ys rule: rev_cases)
    case (snoc zs z)
    then have arr: "?arr = xs @ ys @ [z]" by (simp add: assms)
    have "c \<notin> set (ys @ [z])" using c(2) snoc by simp
    show ?thesis
    proof
      fix i assume "i \<in> set [Suc ?k..<n]"
      then have "?k \<le> i" "i - ?k < length (ys @ [z])" by (auto simp: assms)
      moreover from this have "?arr ! i = (ys @ [z]) ! (i - ?k)" unfolding arr by (simp add: nth_append)
      ultimately show "?arr ! i \<noteq> c" using \<open>c \<notin> set (ys @ [z])\<close> by (metis nth_mem)
    qed
  qed (simp add: assms)
  have "remove_step c ?k (Conns, n) = Some (?arr, n - 1)" by (simp add: remove_step_def assms)
  then show ?thesis
    unfolding idx using before after by (simp add: remove_loop_append remove_loop_skip)
qed

lemma removeConn_remove1:
  assumes "distinct Conns"
  shows "removeConn c Conns = Some (remove1 c Conns)"
proof (cases "c \<in> set Conns")
  case False
  then have "\<forall>i \<in> set [0..<length Conns]. Conns ! i \<noteq> c" by (metis atLeastLessThan_iff nth_mem set_upt)
  with False show ?thesis by (simp add: removeConn_def remove_loop_skip remove1_idem)
next
  case True
  then obtain xs ys where split: "Conns = xs @ c # ys" by (meson split_list)
  with assms have "distinct (xs @ c # ys)" by simp
  from remove_loop_split [OF this split refl] assms show ?thesis
    by (auto simp: removeConn_def split remove1_append)
qed

lemma next_conns:
  assumes "rm_conns st = Some conns" "rm_todo st c = is @ js" "remove_loop c is conns = Some conns'"
  shows "run_ops removal_exec (replicate (length is) (NextConn c)) st =
    st\<lparr>rm_conns := Some conns', rm_todo := (rm_todo st)(c := js)\<rparr>"
  using assms
proof (induction "is" arbitrary: st conns)
  case Nil
  then show ?case by (cases st) auto
next
  case (Cons i "is")
  then obtain conns1 where step: "remove_step c i conns = Some conns1" "remove_loop c is conns1 = Some conns'"
    by (auto split: option.splits)
  let ?st = "st\<lparr>rm_conns := Some conns1, rm_todo := (rm_todo st)(c := is @ js)\<rparr>"
  have "removal_exec (NextConn c) st = ?st" using Cons.prems step by simp
  then show ?case
    using Cons.IH [of ?st conns1] step by (simp add: fun_upd_same del: fun_upd_apply)
qed

text \<open>C32. The list of connections is not safe for concurrent use (a defect): each deferred removal
  alone takes out its own connection and no other, but when the loop of the last connection in the
  list has passed all other entries and the whole removal of an earlier connection runs before its
  last iteration, this iteration finds a stale copy of its connection beyond the shortened list and
  slices it out of bounds, which is a panic that ends the process.\<close>
theorem concurrent_removal_panics:
  assumes "distinct Conns" "Conns = xs @ b # ys @ [c]" "n = length Conns"
  shows "removeConn b Conns = Some (remove1 b Conns) \<and> removeConn c Conns = Some (remove1 c Conns) \<and>
    rm_conns (run_ops removal_exec
      ([RangeConns c] @ replicate (n - 1) (NextConn c) @ [RangeConns b] @ replicate n (NextConn b) @ [NextConn c])
      (start_removals Conns)) = None"
proof -
  have bc: "b \<noteq> c" "c \<notin> set (xs @ b # ys)" using assms(1,2) by auto
  let ?s1 = "start_removals Conns\<lparr>rm_todo := (\<lambda>x. [])(c := [0..<n])\<rparr>"
  have s1: "removal_exec (RangeConns c) (start_removals Conns) = ?s1"
    by (simp add: start_removals_def assms(3))
  have n: "n = Suc (n - 1)" using assms(2,3) by simp
  have idx: "[0..<n] = [0..<n - 1] @ [n - 1]" by (subst n) simp
  have "\<forall>i \<in> set [0..<n - 1]. Conns ! i \<noteq> c"
  proof
    fix i assume "i \<in> set [0..<n - 1]"
    then have "i < length (xs @ b # ys)" by (auto simp: assms(2,3))
    then have "Conns ! i = (xs @ b # ys) ! i"
      using nth_append_left [of i "xs @ b # ys" "[c]"] by (simp add: assms(2))
    with bc(2) \<open>i < length (xs @ b # ys)\<close> show "Conns ! i \<noteq> c" by (metis nth_mem)
  qed
  then have skip: "remove_loop c [0..<n - 1] (Conns, n) = Some (Conns, n)" by (rule remove_loop_skip)
  let ?s2 = "?s1\<lparr>rm_todo := (\<lambda>x. [])(c := [n - 1])\<rparr>"
  have s2: "run_ops removal_exec (replicate (n - 1) (NextConn c)) ?s1 = ?s2"
    using next_conns [of ?s1 "(Conns, n)" c "[0..<n - 1]" "[n - 1]", OF _ _ skip] idx
    by (simp add: start_removals_def assms(3))
  let ?s3 = "?s2\<lparr>rm_todo := (\<lambda>x. [])(c := [n - 1], b := [0..<n])\<rparr>"
  have s3: "removal_exec (RangeConns b) ?s2 = ?s3" by (simp add: start_removals_def assms(3))
  have "drop (n - 1) Conns = [c]" by (simp add: assms(2,3))
  with remove_loop_split [of xs b "ys @ [c]" Conns n] assms
  have loop: "remove_loop b [0..<n] (Conns, n) = Some (xs @ ys @ [c, c], n - 1)" by simp
  let ?s4 = "?s3\<lparr>rm_conns := Some (xs @ ys @ [c, c], n - 1), rm_todo := (\<lambda>x. [])(c := [n - 1], b := [])\<rparr>"
  have s4: "run_ops removal_exec (replicate n (NextConn b)) ?s3 = ?s4"
    using next_conns [of ?s3 "(Conns, n)" b "[0..<n]" "[]", OF _ _ loop]
    by (simp add: start_removals_def assms(3))
  have "(xs @ ys @ [c, c]) ! (n - 1) = c" by (simp add: assms(2,3) nth_append)
  then have "rm_conns (removal_exec (NextConn c) ?s4) = None"
    using bc(1) n by (simp add: remove_step_def)
  then show ?thesis
    using removeConn_remove1 [OF assms(1)] s1 s2 s3 s4
    by (simp add: run_ops_append)
qed

theorem concurrent_removal_panics_witness:
  "rm_conns (run_ops removal_exec
    ([RangeConns 2] @ replicate 1 (NextConn 2) @ [RangeConns 1] @ replicate 2 (NextConn 1) @ [NextConn 2])
    (start_removals [1 :: nat, 2])) = None"
  using concurrent_removal_panics [of "[1 :: nat, 2]" "[]" 1 "[]" 2 2] by simp

end
