(* ===== verification/Holepunch.thy ===== *)
theory Holepunch
  imports Crypt
begin

text \<open>
  Hole punching, \<^verbatim>\<open>holepunch.go\<close>. \<open>PunchTCP\<close> is a loop over connection attempts. \<open>PunchUDP\<close> is
  three goroutines, the sender, the receiver and the caller that waits for them, which share the
  wait group, the channel \<open>recv_done\<close>, the context \<open>ctx1\<close> and the variable \<open>fail\<close>; the model is
  one record and one step per event. A step of the receiver begins when \<open>ReadFrom\<close> returns and
  ends when it reads again; the wait group falling below zero, closing a channel twice and
  calling a method of a nil address are panics, which end the process. Reading and setting the
  time to live of the socket are taken to succeed; the code only reports their errors.
\<close>

section \<open>TCP\<close>

datatype punch_error = PunchTimeout | PunchAuth | PunchIO io_error

text \<open>A connection is plain, or an \<open>EConnXor\<close> when there is a key.\<close>

datatype tcp_conn = PlainConn | XorConn EConnXor

text \<open>An attempt: dialling failed, or the errors of its write and read and the bytes it read.\<close>

datatype attempt = DialFailed | Dialed "io_error option" "io_error option" bytes

datatype punch_tcp = TcpConn tcp_conn | TcpFailed punch_error | TcpTrying

definition helo_msg :: "nat \<Rightarrow> string" where
  "helo_msg pid = ''HELO-'' @ show_nat pid"

text \<open>The buffer of 1024 zero bytes after the data was read, and decrypted, into its front.\<close>

definition read_conn :: "xor_fun \<Rightarrow> bytes \<Rightarrow> tcp_conn \<Rightarrow> bytes \<times> tcp_conn" where
  "read_conn xb data c =
     (case c of
        PlainConn \<Rightarrow> (data @ drop (length data) (replicate 1024 0), PlainConn)
      | XorConn e \<Rightarrow>
          (case EConnXor_Read xb (data, None) (replicate 1024 0) e of (_, b, e1) \<Rightarrow> (b, XorConn e1)))"

definition write_conn :: "xor_fun \<Rightarrow> bytes \<Rightarrow> tcp_conn \<Rightarrow> bytes \<times> tcp_conn" where
  "write_conn xb b c =
     (case c of
        PlainConn \<Rightarrow> (b, PlainConn)
      | XorConn e \<Rightarrow> (case EConnXor_Write xb (\<lambda>b. (length b, None)) b e of (_, b1, e1) \<Rightarrow> (b1, XorConn e1)))"

text \<open>The result and what was sent on the connection; \<open>i\<close> counts the attempts made.\<close>

fun punch_tcp_loop ::
    "xor_fun \<Rightarrow> tcp_conn \<Rightarrow> nat \<Rightarrow> nat \<Rightarrow> attempt list \<Rightarrow> punch_tcp \<times> bytes" where
  "punch_tcp_loop xb new pid i [] =
     (if i < 60 then (TcpTrying, []) else (TcpFailed PunchTimeout, []))"
| "punch_tcp_loop xb new pid i (a # as) =
     (if i < 60 then
        (case a of
           DialFailed \<Rightarrow> punch_tcp_loop xb new pid (i + 1) as
         | Dialed werr rerr data \<Rightarrow>
             (case write_conn xb (bytes_of_string (helo_msg pid)) new of
                (sent, c1) \<Rightarrow>
                  (case werr of
                     Some e \<Rightarrow> (TcpFailed (PunchIO e), [])
                   | None \<Rightarrow>
                       (case rerr of
                          Some e \<Rightarrow> (TcpFailed (PunchIO e), sent)
                        | None \<Rightarrow>
                            (case read_conn xb data c1 of
                               (b, c2) \<Rightarrow>
                                 if string_of_bytes (take 4 b) \<noteq> ''HELO''
                                 then (TcpFailed PunchAuth, sent)
                                 else (TcpConn c2, sent))))))
      else (TcpFailed PunchTimeout, []))"

definition PunchTCP ::
    "xor_fun \<Rightarrow> pbkdf2 \<Rightarrow> string \<Rightarrow> string \<Rightarrow> nat \<Rightarrow> attempt list \<Rightarrow> punch_tcp \<times> bytes" where
  "PunchTCP xb pbkdf2_Key enc key pid attempts =
     punch_tcp_loop xb (if key \<noteq> [] then XorConn (NewEConn pbkdf2_Key enc key) else PlainConn)
       pid 0 attempts"

section \<open>UDP\<close>

record punch_conf =
  pu_RAddr :: string
  pu_TTL :: nat
  pu_ttl0 :: nat
  pu_pid :: nat

datatype sender = is_Sending: Sending nat | is_Waiting: Waiting nat | SenderStopped
datatype receiver = Reading | ReceiverStopped
datatype punch_main = MainWaiting | MainClosed | MainReturned "punch_error option"

record punch =
  pu_sender :: sender
  pu_receiver :: receiver
  pu_main :: punch_main
  pu_helo :: bool
  pu_okay :: bool
  pu_wg :: int
  pu_fail :: "punch_error option"
  pu_recv_done :: bool
  pu_ctx_done :: bool
  pu_ttl :: nat
  pu_sent :: "string list"
  pu_panic :: bool

definition punch_init :: "punch_conf \<Rightarrow> punch" where
  "punch_init cf =
     \<lparr>pu_sender = Sending 1, pu_receiver = Reading, pu_main = MainWaiting, pu_helo = False,
      pu_okay = False, pu_wg = 3, pu_fail = None, pu_recv_done = False, pu_ctx_done = False,
      pu_ttl = (if pu_TTL cf \<noteq> 0 then pu_TTL cf else pu_ttl0 cf), pu_sent = [], pu_panic = False\<rparr>"

text \<open>
  The events: the sender sends, its timer fires, its context is done; the receiver's \<open>ReadFrom\<close>
  returns an address (none on an error), the decrypted data and an error; the caller's wait ends,
  the caller returns.
\<close>

datatype punch_event =
    SendNow | TimerFires | CtxDone
  | ReadReturns "string option" bytes "io_error option"
  | WaitEnds | CallerReturns

definition wg_done :: "int \<Rightarrow> punch \<Rightarrow> punch" where
  "wg_done k s = (let s1 = s\<lparr>pu_wg := pu_wg s - k\<rparr> in if pu_wg s1 < 0 then s1\<lparr>pu_panic := True\<rparr> else s1)"

definition close_recv_done :: "punch \<Rightarrow> punch" where
  "close_recv_done s = (if pu_recv_done s then s\<lparr>pu_panic := True\<rparr> else s\<lparr>pu_recv_done := True\<rparr>)"

definition sender_timer :: "nat \<Rightarrow> punch \<Rightarrow> punch" where
  "sender_timer i s =
     (if i = 60
      then wg_done 1 ((close_recv_done (s\<lparr>pu_fail := Some PunchTimeout\<rparr>))\<lparr>pu_sender := SenderStopped\<rparr>)
      else s\<lparr>pu_sender := Sending (i + 1)\<rparr>)"

text \<open>The deferred function of the receiver.\<close>

definition receiver_stop :: "punch \<Rightarrow> punch" where
  "receiver_stop s =
     wg_done ((if pu_helo s then 0 else 1) + (if pu_okay s then 0 else 1)) (s\<lparr>pu_receiver := ReceiverStopped\<rparr>)"

definition receiver_fail :: "punch_error \<Rightarrow> punch \<Rightarrow> punch" where
  "receiver_fail err s = receiver_stop (s\<lparr>pu_fail := Some err, pu_ctx_done := True\<rparr>)"

definition receiver_message :: "punch_conf \<Rightarrow> string \<Rightarrow> punch \<Rightarrow> punch" where
  "receiver_message cf kind s =
     (let s1 = (if pu_TTL cf \<noteq> 0 then s\<lparr>pu_ttl := pu_ttl0 cf\<rparr> else s) in
      if kind = ''HELO'' then
        let s2 = s1\<lparr>pu_sent := pu_sent s1 @ [''OKAY'']\<rparr>
        in if pu_helo s2 then s2 else wg_done 1 (s2\<lparr>pu_helo := True\<rparr>)
      else
        let s2 = s1\<lparr>pu_ctx_done := True\<rparr>
        in if pu_okay s2 then s2 else wg_done 1 (s2\<lparr>pu_okay := True\<rparr>))"

definition receiver_read ::
    "punch_conf \<Rightarrow> string option \<Rightarrow> bytes \<Rightarrow> io_error option \<Rightarrow> punch \<Rightarrow> punch" where
  "receiver_read cf raddr data err s =
     (if pu_recv_done s then receiver_stop s
      else case raddr of
        None \<Rightarrow> s\<lparr>pu_panic := True\<rparr>
      | Some a \<Rightarrow>
          if a \<noteq> pu_RAddr cf then s
          else case err of
            Some e \<Rightarrow> receiver_fail (PunchIO e) s
          | None \<Rightarrow>
              if length data < 4 then s
              else
                let kind = string_of_bytes (take 4 data) in
                if kind \<noteq> ''HELO'' \<and> kind \<noteq> ''OKAY'' then receiver_fail PunchAuth s
                else receiver_message cf kind s)"

definition caller_wakes :: "punch \<Rightarrow> punch" where
  "caller_wakes s = (close_recv_done s)\<lparr>pu_main := MainClosed\<rparr>"

text \<open>Which events can happen, and what they do.\<close>

fun punch_enabled :: "punch_event \<Rightarrow> punch \<Rightarrow> bool" where
  "punch_enabled SendNow s \<longleftrightarrow> \<not> pu_panic s \<and> is_Sending (pu_sender s)"
| "punch_enabled TimerFires s \<longleftrightarrow> \<not> pu_panic s \<and> is_Waiting (pu_sender s)"
| "punch_enabled CtxDone s \<longleftrightarrow> \<not> pu_panic s \<and> is_Waiting (pu_sender s) \<and> pu_ctx_done s"
| "punch_enabled (ReadReturns raddr data err) s \<longleftrightarrow> \<not> pu_panic s \<and> pu_receiver s = Reading"
| "punch_enabled WaitEnds s \<longleftrightarrow> \<not> pu_panic s \<and> pu_main s = MainWaiting \<and> pu_wg s = 0"
| "punch_enabled CallerReturns s \<longleftrightarrow> \<not> pu_panic s \<and> pu_main s = MainClosed"

fun punch_step :: "punch_conf \<Rightarrow> punch_event \<Rightarrow> punch \<Rightarrow> punch" where
  "punch_step cf SendNow s =
     (case pu_sender s of
        Sending i \<Rightarrow> s\<lparr>pu_sent := pu_sent s @ [helo_msg (pu_pid cf)], pu_sender := Waiting i\<rparr>
      | _ \<Rightarrow> s)"
| "punch_step cf TimerFires s = (case pu_sender s of Waiting i \<Rightarrow> sender_timer i s | _ \<Rightarrow> s)"
| "punch_step cf CtxDone s = wg_done 1 (s\<lparr>pu_sender := SenderStopped\<rparr>)"
| "punch_step cf (ReadReturns raddr data err) s = receiver_read cf raddr data err s"
| "punch_step cf WaitEnds s = caller_wakes s"
| "punch_step cf CallerReturns s = s\<lparr>pu_main := MainReturned (pu_fail s)\<rparr>"

end
