(* ===== verification/Holepunch_Props.thy ===== *)
theory Holepunch_Props
  imports Holepunch
begin

text \<open>
  \<open>PunchUDP\<close> over every interleaving of its goroutines: the wait group counts what is outstanding
  and never falls below zero, success means that both messages of the peer arrived, and giving
  up never reaches the caller. The proofs go through one invariant, kept by every event, and one
  fact about the history, in the locales of the prelude.
\<close>

section \<open>The invariant\<close>

text \<open>The calls of \<open>wg.Done\<close> still to come, and the state in which there are none.\<close>

definition outstanding :: "punch \<Rightarrow> int" where
  "outstanding s =
     of_bool (pu_sender s \<noteq> SenderStopped) +
     of_bool (pu_receiver s = Reading \<and> \<not> pu_helo s) + of_bool (pu_receiver s = Reading \<and> \<not> pu_okay s)"

definition settled :: "punch \<Rightarrow> bool" where
  "settled s \<longleftrightarrow> pu_sender s = SenderStopped \<and> (pu_receiver s = ReceiverStopped \<or> pu_helo s \<and> pu_okay s)"

lemma outstanding_nonneg: "0 \<le> outstanding s"
  by (simp add: outstanding_def)

lemma outstanding_0: "outstanding s = 0 \<longleftrightarrow> settled s"
  by (cases "pu_receiver s"; cases "pu_sender s"; cases "pu_helo s"; cases "pu_okay s";
      simp add: outstanding_def settled_def)

definition gave_up :: "punch \<Rightarrow> bool" where
  "gave_up s \<longleftrightarrow> pu_fail s = Some PunchTimeout"

text \<open>How often the sender has sent; at most 60 times.\<close>

fun attempts_ok :: "sender \<Rightarrow> nat \<Rightarrow> bool" where
  "attempts_ok (Sending i) n \<longleftrightarrow> i = Suc n \<and> i \<le> 60"
| "attempts_ok (Waiting i) n \<longleftrightarrow> i = n \<and> 0 < i \<and> i \<le> 60"
| "attempts_ok SenderStopped n \<longleftrightarrow> 0 < n \<and> n \<le> 60"

definition helos :: "punch_conf \<Rightarrow> punch \<Rightarrow> nat" where
  "helos cf s = length (filter (\<lambda>m. m = helo_msg (pu_pid cf)) (pu_sent s))"

definition sends_ok :: "punch_conf \<Rightarrow> punch \<Rightarrow> bool" where
  "sends_ok cf s \<longleftrightarrow>
     attempts_ok (pu_sender s) (helos cf s) \<and> (pu_helo s \<longrightarrow> ''OKAY'' \<in> set (pu_sent s))"

text \<open>While the process runs.\<close>

definition live_ok :: "punch \<Rightarrow> bool" where
  "live_ok s \<longleftrightarrow>
     pu_wg s = outstanding s \<and>
     (gave_up s \<longrightarrow> pu_sender s = SenderStopped) \<and>
     (pu_receiver s = ReceiverStopped \<longrightarrow> pu_fail s \<noteq> None \<or> pu_helo s \<and> pu_okay s) \<and>
     (pu_main s = MainWaiting \<longrightarrow> pu_recv_done s = gave_up s) \<and>
     (pu_main s \<noteq> MainWaiting \<longrightarrow> pu_recv_done s \<and> settled s \<and> \<not> gave_up s) \<and>
     (\<forall>r. pu_main s = MainReturned r \<longrightarrow> r = pu_fail s)"

definition punch_inv :: "punch_conf \<Rightarrow> punch \<Rightarrow> bool" where
  "punch_inv cf s \<longleftrightarrow>
     sends_ok cf s \<and> (if pu_panic s then \<forall>r. pu_main s \<noteq> MainReturned r else live_ok s)"

lemmas live_defs = live_ok_def outstanding_def gave_up_def settled_def

lemma helo_msg_not_okay [simp]: "helo_msg pid \<noteq> ''OKAY''" "''OKAY'' \<noteq> helo_msg pid"
  by (simp_all add: helo_msg_def)

lemma punch_init_inv: "punch_inv cf (punch_init cf)"
  by (simp add: punch_inv_def punch_init_def live_defs sends_ok_def helos_def)

text \<open>A call of \<open>wg.Done\<close> for something outstanding does not panic.\<close>

lemma wg_done_ok: "k \<le> pu_wg s \<Longrightarrow> wg_done k s = s\<lparr>pu_wg := pu_wg s - k\<rparr>"
  by (simp add: wg_done_def)

lemma live_send:
  assumes "live_ok s" "is_Sending (pu_sender s)"
  shows "live_ok (s\<lparr>pu_sent := m, pu_sender := Waiting i\<rparr>)"
proof -
  have "pu_main s = MainWaiting" using assms by (auto simp: live_ok_def settled_def)
  with assms show ?thesis by (cases "pu_sender s") (auto simp: live_defs)
qed

lemma live_ctx:
  assumes "live_ok s" "is_Waiting (pu_sender s)"
  shows "live_ok (wg_done 1 (s\<lparr>pu_sender := SenderStopped\<rparr>))"
    "pu_panic (wg_done 1 (s\<lparr>pu_sender := SenderStopped\<rparr>)) = pu_panic s"
proof -
  have main: "pu_main s = MainWaiting" and wg: "1 \<le> pu_wg s"
    using assms by (auto simp: live_ok_def settled_def outstanding_def)
  from assms main show "live_ok (wg_done 1 (s\<lparr>pu_sender := SenderStopped\<rparr>))"
    using wg by (cases "pu_sender s") (auto simp: wg_done_ok live_defs)
  show "pu_panic (wg_done 1 (s\<lparr>pu_sender := SenderStopped\<rparr>)) = pu_panic s" using wg by (simp add: wg_done_ok)
qed

lemma live_timer:
  assumes "live_ok s" "pu_sender s = Waiting i"
  shows "live_ok (sender_timer i s)" "pu_panic (sender_timer i s) = pu_panic s"
proof -
  have main: "pu_main s = MainWaiting" and wg: "1 \<le> pu_wg s" and rd: "\<not> pu_recv_done s"
    using assms by (auto simp: live_ok_def settled_def outstanding_def)
  from assms main wg rd show "live_ok (sender_timer i s)"
    by (auto simp: sender_timer_def close_recv_done_def wg_done_ok live_defs)
  show "pu_panic (sender_timer i s) = pu_panic s"
    using wg rd by (simp add: sender_timer_def close_recv_done_def wg_done_ok)
qed

lemma live_stop:
  assumes "live_ok s" "pu_receiver s = Reading" "pu_fail s \<noteq> None \<or> pu_helo s \<and> pu_okay s"
  shows "live_ok (receiver_stop s)" "pu_panic (receiver_stop s) = pu_panic s"
proof -
  have wg: "(if pu_helo s then 0 else 1) + (if pu_okay s then 0 else 1) \<le> pu_wg s"
    using assms(1,2) by (simp add: live_ok_def outstanding_def)
  from assms show "live_ok (receiver_stop s)"
    using wg by (auto simp: receiver_stop_def wg_done_ok live_defs)
  show "pu_panic (receiver_stop s) = pu_panic s" using wg by (simp add: receiver_stop_def wg_done_ok)
qed

lemma live_message:
  assumes "live_ok s" "pu_receiver s = Reading" "\<not> pu_recv_done s"
  shows "live_ok (receiver_message cf kind s)" "pu_panic (receiver_message cf kind s) = pu_panic s"
proof -
  have main: "pu_main s = MainWaiting" using assms by (auto simp: live_ok_def)
  have helo: "\<not> pu_helo s \<Longrightarrow> 1 \<le> pu_wg s" and okay: "\<not> pu_okay s \<Longrightarrow> 1 \<le> pu_wg s"
    using assms by (auto simp: live_ok_def outstanding_def)
  from assms main show "live_ok (receiver_message cf kind s)"
    using helo okay by (auto simp: receiver_message_def wg_done_ok live_defs Let_def)
  show "pu_panic (receiver_message cf kind s) = pu_panic s"
    using helo okay by (auto simp: receiver_message_def wg_done_ok Let_def)
qed

text \<open>Without the panic of a nil address every read keeps the invariant.\<close>

lemma live_fail:
  assumes "live_ok s" "pu_receiver s = Reading" "\<not> pu_recv_done s" "err \<noteq> PunchTimeout"
  shows "live_ok (receiver_fail err s)" "pu_panic (receiver_fail err s) = pu_panic s"
proof -
  let ?s = "s\<lparr>pu_fail := Some err, pu_ctx_done := True\<rparr>"
  have "pu_main s = MainWaiting" using assms by (auto simp: live_ok_def)
  with assms have "live_ok ?s" by (simp add: live_defs)
  from live_stop [OF this] assms(2) show "live_ok (receiver_fail err s)"
    "pu_panic (receiver_fail err s) = pu_panic s" by (simp_all add: receiver_fail_def)
qed

lemma live_read:
  assumes "live_ok s" "pu_receiver s = Reading" "\<not> pu_panic s"
  shows "if pu_panic (receiver_read cf raddr data err s) then pu_main (receiver_read cf raddr data err s) = MainWaiting
    else live_ok (receiver_read cf raddr data err s)"
proof (cases "pu_recv_done s")
  case True
  then have "pu_fail s \<noteq> None \<or> pu_helo s \<and> pu_okay s"
    using assms by (cases "pu_main s = MainWaiting") (auto simp: live_defs)
  with live_stop [OF assms(1,2) this] assms(3) True show ?thesis by (simp add: receiver_read_def)
next
  case False
  then have main: "pu_main s = MainWaiting" using assms by (auto simp: live_ok_def)
  note fail = live_fail [OF assms(1,2) False]
  note message = live_message [OF assms(1,2) False]
  from main False show ?thesis
    using assms(1,3) fail [of "PunchIO e" for e] fail [of PunchAuth] message
    by (simp add: receiver_read_def Let_def split: option.split)
qed

lemma live_wake:
  assumes "live_ok s" "pu_main s = MainWaiting" "pu_wg s = 0" "\<not> pu_panic s"
  shows "if pu_panic (caller_wakes s) then pu_main (caller_wakes s) = MainClosed else live_ok (caller_wakes s)"
proof -
  have "settled s" using assms(1,3) outstanding_0 [of s] by (simp add: live_ok_def)
  with assms show ?thesis
    by (auto simp: caller_wakes_def close_recv_done_def live_ok_def gave_up_def settled_def outstanding_def)
qed

lemma sends_ok_keep:
  assumes "sends_ok cf s" "pu_sender t = pu_sender s" "pu_sent t = pu_sent s" "pu_helo t = pu_helo s"
  shows "sends_ok cf t"
  using assms by (simp add: sends_ok_def helos_def)

lemma wg_done_fields [simp]:
  "pu_sender (wg_done k s) = pu_sender s" "pu_sent (wg_done k s) = pu_sent s"
  "pu_helo (wg_done k s) = pu_helo s" "pu_okay (wg_done k s) = pu_okay s" "pu_main (wg_done k s) = pu_main s"
  "pu_ttl (wg_done k s) = pu_ttl s" "pu_fail (wg_done k s) = pu_fail s"
  by (simp_all add: wg_done_def Let_def)

lemma close_fields [simp]:
  "pu_sender (close_recv_done s) = pu_sender s" "pu_sent (close_recv_done s) = pu_sent s"
  "pu_helo (close_recv_done s) = pu_helo s" "pu_okay (close_recv_done s) = pu_okay s"
  "pu_main (close_recv_done s) = pu_main s" "pu_ttl (close_recv_done s) = pu_ttl s"
  "pu_fail (close_recv_done s) = pu_fail s"
  by (simp_all add: close_recv_done_def)

lemma receiver_stop_fields [simp]:
  "pu_sender (receiver_stop s) = pu_sender s" "pu_sent (receiver_stop s) = pu_sent s"
  "pu_helo (receiver_stop s) = pu_helo s" "pu_okay (receiver_stop s) = pu_okay s"
  "pu_ttl (receiver_stop s) = pu_ttl s" "pu_fail (receiver_stop s) = pu_fail s"
  "pu_main (receiver_stop s) = pu_main s"
  by (simp_all add: receiver_stop_def)

lemma sends_ok_read: "sends_ok cf s \<Longrightarrow> sends_ok cf (receiver_read cf raddr data err s)"
  by (auto simp: receiver_read_def receiver_fail_def receiver_message_def Let_def sends_ok_def helos_def
      split: option.split)

lemma punch_step_inv:
  assumes "punch_inv cf s" "punch_enabled x s"
  shows "punch_inv cf (punch_step cf x s)"
proof (cases x)
  case SendNow
  with assms obtain i where i: "pu_sender s = Sending i" "live_ok s" "sends_ok cf s" "\<not> pu_panic s"
    by (auto simp: punch_inv_def is_Sending_def)
  then have "live_ok (punch_step cf x s)" using live_send by (simp add: SendNow)
  moreover have "sends_ok cf (punch_step cf x s)" using i by (simp add: SendNow sends_ok_def helos_def)
  ultimately show ?thesis using i by (simp add: SendNow punch_inv_def)
next
  case TimerFires
  with assms obtain i where i: "pu_sender s = Waiting i" "live_ok s" "sends_ok cf s" "\<not> pu_panic s"
    by (auto simp: punch_inv_def is_Waiting_def)
  then have "sends_ok cf (sender_timer i s)" by (auto simp: sender_timer_def sends_ok_def helos_def)
  with i live_timer [OF i(2,1)] show ?thesis by (simp add: TimerFires punch_inv_def)
next
  case CtxDone
  with assms have i: "is_Waiting (pu_sender s)" "live_ok s" "sends_ok cf s" "\<not> pu_panic s"
    by (auto simp: punch_inv_def)
  then have "sends_ok cf (punch_step cf x s)" by (auto simp: CtxDone sends_ok_def helos_def is_Waiting_def)
  with i live_ctx [OF i(2,1)] show ?thesis by (simp add: CtxDone punch_inv_def)
next
  case (ReadReturns raddr data err)
  with assms have i: "pu_receiver s = Reading" "live_ok s" "sends_ok cf s" "\<not> pu_panic s"
    by (auto simp: punch_inv_def)
  with live_read [OF i(2,1,4), of cf raddr data err] sends_ok_read [OF i(3)] show ?thesis
    by (auto simp: ReadReturns punch_inv_def split: if_splits)
next
  case WaitEnds
  with assms have i: "pu_main s = MainWaiting" "pu_wg s = 0" "live_ok s" "sends_ok cf s" "\<not> pu_panic s"
    by (auto simp: punch_inv_def)
  then have "sends_ok cf (punch_step cf x s)" by (simp add: WaitEnds caller_wakes_def sends_ok_def helos_def)
  with live_wake [OF i(3,1,2,5)] show ?thesis by (auto simp: WaitEnds punch_inv_def split: if_splits)
next
  case CallerReturns
  with assms show ?thesis by (auto simp: punch_inv_def live_defs sends_ok_def helos_def)
qed

section \<open>The history\<close>

text \<open>A message of the peer whose first four bytes say \<open>kind\<close> has arrived.\<close>

definition arrived :: "punch_conf \<Rightarrow> string \<Rightarrow> punch_event list \<Rightarrow> bool" where
  "arrived cf kind xs \<longleftrightarrow>
     (\<exists>data. ReadReturns (Some (pu_RAddr cf)) data None \<in> set xs \<and> string_of_bytes (take 4 data) = kind)"

definition punch_hist :: "punch_conf \<Rightarrow> punch_event list \<Rightarrow> punch \<Rightarrow> bool" where
  "punch_hist cf xs s \<longleftrightarrow> (pu_helo s \<longrightarrow> arrived cf ''HELO'' xs) \<and> (pu_okay s \<longrightarrow> arrived cf ''OKAY'' xs) \<and>
     (pu_TTL cf = 0 \<or> pu_helo s \<or> pu_okay s \<longrightarrow> pu_ttl s = pu_ttl0 cf)"

lemma arrived_more: "arrived cf kind xs \<Longrightarrow> arrived cf kind (xs @ [x])"
  by (auto simp: arrived_def)

lemma punch_hist_more: "punch_hist cf xs s \<Longrightarrow> punch_hist cf (xs @ [x]) s"
  by (simp add: punch_hist_def arrived_more)

lemma punch_hist_message:
  assumes "punch_hist cf xs s" "arrived cf kind xs" "kind = ''HELO'' \<or> kind = ''OKAY''"
  shows "punch_hist cf xs (receiver_message cf kind s)"
  using assms by (cases "kind = ''HELO''") (simp_all add: punch_hist_def receiver_message_def Let_def)

lemma punch_step_hist:
  assumes "punch_hist cf xs s"
  shows "punch_hist cf (xs @ [x]) (punch_step cf x s)"
proof (cases x)
  case (ReadReturns raddr data err)
  let ?kind = "string_of_bytes (take 4 data)"
  have same: "punch_hist cf (xs @ [x]) s" by (rule punch_hist_more [OF assms])
  then have stop: "punch_hist cf (xs @ [x]) (receiver_stop s)" "punch_hist cf (xs @ [x]) (receiver_fail e s)" for e
    by (simp_all add: punch_hist_def receiver_fail_def)
  have message: "punch_hist cf (xs @ [x]) (receiver_message cf ?kind s)"
    if "raddr = Some (pu_RAddr cf)" "err = None" "?kind = ''HELO'' \<or> ?kind = ''OKAY''"
    by (rule punch_hist_message [OF same _ that(3)]) (auto simp: arrived_def ReadReturns that)
  show ?thesis
    using same stop message
    by (auto simp: ReadReturns receiver_read_def punch_hist_def Let_def split: option.split)
next
  case TimerFires
  with punch_hist_more [OF assms, of x] show ?thesis
    by (simp add: punch_hist_def sender_timer_def split: sender.split)
next
  case SendNow
  with punch_hist_more [OF assms, of x] show ?thesis by (simp add: punch_hist_def split: sender.split)
next
  case CtxDone
  with punch_hist_more [OF assms, of x] show ?thesis by (simp add: punch_hist_def)
next
  case WaitEnds
  with punch_hist_more [OF assms, of x] show ?thesis by (simp add: punch_hist_def caller_wakes_def)
next
  case CallerReturns
  with punch_hist_more [OF assms, of x] show ?thesis by (simp add: punch_hist_def)
qed

interpretation punch: history_system punch_enabled "punch_step cf" "punch_inv cf" "punch_hist cf" for cf
  by unfold_locales (use punch_step_inv punch_step_hist in blast)+

lemma punch_init_hist: "punch_hist cf [] (punch_init cf)"
  by (simp add: punch_hist_def punch_init_def)

definition punch_run :: "punch_conf \<Rightarrow> punch_event list \<Rightarrow> punch option" where
  "punch_run cf xs =
     (if legal_ops punch_enabled (punch_step cf) xs (punch_init cf)
      then Some (run_ops (punch_step cf) xs (punch_init cf)) else None)"

lemma punch_run_facts:
  assumes "punch_run cf xs = Some s"
  shows "punch_inv cf s" "punch_hist cf xs s"
proof -
  have legal: "legal_ops punch_enabled (punch_step cf) xs (punch_init cf)"
    and s: "s = run_ops (punch_step cf) xs (punch_init cf)"
    using assms by (auto simp: punch_run_def split: if_splits)
  show "punch_inv cf s" unfolding s by (rule punch.run_inv [OF punch_init_inv legal])
  show "punch_hist cf xs s" unfolding s by (rule punch.run_hist [OF punch_init_inv punch_init_hist legal])
qed

text \<open>C33. A punched hole has been used in both directions: in every interleaving of the goroutines in
  which \<open>PunchUDP\<close> returns without an error, a \<open>HELO\<close> and an \<open>OKAY\<close> of the remote address have
  arrived, at least one and at most 60 \<open>HELO\<close>s and an \<open>OKAY\<close> have been sent, the wait group is
  back at zero, nothing has panicked, and the time to live of the socket is the original one.\<close>
theorem punch_success:
  assumes "punch_run cf xs = Some s" "pu_main s = MainReturned None"
  shows "arrived cf ''HELO'' xs \<and> arrived cf ''OKAY'' xs \<and> ''OKAY'' \<in> set (pu_sent s) \<and>
    0 < helos cf s \<and> helos cf s \<le> 60 \<and> pu_wg s = 0 \<and> \<not> pu_panic s \<and> pu_ttl s = pu_ttl0 cf"
proof -
  note inv = punch_run_facts(1) [OF assms(1)] and hist = punch_run_facts(2) [OF assms(1)]
  from inv assms(2) have live: "\<not> pu_panic s" "live_ok s" "sends_ok cf s"
    by (auto simp: punch_inv_def split: if_splits)
  with assms(2) have "settled s" "pu_fail s = None" "pu_wg s = 0"
    using outstanding_0 [of s] by (auto simp: live_ok_def)
  with live hist show ?thesis by (auto simp: live_ok_def settled_def sends_ok_def punch_hist_def)
qed

section \<open>Giving up\<close>

text \<open>After the sender gave up the caller cannot return.\<close>

definition doomed :: "punch \<Rightarrow> bool" where
  "doomed s \<longleftrightarrow> gave_up s \<and> (if pu_panic s then \<forall>r. pu_main s \<noteq> MainReturned r else pu_main s = MainWaiting)"

lemma gave_up_doomed: "punch_inv cf s \<Longrightarrow> gave_up s \<Longrightarrow> doomed s"
  by (auto simp: doomed_def punch_inv_def live_ok_def)

lemma doomed_step:
  assumes "punch_inv cf s" "punch_enabled x s" "doomed s"
  shows "doomed (punch_step cf x s)"
proof -
  have live: "\<not> pu_panic s" "live_ok s" using assms(1,2) by (cases x; auto simp: punch_inv_def)+
  with assms(3) have st: "pu_sender s = SenderStopped" "pu_recv_done s" "pu_main s = MainWaiting" "gave_up s"
    by (auto simp: doomed_def live_ok_def)
  have "gave_up (punch_step cf x s)"
  proof (cases x)
    case (ReadReturns raddr data err)
    with st show ?thesis by (simp add: receiver_read_def gave_up_def)
  qed (use st assms(2) in \<open>auto simp: gave_up_def caller_wakes_def\<close>)
  with gave_up_doomed [OF punch_step_inv [OF assms(1,2)]] show ?thesis .
qed

interpretation punch_doom: progress_system punch_enabled "punch_step cf" "punch_inv cf"
  "\<lambda>s t. doomed s \<longrightarrow> doomed t" for cf
  by unfold_locales (use doomed_step in blast)+

text \<open>C34. A timeout is never reported (a defect): after the sender's 60th attempt failed, \<open>PunchUDP\<close>
  returns in no continuation, neither with the error \<open>timeout punching holes\<close> nor otherwise. The
  sender has closed \<open>recv_done\<close> already, so once the receiver's pending read returns, the caller
  closes it again and the process panics.\<close>
theorem punch_timeout_panics:
  assumes "punch_run cf xs = Some s" "pu_fail s = Some PunchTimeout"
    and "punch_run cf (xs @ ys) = Some s'"
  shows "(\<forall>r. pu_main s' \<noteq> MainReturned r) \<and>
    (punch_enabled WaitEnds s' \<longrightarrow> pu_panic (punch_step cf WaitEnds s')) \<and>
    (punch_enabled (ReadReturns raddr data err) s' \<longrightarrow>
       pu_panic (run_ops (punch_step cf) [ReadReturns raddr data err, WaitEnds] s'))"
proof -
  have legal: "legal_ops punch_enabled (punch_step cf) ys s" and s': "s' = run_ops (punch_step cf) ys s"
    using assms(1,3) by (auto simp: punch_run_def legal_ops_append run_ops_append split: if_splits)
  note inv = punch_run_facts(1) [OF assms(1)] and inv' = punch_run_facts(1) [OF assms(3)]
  have "doomed s" by (rule gave_up_doomed [OF inv]) (simp add: gave_up_def assms(2))
  with punch_doom.run_rel [OF inv legal] have doom: "doomed s'" unfolding s' by blast
  have rd: "pu_recv_done s'" if "\<not> pu_panic s'"
    using doom inv' that by (auto simp: doomed_def punch_inv_def live_ok_def)
  have "pu_panic (punch_step cf WaitEnds s')" if "punch_enabled WaitEnds s'"
    using rd that by (simp add: caller_wakes_def close_recv_done_def)
  moreover have "pu_panic (run_ops (punch_step cf) [ReadReturns raddr data err, WaitEnds] s')"
    if "punch_enabled (ReadReturns raddr data err) s'"
    using rd that
    by (auto simp: receiver_read_def receiver_stop_def wg_done_def caller_wakes_def close_recv_done_def Let_def)
  ultimately show ?thesis using doom by (auto simp: doomed_def split: if_splits)
qed

definition s_punch :: punch_conf where
  "s_punch = \<lparr>pu_RAddr = ''peer'', pu_TTL = 3, pu_ttl0 = 64, pu_pid = 7\<rparr>"

definition s_helo :: punch_event where
  "s_helo = ReadReturns (Some ''peer'') [72, 69, 76, 79, 45] None"

definition s_okay :: punch_event where
  "s_okay = ReadReturns (Some ''peer'') [79, 75, 65, 89] None"

theorem punch_success_witness:
  "\<exists>s. punch_run s_punch [SendNow, s_helo, TimerFires, SendNow, s_okay, CtxDone, WaitEnds, CallerReturns] = Some s \<and>
     arrived s_punch ''OKAY'' [SendNow, s_helo, TimerFires, SendNow, s_okay, CtxDone, WaitEnds, CallerReturns] \<and>
     helos s_punch s = 2 \<and> pu_ttl s = 64"
proof -
  let ?xs = "[SendNow, s_helo, TimerFires, SendNow, s_okay, CtxDone, WaitEnds, CallerReturns]"
  obtain s where s: "punch_run s_punch ?xs = Some s" "pu_main s = MainReturned None" "helos s_punch s = 2"
  proof -
    have "map_option (\<lambda>s. (pu_main s, helos s_punch s)) (punch_run s_punch ?xs) = Some (MainReturned None, 2)"
      by code_simp
    then show ?thesis using that by (cases "punch_run s_punch ?xs") auto
  qed
  from punch_success [OF s(1,2)] s show ?thesis by (auto simp: s_punch_def)
qed

theorem punch_timeout_panics_witness:
  "\<exists>s. punch_run s_punch (concat (replicate 60 [SendNow, TimerFires])) = Some s \<and>
     pu_panic (run_ops (punch_step s_punch) [ReadReturns None [] (Some ''timeout''), WaitEnds] s)"
proof -
  let ?xs = "concat (replicate 60 [SendNow, TimerFires])" and ?r = "ReadReturns None [] (Some ''timeout'')"
  obtain s where s: "punch_run s_punch ?xs = Some s" "pu_fail s = Some PunchTimeout" "punch_enabled ?r s"
  proof -
    have "map_option (\<lambda>s. (pu_fail s, punch_enabled (ReadReturns None [] (Some ''timeout'')) s)) (punch_run s_punch ?xs) =
        Some (Some PunchTimeout, True)"
      by code_simp
    then show ?thesis using that by (cases "punch_run s_punch ?xs") auto
  qed
  from punch_timeout_panics [OF s(1,2), of "[]" s None "[]" "Some ''timeout''"] s show ?thesis by auto
qed

section \<open>TCP\<close>

text \<open>\<open>PunchTCP\<close> accepts whatever begins with \<open>HELO\<close>, and what the same read delivered after the
  peer's message is lost: the result does not depend on it.\<close>

lemma PunchTCP_reads_ahead:
  assumes "string_of_bytes (take 4 data) = ''HELO''"
  shows "PunchTCP xb pb enc [] pid (replicate k DialFailed @ [Dialed None None (data @ rest)]) =
    (if k < 60 then (TcpConn PlainConn, bytes_of_string (helo_msg pid)) else (TcpFailed PunchTimeout, []))"
proof -
  have "length (string_of_bytes (take 4 data)) = 4" unfolding assms by simp
  then have "4 \<le> length data" by (simp add: string_of_bytes_def)
  then have "punch_tcp_loop xb PlainConn pid i (replicate k DialFailed @ [Dialed None None (data @ rest)]) =
      (if i + k < 60 then (TcpConn PlainConn, bytes_of_string (helo_msg pid)) else (TcpFailed PunchTimeout, []))" for i
  proof (induction k arbitrary: i)
    case 0
    with assms show ?case by (simp add: read_conn_def write_conn_def)
  next
    case (Suc k)
    then show ?case by simp
  qed
  from this [of 0] show ?thesis by (simp add: PunchTCP_def)
qed

end
