(* ===== verification/Cli.thy ===== *)
theory Cli
  imports Go_Flag Socks5
begin

text \<open>
  The command line of the tunnel, \<^verbatim>\<open>cli.go\<close>, and the dialer of \<^verbatim>\<open>s5/s5_linux.go\<close>. Resolving
  addresses and interfaces is up to the network: a record of functions. An exit of the process
  is a result. A Go interface value of type \<open>net.Addr\<close> that was assigned a nil pointer is not
  nil, so a forward address is nil, a nil pointer to a TCP or UDP address, or an address; a type
  assertion panics unless the dynamic type is the asserted one.
\<close>

datatype addr_kind = TCPKind | UDPKind

datatype addr_iface = NilIface | NilPtr addr_kind | Addr addr_kind TCPAddr

definition assign_addr :: "addr_kind \<Rightarrow> TCPAddr option \<Rightarrow> addr_iface" where
  "assign_addr k a = (case a of None \<Rightarrow> NilPtr k | Some x \<Rightarrow> Addr k x)"

fun assert_addr :: "addr_kind \<Rightarrow> addr_iface \<Rightarrow> TCPAddr option option" where
  "assert_addr k NilIface = None"
| "assert_addr k (NilPtr k') = (if k' = k then Some None else None)"
| "assert_addr k (Addr k' a) = (if k' = k then Some (Some a) else None)"

section \<open>Configurations\<close>

record Dialer =
  dl_LocalAddr :: "bytes option"
  dl_fwmark :: int
  dl_dscp :: int

text \<open>The socket options the dialer's control function sets.\<close>

datatype sockopt = SO_MARK int | IP_TOS int

definition CreateDialer :: "bytes option \<Rightarrow> int \<Rightarrow> int \<Rightarrow> Dialer" where
  "CreateDialer bind fwmark dscp = \<lparr>dl_LocalAddr = bind, dl_fwmark = fwmark, dl_dscp = dscp\<rparr>"

definition dialer_Control :: "Dialer \<Rightarrow> sockopt list" where
  "dialer_Control d =
     (if dl_fwmark d \<noteq> 0 then [SO_MARK (dl_fwmark d)] else []) @
     (if dl_dscp d \<noteq> 0 then [IP_TOS (wrap64 (push_bit 2 (dl_dscp d)))] else [])"

record S5Config =
  s5_bind :: "bytes option"
  s5_fwmark :: int
  s5_dscp :: int
  s5_dialer :: "Dialer option"

record TCPConfig =
  tcp_Op :: string
  tcp_LAddr :: "TCPAddr option"
  tcp_RAddr :: "TCPAddr option"
  tcp_FwdAddr :: addr_iface
  tcp_Enc :: string
  tcp_Key :: string
  tcp_S5Conf :: "S5Config option"

record UDPConfig =
  udp_Op :: string
  udp_LAddr :: "TCPAddr option"
  udp_RAddr :: "TCPAddr option"
  udp_FwdAddr :: addr_iface
  udp_Proto :: string
  udp_KConf :: string
  udp_TTL :: int
  udp_Enc :: string
  udp_Key :: string
  udp_S5Conf :: "S5Config option"

datatype Config = TCP TCPConfig | UDP UDPConfig

fun getMode :: "Config \<Rightarrow> string" where
  "getMode (TCP c) = ''tcp''"
| "getMode (UDP c) = ''udp''"

fun getOp :: "Config \<Rightarrow> string" where
  "getOp (TCP c) = tcp_Op c"
| "getOp (UDP c) = udp_Op c"

fun LocalAddr :: "Config \<Rightarrow> TCPAddr option" where
  "LocalAddr (TCP c) = tcp_LAddr c"
| "LocalAddr (UDP c) = udp_LAddr c"

fun RemoteAddr :: "Config \<Rightarrow> TCPAddr option" where
  "RemoteAddr (TCP c) = tcp_RAddr c"
| "RemoteAddr (UDP c) = udp_RAddr c"

section \<open>The network\<close>

text \<open>
  \<open>InterfaceAddrs\<close> gives the addresses of an interface, with \<open>None\<close> for an error of
  \<open>InterfaceByName\<close> or of \<open>Addrs\<close>.
\<close>

record net_env =
  InterfaceAddrs :: "string \<Rightarrow> bytes list option"
  ResolveIPAddr :: "string \<Rightarrow> bytes option"
  ParseIP :: "string \<Rightarrow> bytes"
  ResolveTCPAddr :: "string \<Rightarrow> TCPAddr option"
  ResolveUDPAddr :: "string \<Rightarrow> TCPAddr option"

text \<open>\<open>parseIP\<close> of \<^verbatim>\<open>common.go\<close>; \<open>None\<close> is the panic of indexing an empty list of addresses.\<close>

definition parseIP :: "net_env \<Rightarrow> string \<Rightarrow> bytes option" where
  "parseIP net address =
     (case InterfaceAddrs net address of
        Some addrs \<Rightarrow> if addrs = [] then None else Some (addrs ! 0)
      | None \<Rightarrow>
          (case ResolveIPAddr net address of
             None \<Rightarrow> Some (ParseIP net address)
           | Some ip \<Rightarrow> Some ip))"

fun contains :: "string \<Rightarrow> string list \<Rightarrow> bool" where
  "contains s [] \<longleftrightarrow> False"
| "contains s (v # ss) \<longleftrightarrow> v = s \<or> contains s ss"

section \<open>Parsing\<close>

text \<open>The parameters after \<open>socks5\<close>.\<close>

fun socks5_params :: "net_env \<Rightarrow> string list \<Rightarrow> S5Config \<Rightarrow> S5Config outcome" where
  "socks5_params net [] c = Done c"
| "socks5_params net (v # ps) c =
     (case SplitN2 CHR ''='' v of
        (key, value) \<Rightarrow>
          let val = (case value of None \<Rightarrow> [] | Some x \<Rightarrow> x) in
          if key = ''bind'' then
            (case parseIP net val of
               None \<Rightarrow> Panic
             | Some ip \<Rightarrow> socks5_params net ps (c\<lparr>s5_bind := Some ip\<rparr>))
          else if key = ''fwmark'' then socks5_params net ps (c\<lparr>s5_fwmark := Atoi_value val\<rparr>)
          else if key = ''dscp'' then socks5_params net ps (c\<lparr>s5_dscp := Atoi_value val\<rparr>)
          else Exit 1)"

definition parseSocks5 :: "net_env \<Rightarrow> string \<Rightarrow> S5Config outcome" where
  "parseSocks5 net ss =
     (case socks5_params net (tl (Split CHR '','' ss))
             \<lparr>s5_bind = None, s5_fwmark = 0, s5_dscp = 0, s5_dialer = None\<rparr> of
        Done c \<Rightarrow> Done (c\<lparr>s5_dialer := Some (CreateDialer (s5_bind c) (s5_fwmark c) (s5_dscp c))\<rparr>)
      | Exit n \<Rightarrow> Exit n
      | Panic \<Rightarrow> Panic)"

fun proto_params :: "string list \<Rightarrow> string \<Rightarrow> string outcome" where
  "proto_params [] kconf = Done kconf"
| "proto_params (v # ps) kconf =
     (case SplitN2 CHR ''='' v of
        (key, value) \<Rightarrow>
          let val = (case value of None \<Rightarrow> [] | Some x \<Rightarrow> x) in
          if key = ''conf'' then proto_params ps val else Exit 1)"

definition parseProto :: "string \<Rightarrow> UDPConfig \<Rightarrow> UDPConfig outcome" where
  "parseProto ss conf =
     (let ps = Split CHR '','' ss; conf1 = conf\<lparr>udp_Proto := hd ps\<rparr> in
      if udp_Proto conf1 = ''kcp'' then
        (case proto_params (tl ps) ''kcp.conf'' of
           Done k \<Rightarrow> Done (conf1\<lparr>udp_KConf := k\<rparr>)
         | Exit n \<Rightarrow> Exit n
         | Panic \<Rightarrow> Panic)
      else if udp_Proto conf1 = ''udp'' then Done conf1
      else Exit 1)"

text \<open>The forward address of \<open>-fwd\<close>: a SOCKS5 server or a TCP address.\<close>

definition parseFwd :: "net_env \<Rightarrow> string \<Rightarrow> string \<Rightarrow> (addr_iface \<times> S5Config option) outcome" where
  "parseFwd net op fwd =
     (if HasPrefix fwd ''socks5'' then
        if op \<noteq> ''server'' then Exit 1
        else (case parseSocks5 net fwd of
                Done c \<Rightarrow> Done (NilIface, Some c)
              | Exit n \<Rightarrow> Exit n
              | Panic \<Rightarrow> Panic)
      else Done (assign_addr TCPKind (ResolveTCPAddr net fwd), None))"

definition operations :: "string list" where
  "operations = [''holepunch'', ''server'', ''client'']"

definition global_flags :: flag_set where
  "global_flags = [(''verbose'', BoolFlag), (''v'', BoolFlag), (''help'', BoolFlag), (''h'', BoolFlag),
     (''timeout'', IntFlag), (''enc'', StringFlag), (''key'', StringFlag)]"

definition tcp_flags :: flag_set where
  "tcp_flags = [(''op'', StringFlag), (''fwd'', StringFlag)]"

definition udp_flags :: flag_set where
  "udp_flags = [(''ttl'', IntFlag), (''op'', StringFlag), (''proto'', StringFlag), (''fwd'', StringFlag)]"

text \<open>The two branches of the mode switch.\<close>

definition parse_tcp :: "net_env \<Rightarrow> settings \<Rightarrow> string list \<Rightarrow> Config outcome" where
  "parse_tcp net g args =
     (case Parse tcp_flags [] (drop 3 args) of
        ParseExit n \<Rightarrow> Exit n
      | Parsed t rest \<Rightarrow>
          let op = string_flag ''op'' ''holepunch'' t in
          if \<not> contains op operations then Exit 1
          else case parseFwd net op (string_flag ''fwd'' '''' t) of
            Done (fwd, s5) \<Rightarrow> Done (TCP
              \<lparr>tcp_Op = op, tcp_LAddr = ResolveTCPAddr net (args ! 1),
               tcp_RAddr = ResolveTCPAddr net (args ! 2), tcp_FwdAddr = fwd,
               tcp_Enc = string_flag ''enc'' ''xor'' g, tcp_Key = string_flag ''key'' '''' g,
               tcp_S5Conf = s5\<rparr>)
          | Exit n \<Rightarrow> Exit n
          | Panic \<Rightarrow> Panic)"

definition new_udp :: "net_env \<Rightarrow> settings \<Rightarrow> string list \<Rightarrow> settings \<Rightarrow> string \<Rightarrow> UDPConfig" where
  "new_udp net g args u op =
     \<lparr>udp_Op = op, udp_LAddr = ResolveUDPAddr net (args ! 1), udp_RAddr = ResolveUDPAddr net (args ! 2),
      udp_FwdAddr = NilIface, udp_Proto = [], udp_KConf = [], udp_TTL = int_flag ''ttl'' 0 u,
      udp_Enc = string_flag ''enc'' ''xor'' g, udp_Key = string_flag ''key'' '''' g, udp_S5Conf = None\<rparr>"

definition udp_fwd ::
    "net_env \<Rightarrow> UDPConfig \<Rightarrow> string \<Rightarrow> string \<Rightarrow> (addr_iface \<times> S5Config option) outcome" where
  "udp_fwd net conf op fwd =
     (if udp_Proto conf = ''udp'' then Done (assign_addr UDPKind (ResolveUDPAddr net fwd), None)
      else parseFwd net op fwd)"

definition parse_udp :: "net_env \<Rightarrow> settings \<Rightarrow> string list \<Rightarrow> Config outcome" where
  "parse_udp net g args =
     (case Parse udp_flags [] (drop 3 args) of
        ParseExit n \<Rightarrow> Exit n
      | Parsed u rest \<Rightarrow>
          let op = string_flag ''op'' ''holepunch'' u in
          if \<not> contains op operations then Exit 1
          else case parseProto (string_flag ''proto'' ''udp'' u) (new_udp net g args u op) of
            Done conf \<Rightarrow>
              (case udp_fwd net conf op (string_flag ''fwd'' '''' u) of
                 Done (a, s5) \<Rightarrow>
                   if rest \<noteq> [] then Exit 1
                   else Done (UDP (conf\<lparr>udp_FwdAddr := a, udp_S5Conf := s5\<rparr>))
               | Exit n \<Rightarrow> Exit n
               | Panic \<Rightarrow> Panic)
          | Exit n \<Rightarrow> Exit n
          | Panic \<Rightarrow> Panic)"

record globals =
  g_timeout :: int
  g_verbose :: bool

text \<open>\<open>ParseConfig\<close>: the configuration and the global variables, from the arguments of the process.\<close>

definition ParseConfig :: "net_env \<Rightarrow> string list \<Rightarrow> (Config \<times> globals) outcome" where
  "ParseConfig net argv =
     (case Parse global_flags [] (tl argv) of
        ParseExit n \<Rightarrow> Exit n
      | Parsed g args \<Rightarrow>
          if bool_flag [''help'', ''h''] g then Exit 0
          else if length args < 3 then Exit 1
          else
            let glob = \<lparr>g_timeout = int_flag ''timeout'' 30 g, g_verbose = bool_flag [''verbose'', ''v''] g\<rparr>;
                mode = ToLower (args ! 0);
                result = (if mode = ''tcp'' then parse_tcp net g args
                          else if mode = ''udp'' then parse_udp net g args
                          else Exit 1) in
            (case result of
               Done c \<Rightarrow> Done (c, glob)
             | Exit n \<Rightarrow> Exit n
             | Panic \<Rightarrow> Panic))"

end
