(* ===== verification/Kcp.thy ===== *)
theory Kcp
  imports Crypt
begin

text \<open>
  The KCP settings, \<^verbatim>\<open>kconfig.go\<close>. Reading the file is a parameter: the effect of
  \<open>json.Decode\<close> on the default configuration, or nothing when the file does not open. A block
  cipher of the KCP library is known by its constructor and the key it is given.
\<close>

record KCPConfig =
  kc_Key :: string
  kc_Crypt :: string
  kc_Mode :: string
  kc_MTU :: int
  kc_SndWnd :: int
  kc_RcvWnd :: int
  kc_DataShard :: int
  kc_ParityShard :: int
  kc_DSCP :: int
  kc_AckNodelay :: bool
  kc_NoDelay :: int
  kc_Interval :: int
  kc_Resend :: int
  kc_NoCongestion :: int
  kc_SockBuf :: int

definition default_kcp :: KCPConfig where
  "default_kcp =
     \<lparr>kc_Key = ''somekey'', kc_Crypt = ''xor'', kc_Mode = ''fast2'', kc_MTU = 1350, kc_SndWnd = 1024,
      kc_RcvWnd = 1024, kc_DataShard = 10, kc_ParityShard = 3, kc_DSCP = 0, kc_AckNodelay = False,
      kc_NoDelay = 0, kc_Interval = 50, kc_Resend = 0, kc_NoCongestion = 0, kc_SockBuf = 4194304\<rparr>"

definition set_nodelay :: "int \<Rightarrow> int \<Rightarrow> int \<Rightarrow> int \<Rightarrow> KCPConfig \<Rightarrow> KCPConfig" where
  "set_nodelay nodelay interval resend nc k =
     k\<lparr>kc_NoDelay := nodelay, kc_Interval := interval, kc_Resend := resend, kc_NoCongestion := nc\<rparr>"

definition apply_mode :: "KCPConfig \<Rightarrow> KCPConfig" where
  "apply_mode k =
     (if kc_Mode k = ''normal'' then set_nodelay 0 40 2 1 k
      else if kc_Mode k = ''fast'' then set_nodelay 0 30 2 1 k
      else if kc_Mode k = ''fast2'' then set_nodelay 1 20 2 1 k
      else if kc_Mode k = ''fast3'' then set_nodelay 1 10 2 1 k
      else k)"

definition getKCPConfig :: "(string \<Rightarrow> (KCPConfig \<Rightarrow> KCPConfig) option) \<Rightarrow> string \<Rightarrow> KCPConfig" where
  "getKCPConfig open_Decode path =
     (let kconf = (case open_Decode path of None \<Rightarrow> default_kcp | Some decode \<Rightarrow> decode default_kcp)
      in apply_mode kconf)"

datatype block_cipher =
    SM4 bytes | TEA bytes | SimpleXOR bytes | NoneCipher bytes | AES bytes | Blowfish bytes
  | Twofish bytes | Cast5 bytes | TripleDES bytes | XTEA bytes | Salsa20 bytes

text \<open>The cipher, and the configuration, whose cipher name the default branch rewrites.\<close>

definition getKCPBlockCipher :: "pbkdf2 \<Rightarrow> KCPConfig \<Rightarrow> block_cipher \<times> KCPConfig" where
  "getKCPBlockCipher pbkdf2_Key kconf =
     (let pass = pbkdf2_Key (bytes_of_string (kc_Key kconf)) (bytes_of_string ''some salt'') 4096 32;
          c = kc_Crypt kconf in
      if c = ''sm4'' then (SM4 (take 16 pass), kconf)
      else if c = ''tea'' then (TEA (take 16 pass), kconf)
      else if c = ''xor'' then (SimpleXOR pass, kconf)
      else if c = ''none'' then (NoneCipher pass, kconf)
      else if c = ''aes-128'' then (AES (take 16 pass), kconf)
      else if c = ''aes-192'' then (AES (take 24 pass), kconf)
      else if c = ''blowfish'' then (Blowfish pass, kconf)
      else if c = ''twofish'' then (Twofish pass, kconf)
      else if c = ''cast5'' then (Cast5 (take 16 pass), kconf)
      else if c = ''3des'' then (TripleDES (take 24 pass), kconf)
      else if c = ''xtea'' then (XTEA (take 16 pass), kconf)
      else if c = ''salsa20'' then (Salsa20 pass, kconf)
      else (AES pass, kconf\<lparr>kc_Crypt := ''aes''\<rparr>))"

text \<open>Every constructor gets a key of a length its cipher takes, so that none of the dropped errors occurs.\<close>

fun key_size_ok :: "block_cipher \<Rightarrow> bool" where
  "key_size_ok (SM4 k) \<longleftrightarrow> length k = 16"
| "key_size_ok (TEA k) \<longleftrightarrow> length k = 16"
| "key_size_ok (SimpleXOR k) \<longleftrightarrow> True"
| "key_size_ok (NoneCipher k) \<longleftrightarrow> True"
| "key_size_ok (AES k) \<longleftrightarrow> length k \<in> {16, 24, 32}"
| "key_size_ok (Blowfish k) \<longleftrightarrow> 1 \<le> length k \<and> length k \<le> 56"
| "key_size_ok (Twofish k) \<longleftrightarrow> length k \<in> {16, 24, 32}"
| "key_size_ok (Cast5 k) \<longleftrightarrow> length k = 16"
| "key_size_ok (TripleDES k) \<longleftrightarrow> length k = 24"
| "key_size_ok (XTEA k) \<longleftrightarrow> length k = 16"
| "key_size_ok (Salsa20 k) \<longleftrightarrow> length k = 32"

lemma getKCPBlockCipher_key_size:
  assumes "length (pb (bytes_of_string (kc_Key k)) (bytes_of_string ''some salt'') 4096 32) = 32"
  shows "key_size_ok (fst (getKCPBlockCipher pb k))"
  using assms by (simp add: getKCPBlockCipher_def Let_def)

text \<open>One of the four modes decides the four parameters, whatever the file says about them.\<close>

lemma apply_mode_decides:
  assumes "kc_Mode k \<in> {''normal'', ''fast'', ''fast2'', ''fast3''}"
  shows "apply_mode (k\<lparr>kc_NoDelay := a, kc_Interval := b, kc_Resend := c, kc_NoCongestion := d\<rparr>) = apply_mode k"
    and "kc_NoCongestion (apply_mode k) = 1" "10 \<le> kc_Interval (apply_mode k)"
  using assms by (auto simp: apply_mode_def set_nodelay_def)

end
