(* ===== verification/Tunnel.thy ===== *)
theory Tunnel
  imports Cli Kcp Holepunch
begin

text \<open>
  The two ends of the tunnel, \<^verbatim>\<open>client.go\<close>, \<^verbatim>\<open>server.go\<close> and \<^verbatim>\<open>main.go\<close>, for streams:
  the set-up of the session and the loop that accepts connections or streams and hands each pair
  to a forwarder. The multiplexer, KCP and the sockets are libraries: what their calls return is
  an environment, and the model is what the program does with it, as a list of actions. The
  forwarders themselves are in \<open>Forwarder\<close>, the loops as concurrent sessions in \<open>Session\<close>.
\<close>

section \<open>Set-up\<close>

definition bound :: "int \<Rightarrow> int \<Rightarrow> int \<Rightarrow> int" where
  "bound val low high = (if val < low then low else if val > high then high else val)"

text \<open>Go's integer division truncates.\<close>

definition go_div :: "int \<Rightarrow> int \<Rightarrow> int" where
  "go_div a b = (if (a < 0) = (b < 0) then \<bar>a\<bar> div \<bar>b\<bar> else - (\<bar>a\<bar> div \<bar>b\<bar>))"

record smux_config =
  sm_Version :: int
  sm_MaxReceiveBuffer :: int
  sm_MaxStreamBuffer :: int
  sm_KeepAliveInterval :: duration
  sm_KeepAliveTimeout :: duration

abbreviation (input) second :: duration where "second \<equiv> 1000000000"

definition smux_setup :: "smux_config \<Rightarrow> int \<Rightarrow> smux_config" where
  "smux_setup DefaultConfig timeout =
     (let interval = bound (go_div timeout 3) 1 10 in
      DefaultConfig\<lparr>sm_Version := 1, sm_MaxReceiveBuffer := 4194304, sm_MaxStreamBuffer := 2097152,
        sm_KeepAliveInterval := wrap64 (interval * second),
        sm_KeepAliveTimeout := wrap64 (timeout * second)\<rparr>)"

text \<open>A plain TCP connection is encrypted when there is a key; one that is already is not again.\<close>

definition encrypt_tcp :: "pbkdf2 \<Rightarrow> string \<Rightarrow> string \<Rightarrow> tcp_conn \<Rightarrow> tcp_conn" where
  "encrypt_tcp pb enc key c =
     (if key \<noteq> [] then (case c of PlainConn \<Rightarrow> XorConn (NewEConn pb enc key) | XorConn e \<Rightarrow> XorConn e) else c)"

datatype udp_conn = PlainPacket | XorPacket EPacketConnXor

definition encrypt_udp :: "pbkdf2 \<Rightarrow> string \<Rightarrow> string \<Rightarrow> udp_conn \<Rightarrow> udp_conn" where
  "encrypt_udp pb enc key c =
     (if key \<noteq> [] then (case c of PlainPacket \<Rightarrow> XorPacket (NewEPacketConn pb enc key) | XorPacket e \<Rightarrow> XorPacket e)
      else c)"

section \<open>The loops\<close>

text \<open>Connections and streams are numbered by their environment.\<close>

datatype action =
    ListenOn "TCPAddr option"
  | Forward nat nat \<comment> \<open>connection and stream\<close>
  | ServeSocks nat
  | CloseConn nat | CloseStream nat
  | SendNop | CloseListener | CloseSession | CloseKcp | CloseTunnel

text \<open>\<open>Accept\<close> of the listener failed; or it gave a connection and \<open>OpenStream\<close> a stream, or none.\<close>

datatype accepted = AcceptFailed | Accepted nat "nat option"

fun client_loop :: "accepted list \<Rightarrow> action list \<times> bool" where
  "client_loop [] = ([], False)"
| "client_loop (AcceptFailed # as) = ([], True)"
| "client_loop (Accepted c None # as) = ([CloseConn c], True)"
| "client_loop (Accepted c (Some s) # as) =
     (case client_loop as of (acts, ended) \<Rightarrow> (Forward c s # acts, ended))"

text \<open>\<open>AcceptStream\<close> failed; or it gave a stream, and \<open>DialTCP\<close> a connection, or none.\<close>

datatype stream_in = StreamFailed | StreamIn nat "nat option"

fun server_loop :: "bool \<Rightarrow> stream_in list \<Rightarrow> action list \<times> bool" where
  "server_loop mapping [] = ([], False)"
| "server_loop mapping (StreamFailed # as) = ([], True)"
| "server_loop mapping (StreamIn s c # as) =
     (case server_loop mapping as of
        (acts, ended) \<Rightarrow>
          ((if mapping then (case c of None \<Rightarrow> CloseStream s | Some d \<Rightarrow> Forward d s)
            else ServeSocks s) # acts, ended))"

section \<open>The four session starters\<close>

text \<open>
  What the libraries answer. The process exits with status 1 when a set-up call fails. A running
  tunnel is its actions so far, an ended one those and the cleaning up.
\<close>

record session_env =
  se_DefaultConfig :: smux_config
  se_VerifyConfig :: "smux_config \<Rightarrow> bool"
  se_session_ok :: bool
  se_ListenTCP :: "TCPAddr option \<Rightarrow> bool"
  se_kcp_ok :: bool
  se_accept_kcp_ok :: bool

datatype tunnel_end = TunnelRuns "action list" | TunnelEnds "action list"

definition finish :: "action list \<Rightarrow> action list \<Rightarrow> action list \<times> bool \<Rightarrow> tunnel_end outcome" where
  "finish before cleanup r =
     Done (if snd r then TunnelEnds (before @ fst r @ cleanup) else TunnelRuns (before @ fst r))"

definition client_session ::
    "session_env \<Rightarrow> int \<Rightarrow> addr_iface \<Rightarrow> accepted list \<Rightarrow> action list \<Rightarrow> action list \<Rightarrow> tunnel_end outcome" where
  "client_session env timeout fwd accepts before cleanup =
     (if \<not> se_VerifyConfig env (smux_setup (se_DefaultConfig env) timeout) then Exit 1
      else if \<not> se_session_ok env then Exit 1
      else case assert_addr TCPKind fwd of
        None \<Rightarrow> Panic
      | Some laddr \<Rightarrow>
          if \<not> se_ListenTCP env laddr then Exit 1
          else finish (before @ [ListenOn laddr]) (cleanup @ [CloseTunnel, CloseListener]) (client_loop accepts))"

definition StartClientTCP ::
    "pbkdf2 \<Rightarrow> session_env \<Rightarrow> int \<Rightarrow> tcp_conn \<Rightarrow> TCPConfig \<Rightarrow> accepted list \<Rightarrow> tcp_conn \<times> tunnel_end outcome" where
  "StartClientTCP pb env timeout conn conf accepts =
     (encrypt_tcp pb (tcp_Enc conf) (tcp_Key conf) conn,
      client_session env timeout (tcp_FwdAddr conf) accepts [] [CloseSession])"

text \<open>The settings a KCP connection is given, with its block cipher.\<close>

type_synonym kcp_file = "string \<Rightarrow> (KCPConfig \<Rightarrow> KCPConfig) option"

definition kcp_settings :: "pbkdf2 \<Rightarrow> kcp_file \<Rightarrow> UDPConfig \<Rightarrow> block_cipher \<times> KCPConfig" where
  "kcp_settings pb open_Decode conf = getKCPBlockCipher pb (getKCPConfig open_Decode (udp_KConf conf))"

definition StartClientKCP ::
    "pbkdf2 \<Rightarrow> kcp_file \<Rightarrow> session_env \<Rightarrow> int \<Rightarrow> udp_conn \<Rightarrow> UDPConfig \<Rightarrow> accepted list
     \<Rightarrow> udp_conn \<times> (block_cipher \<times> KCPConfig) \<times> tunnel_end outcome" where
  "StartClientKCP pb open_Decode env timeout conn conf accepts =
     (encrypt_udp pb (udp_Enc conf) (udp_Key conf) conn, kcp_settings pb open_Decode conf,
      if \<not> se_kcp_ok env then Exit 1
      else client_session env timeout (udp_FwdAddr conf) accepts [SendNop] [CloseSession, CloseKcp])"

text \<open>
  The server dials the forward address for each stream; the type assertion is evaluated then.
\<close>

definition server_session ::
    "session_env \<Rightarrow> int \<Rightarrow> addr_iface \<Rightarrow> stream_in list \<Rightarrow> action list \<Rightarrow> tunnel_end outcome" where
  "server_session env timeout fwd streams cleanup =
     (if \<not> se_VerifyConfig env (smux_setup (se_DefaultConfig env) timeout) then Exit 1
      else if \<not> se_session_ok env then Exit 1
      else if fwd \<noteq> NilIface \<and> assert_addr TCPKind fwd = None \<and> streams \<noteq> [] \<and> hd streams \<noteq> StreamFailed
      then Panic
      else finish [] (cleanup @ [CloseTunnel]) (server_loop (fwd \<noteq> NilIface) streams))"

definition StartServerTCP ::
    "pbkdf2 \<Rightarrow> session_env \<Rightarrow> int \<Rightarrow> tcp_conn \<Rightarrow> TCPConfig \<Rightarrow> stream_in list \<Rightarrow> tcp_conn \<times> tunnel_end outcome" where
  "StartServerTCP pb env timeout conn conf streams =
     (encrypt_tcp pb (tcp_Enc conf) (tcp_Key conf) conn,
      server_session env timeout (tcp_FwdAddr conf) streams [CloseSession])"

definition StartServerKCP ::
    "pbkdf2 \<Rightarrow> kcp_file \<Rightarrow> session_env \<Rightarrow> int \<Rightarrow> udp_conn \<Rightarrow> UDPConfig \<Rightarrow> stream_in list
     \<Rightarrow> udp_conn \<times> (block_cipher \<times> KCPConfig) \<times> tunnel_end outcome" where
  "StartServerKCP pb open_Decode env timeout conn conf streams =
     (encrypt_udp pb (udp_Enc conf) (udp_Key conf) conn, kcp_settings pb open_Decode conf,
      if \<not> se_kcp_ok env \<or> \<not> se_accept_kcp_ok env then Exit 1
      else server_session env timeout (udp_FwdAddr conf) streams [CloseSession, CloseKcp])"

section \<open>Which one is started\<close>

datatype starter =
    ClientTCP TCPConfig | ClientKCP UDPConfig | ClientUDP UDPConfig
  | ServerTCP TCPConfig | ServerKCP UDPConfig | ServerUDP UDPConfig | NothingStarted

fun StartClient :: "Config \<Rightarrow> starter" where
  "StartClient (TCP c) = ClientTCP c"
| "StartClient (UDP c) = (if udp_Proto c = ''kcp'' then ClientKCP c else ClientUDP c)"

fun StartServer :: "Config \<Rightarrow> starter" where
  "StartServer (TCP c) = ServerTCP c"
| "StartServer (UDP c) = (if udp_Proto c = ''kcp'' then ServerKCP c else ServerUDP c)"

text \<open>\<open>main\<close>, from the arguments to the tunnel; \<open>punched\<close> says whether \<open>Punch\<close> returned a connection.\<close>

definition main :: "net_env \<Rightarrow> string list \<Rightarrow> (Config \<Rightarrow> bool) \<Rightarrow> starter outcome" where
  "main net argv punched =
     (case ParseConfig net argv of
        Exit n \<Rightarrow> Exit n
      | Panic \<Rightarrow> Panic
      | Done (conf, glob) \<Rightarrow>
          if \<not> punched conf then Exit 1
          else if getOp conf = ''holepunch'' then Exit 0
          else if getOp conf = ''client'' then Done (StartClient conf)
          else if getOp conf = ''server'' then Done (StartServer conf)
          else Done NothingStarted)"

end
