(* ===== verification/Tunnel_Props.thy ===== *)
theory Tunnel_Props
  imports Tunnel
begin

text \<open>
  What the command line promises to the tunnel that it starts, what the accept loops do with
  every connection and stream, and the bounds of the keep-alive settings.
\<close>

section \<open>Configurations\<close>

text \<open>What every configuration that \<open>ParseConfig\<close> returns satisfies.\<close>

fun config_ok :: "Config \<Rightarrow> bool" where
  "config_ok (TCP c) \<longleftrightarrow>
     tcp_Op c \<in> set operations \<and>
     (if tcp_FwdAddr c = NilIface then tcp_Op c = ''server'' \<and> tcp_S5Conf c \<noteq> None
      else assert_addr TCPKind (tcp_FwdAddr c) \<noteq> None)"
| "config_ok (UDP c) \<longleftrightarrow>
     udp_Op c \<in> set operations \<and> udp_Proto c \<in> {''udp'', ''kcp''} \<and>
     (if udp_Proto c = ''udp'' then assert_addr UDPKind (udp_FwdAddr c) \<noteq> None
      else if udp_FwdAddr c = NilIface then udp_Op c = ''server'' \<and> udp_S5Conf c \<noteq> None
      else assert_addr TCPKind (udp_FwdAddr c) \<noteq> None)"

lemma contains_set [simp]: "contains s ss \<longleftrightarrow> s \<in> set ss"
  by (induction ss) auto

lemma assert_assign [simp]: "assert_addr k (assign_addr k a) = Some a" "assign_addr k a \<noteq> NilIface"
  by (cases a; simp add: assign_addr_def)+

lemma parseFwd_ok:
  assumes "parseFwd net op fwd = Done (a, s5)"
  shows "if a = NilIface then op = ''server'' \<and> s5 \<noteq> None else assert_addr TCPKind a \<noteq> None"
  using assms by (auto simp: parseFwd_def split: if_splits outcome.splits)

lemma parse_tcp_ok: "parse_tcp net g args = Done c \<Longrightarrow> config_ok c"
  using parseFwd_ok by (fastforce simp: parse_tcp_def Let_def split: parsed.splits if_splits outcome.splits)

lemma parseProto_ok:
  assumes "parseProto ss conf = Done c"
  shows "udp_Proto c \<in> {''udp'', ''kcp''} \<and> udp_Op c = udp_Op conf"
  using assms by (auto simp: parseProto_def Let_def split: if_splits outcome.splits)

lemma udp_fwd_ok:
  assumes "udp_fwd net conf op fwd = Done (a, s5)"
  shows "if udp_Proto conf = ''udp'' then assert_addr UDPKind a \<noteq> None
    else if a = NilIface then op = ''server'' \<and> s5 \<noteq> None else assert_addr TCPKind a \<noteq> None"
proof (cases "udp_Proto conf = ''udp''")
  case True
  with assms show ?thesis by (auto simp: udp_fwd_def)
next
  case False
  with assms have "parseFwd net op fwd = Done (a, s5)" by (simp add: udp_fwd_def)
  from parseFwd_ok [OF this] False show ?thesis by simp
qed

lemma parse_udp_ok:
  assumes "parse_udp net g args = Done c"
  shows "config_ok c"
proof (cases "Parse udp_flags [] (drop 3 args)")
  case (Parsed u rest)
  let ?op = "string_flag ''op'' ''holepunch'' u"
  let ?proto = "parseProto (string_flag ''proto'' ''udp'' u) (new_udp net g args u ?op)"
  note run = assms [unfolded parse_udp_def Parsed Let_def, simplified]
  from run have op: "?op \<in> set operations" by (auto split: if_splits)
  with run obtain conf where conf: "?proto = Done conf" by (cases ?proto) auto
  from run op conf obtain a s5 where fwd: "udp_fwd net conf ?op (string_flag ''fwd'' '''' u) = Done (a, s5)"
    by (cases "udp_fwd net conf ?op (string_flag ''fwd'' '''' u)") auto
  with run op conf have c: "c = UDP (conf\<lparr>udp_FwdAddr := a, udp_S5Conf := s5\<rparr>)" by (simp split: if_splits)
  have "udp_Proto conf \<in> {''udp'', ''kcp''} \<and> udp_Op conf = ?op"
    using parseProto_ok [OF conf] by (simp add: new_udp_def)
  with udp_fwd_ok [OF fwd] op show ?thesis by (auto simp: c)
qed (use assms in \<open>simp add: parse_udp_def\<close>)

lemma ParseConfig_ok: "ParseConfig net argv = Done (c, g) \<Longrightarrow> config_ok c"
  by (auto simp: ParseConfig_def Let_def split: parsed.splits if_splits outcome.splits
      dest: parse_tcp_ok parse_udp_ok)

section \<open>Sessions\<close>

lemma client_session_no_panic:
  "assert_addr TCPKind fwd \<noteq> None \<Longrightarrow> client_session env t fwd as before cleanup \<noteq> Panic"
  by (auto simp: client_session_def finish_def split: if_splits)

lemma server_session_no_panic:
  "fwd = NilIface \<or> assert_addr TCPKind fwd \<noteq> None \<Longrightarrow> server_session env t fwd ss cleanup \<noteq> Panic"
  by (auto simp: server_session_def finish_def split: if_splits)

text \<open>C35. Configurations are well typed: whatever the arguments of the process, the tunnel that
  \<open>main\<close> starts is one of the six, and none of the type assertions it makes on the forward
  address panics: the address is a TCP address for TCP and KCP, a UDP address for UDP, and absent
  only for a SOCKS5 server, which never looks at it.\<close>
theorem started_tunnels_typed:
  assumes "main net argv punched = Done st"
  shows "st \<noteq> NothingStarted \<and>
    (\<forall>c as. st = ClientTCP c \<longrightarrow> snd (StartClientTCP pb env t conn c as) \<noteq> Panic) \<and>
    (\<forall>c as. st = ClientKCP c \<longrightarrow> snd (snd (StartClientKCP pb file env t pconn c as)) \<noteq> Panic) \<and>
    (\<forall>c ss. st = ServerTCP c \<longrightarrow> snd (StartServerTCP pb env t conn c ss) \<noteq> Panic) \<and>
    (\<forall>c ss. st = ServerKCP c \<longrightarrow> snd (snd (StartServerKCP pb file env t pconn c ss)) \<noteq> Panic) \<and>
    (\<forall>c. st = ClientUDP c \<or> st = ServerUDP c \<longrightarrow> assert_addr UDPKind (udp_FwdAddr c) \<noteq> None)"
proof -
  from assms obtain conf g where conf: "ParseConfig net argv = Done (conf, g)"
    and st: "st = (if getOp conf = ''client'' then StartClient conf
      else if getOp conf = ''server'' then StartServer conf else NothingStarted)" "getOp conf \<noteq> ''holepunch''"
    by (auto simp: main_def split: outcome.splits if_splits)
  from ParseConfig_ok [OF conf] have ok: "config_ok conf" .
  then have op: "getOp conf = ''client'' \<or> getOp conf = ''server''"
    using st(2) by (cases conf) (auto simp: operations_def)
  show ?thesis
  proof (cases conf)
    case (TCP c)
    with ok op st show ?thesis
      by (auto simp: StartClientTCP_def StartServerTCP_def client_session_no_panic server_session_no_panic
          split: if_splits)
  next
    case (UDP c)
    with ok op st show ?thesis
      by (auto simp: StartClientKCP_def StartServerKCP_def client_session_no_panic server_session_no_panic
          split: if_splits)
  qed
qed

definition s_net :: net_env where
  "s_net = \<lparr>InterfaceAddrs = (\<lambda>_. None), ResolveIPAddr = (\<lambda>_. None), ParseIP = (\<lambda>_. []),
     ResolveTCPAddr = (\<lambda>_. None), ResolveUDPAddr = (\<lambda>_. None)\<rparr>"

theorem started_tunnels_typed_witness:
  "\<exists>c. main s_net [''gole'', ''-key=k'', ''TCP'', ''a'', ''b'', ''-op'', ''server'', ''-fwd=socks5,dscp=46''] (\<lambda>_. True) =
      Done (ServerTCP c) \<and> tcp_FwdAddr c = NilIface \<and>
    (\<forall>pb env t conn ss. snd (StartServerTCP pb env t conn c ss) \<noteq> Panic)"
proof -
  let ?args = "[''gole'', ''-key=k'', ''TCP'', ''a'', ''b'', ''-op'', ''server'', ''-fwd=socks5,dscp=46'']"
  have "(case main s_net ?args (\<lambda>_. True) of Done (ServerTCP c) \<Rightarrow> tcp_FwdAddr c = NilIface | _ \<Rightarrow> False)"
    by code_simp
  then obtain c where c: "main s_net ?args (\<lambda>_. True) = Done (ServerTCP c)" "tcp_FwdAddr c = NilIface"
    by (auto split: outcome.splits starter.splits)
  from started_tunnels_typed [OF c(1)] c show ?thesis by blast
qed

section \<open>The loops\<close>

text \<open>Every stream the server accepts is served, forwarded or closed, and a failed dial does not end the loop.\<close>

definition stream_action :: "bool \<Rightarrow> stream_in \<Rightarrow> action" where
  "stream_action mapping x =
     (case x of StreamIn s c \<Rightarrow>
        if mapping then (case c of None \<Rightarrow> CloseStream s | Some d \<Rightarrow> Forward d s) else ServeSocks s
      | StreamFailed \<Rightarrow> CloseSession)"

lemma server_loop_actions:
  "server_loop mapping ss =
    (map (stream_action mapping) (takeWhile (\<lambda>x. x \<noteq> StreamFailed) ss), StreamFailed \<in> set ss)"
proof (induction mapping ss rule: server_loop.induct)
  case (3 mapping s c as)
  then show ?case by (simp add: stream_action_def)
qed simp_all

text \<open>The client stops at the first connection it gets no stream for, and closes it.\<close>

lemma client_loop_actions:
  "client_loop (map (\<lambda>(c, s). Accepted c (Some s)) ps @ rest) =
    (map (\<lambda>(c, s). Forward c s) ps @ fst (client_loop rest), snd (client_loop rest))"
  by (induction ps) (auto split: prod.split)

section \<open>Keep-alive settings\<close>

lemma go_div_pos: "0 \<le> a \<Longrightarrow> 0 < b \<Longrightarrow> go_div a b = a div b"
  by (simp add: go_div_def)

text \<open>The interval is between 1 and 10 seconds, and not above the timeout unless that is below a second.\<close>

lemma smux_setup_bounds:
  "second \<le> sm_KeepAliveInterval (smux_setup d timeout)"
  "sm_KeepAliveInterval (smux_setup d timeout) \<le> 10 * second"
  "1 \<le> timeout \<Longrightarrow> timeout < 2 ^ 33 \<Longrightarrow>
     sm_KeepAliveInterval (smux_setup d timeout) \<le> sm_KeepAliveTimeout (smux_setup d timeout)"
  "timeout \<le> 0 \<Longrightarrow> - (2 ^ 33) < timeout \<Longrightarrow>
     sm_KeepAliveTimeout (smux_setup d timeout) < sm_KeepAliveInterval (smux_setup d timeout)"
proof -
  let ?i = "bound (go_div timeout 3) 1 10"
  have i: "1 \<le> ?i" "?i \<le> 10" by (simp_all add: bound_def)
  then have w: "wrap64 (?i * second) = ?i * second" by (intro wrap64_id) simp_all
  show "second \<le> sm_KeepAliveInterval (smux_setup d timeout)"
    "sm_KeepAliveInterval (smux_setup d timeout) \<le> 10 * second"
    using i w by (simp_all add: smux_setup_def Let_def)
  have wt: "wrap64 (timeout * second) = timeout * second" if "- (2 ^ 33) < timeout" "timeout < 2 ^ 33"
    using that by (intro wrap64_id) simp_all
  show "sm_KeepAliveInterval (smux_setup d timeout) \<le> sm_KeepAliveTimeout (smux_setup d timeout)"
    if "1 \<le> timeout" "timeout < 2 ^ 33"
  proof -
    have "timeout div 3 \<le> timeout" "10 < timeout div 3 \<longrightarrow> 10 \<le> timeout" using that by presburger+
    then have "?i \<le> timeout" using that by (simp add: bound_def go_div_pos)
    then show ?thesis using w wt that by (simp add: smux_setup_def Let_def)
  qed
  show "sm_KeepAliveTimeout (smux_setup d timeout) < sm_KeepAliveInterval (smux_setup d timeout)"
    if "timeout \<le> 0" "- (2 ^ 33) < timeout"
    using that i w wt by (simp add: smux_setup_def Let_def)
qed

end
