(* ===== verification/Forwarder.thy ===== *)
theory Forwarder
  imports Gole_Prelude "HOL-Library.Sublist"
begin

text \<open>
  The forwarders of \<^verbatim>\<open>common.go\<close>: \<open>conn2stream\<close> and \<open>stream2conn\<close> start two goroutines
  \<open>copyIO\<close>, one per direction, and wait for the byte count of each. A goroutine copies until a
  read or a write fails or the source ends, sends its count, and closes the destination and then
  the source. The two share nothing but the two ends. What arrives at an end, when its peer ends
  its direction and when writes to it fail is the environment; each iteration of
  \<open>io.CopyBuffer\<close>, which reads a chunk and writes it, is one step.
\<close>

section \<open>State\<close>

datatype side = ConnEnd | StreamEnd

fun other :: "side \<Rightarrow> side" where
  "other ConnEnd = StreamEnd"
| "other StreamEnd = ConnEnd"

record fw_endpoint =
  fe_in :: "bytes list"   \<comment> \<open>chunks that arrived and have not been read\<close>
  fe_eof :: bool          \<comment> \<open>nothing follows: end of file or a read error\<close>
  fe_failed :: bool       \<comment> \<open>writes fail\<close>
  fe_cut :: nat           \<comment> \<open>how many bytes of the failing write still go out\<close>
  fe_closed :: bool
  fe_out :: "bytes list"  \<comment> \<open>chunks written\<close>

datatype copy_phase = Copying | Counted | DstClosed | Finished

text \<open>A goroutine is named by the end it reads from.\<close>

record forwarder =
  fw_end :: "side \<Rightarrow> fw_endpoint"
  fw_phase :: "side \<Rightarrow> copy_phase"
  fw_count :: "side \<Rightarrow> nat"

definition fresh_end :: fw_endpoint where
  "fresh_end = \<lparr>fe_in = [], fe_eof = False, fe_failed = False, fe_cut = 0, fe_closed = False,
     fe_out = []\<rparr>"

definition conn2stream :: forwarder where
  "conn2stream = \<lparr>fw_end = (\<lambda>d. fresh_end), fw_phase = (\<lambda>d. Copying), fw_count = (\<lambda>d. 0)\<rparr>"

text \<open>
  \<open>stream2conn\<close> is the same function with its arguments in the other order, and \<open>conn2conn\<close> between
  two connections, without a buffer of its own.
\<close>

definition stream2conn :: forwarder where
  "stream2conn = conn2stream"

definition conn2conn :: forwarder where
  "conn2conn = \<lparr>fw_end = (\<lambda>d. fresh_end), fw_phase = (\<lambda>d. Copying), fw_count = (\<lambda>d. 0)\<rparr>"

section \<open>Steps\<close>

definition set_end :: "side \<Rightarrow> fw_endpoint \<Rightarrow> forwarder \<Rightarrow> forwarder" where
  "set_end d e f = f\<lparr>fw_end := (fw_end f)(d := e)\<rparr>"

definition set_phase :: "side \<Rightarrow> copy_phase \<Rightarrow> forwarder \<Rightarrow> forwarder" where
  "set_phase d p f = f\<lparr>fw_phase := (fw_phase f)(d := p)\<rparr>"

definition close_end :: "side \<Rightarrow> forwarder \<Rightarrow> forwarder" where
  "close_end d f = set_end d ((fw_end f d)\<lparr>fe_closed := True\<rparr>) f"

text \<open>One iteration of the copying loop; sending the count is part of the step that ends it. A failing
  write may have written the beginning of its chunk, which is counted.\<close>

definition write_chunk :: "side \<Rightarrow> bytes \<Rightarrow> forwarder \<Rightarrow> forwarder" where
  "write_chunk d b f =
     (let dst = fw_end f (other d) in
      (set_end (other d) (dst\<lparr>fe_out := fe_out dst @ [b]\<rparr>) f)
        \<lparr>fw_count := (fw_count f)(d := fw_count f d + length b)\<rparr>)"

definition copy_chunk :: "side \<Rightarrow> forwarder \<Rightarrow> forwarder" where
  "copy_chunk d f =
     (let src = fw_end f d; dst = fw_end f (other d) in
      if fe_closed src then set_phase d Counted f
      else case fe_in src of
        b # bs \<Rightarrow>
          let f1 = set_end d (src\<lparr>fe_in := bs\<rparr>) f in
          if fe_closed dst then set_phase d Counted f1
          else if fe_failed dst then set_phase d Counted (write_chunk d (take (fe_cut dst) b) f1)
          else write_chunk d b f1
      | [] \<Rightarrow> if fe_eof src then set_phase d Counted f else f)"

definition copyIO :: "side \<Rightarrow> forwarder \<Rightarrow> forwarder" where
  "copyIO d f =
     (case fw_phase f d of
        Copying \<Rightarrow> copy_chunk d f
      | Counted \<Rightarrow> set_phase d DstClosed (close_end (other d) f)
      | DstClosed \<Rightarrow> set_phase d Finished (close_end d f)
      | Finished \<Rightarrow> f)"

datatype fw_op = Copies side | Arrives side bytes | Ends side | Fails side nat

fun fw_guard :: "fw_op \<Rightarrow> forwarder \<Rightarrow> bool" where
  "fw_guard (Arrives d b) f \<longleftrightarrow> \<not> fe_eof (fw_end f d)"
| "fw_guard x f \<longleftrightarrow> True"

fun fw_exec :: "fw_op \<Rightarrow> forwarder \<Rightarrow> forwarder" where
  "fw_exec (Copies d) f = copyIO d f"
| "fw_exec (Arrives d b) f = set_end d ((fw_end f d)\<lparr>fe_in := fe_in (fw_end f d) @ [b]\<rparr>) f"
| "fw_exec (Ends d) f = set_end d ((fw_end f d)\<lparr>fe_eof := True\<rparr>) f"
| "fw_exec (Fails d k) f = set_end d ((fw_end f d)\<lparr>fe_failed := True, fe_cut := k\<rparr>) f"

text \<open>\<open>conn2stream\<close> itself returns when it has received both counts.\<close>

definition returned :: "forwarder \<Rightarrow> bool" where
  "returned f \<longleftrightarrow> fw_phase f ConnEnd \<noteq> Copying \<and> fw_phase f StreamEnd \<noteq> Copying"

section \<open>What is reachable\<close>

lemma other_simps [simp]: "other (other d) = d" "other d \<noteq> d" "d \<noteq> other d"
  by (cases d; simp)+

lemma sideE: obtains "d' = d" | "d' = other d"
  by (cases d; cases d') auto

lemma fw_sel [simp]:
  "fw_end (set_end d e f) = (fw_end f)(d := e)" "fw_phase (set_end d e f) = fw_phase f"
  "fw_count (set_end d e f) = fw_count f"
  "fw_end (set_phase d p f) = fw_end f" "fw_phase (set_phase d p f) = (fw_phase f)(d := p)"
  "fw_count (set_phase d p f) = fw_count f"
  by (simp_all add: set_end_def set_phase_def)

text \<open>An end is closed exactly when one of the two goroutines has closed it.\<close>

definition closes :: "forwarder \<Rightarrow> side \<Rightarrow> bool" where
  "closes f d \<longleftrightarrow> fw_phase f d = Finished \<or> fw_phase f (other d) \<in> {DstClosed, Finished}"

definition fw_inv :: "forwarder \<Rightarrow> bool" where
  "fw_inv f \<longleftrightarrow> (\<forall>d. fe_closed (fw_end f d) \<longleftrightarrow> closes f d)"

definition arrivals :: "side \<Rightarrow> fw_op list \<Rightarrow> bytes list" where
  "arrivals d xs = concat (map (\<lambda>x. case x of Arrives d' b \<Rightarrow> if d' = d then [b] else [] | _ \<Rightarrow> []) xs)"

lemma arrivals_simps [simp]:
  "arrivals d [] = []" "arrivals d (xs @ ys) = arrivals d xs @ arrivals d ys"
  "arrivals d [Copies d'] = []" "arrivals d [Ends d'] = []" "arrivals d [Fails d' k] = []"
  "arrivals d [Arrives d' b] = (if d' = d then [b] else [])"
  by (simp_all add: arrivals_def)

text \<open>
  What goroutine \<open>d\<close> has done with what arrived: written, lost (what the failing write of its last
  chunk did not write) and not read yet. The goroutine that stops first without a failed write has
  written all.
\<close>

definition delivery :: "fw_op list \<Rightarrow> forwarder \<Rightarrow> side \<Rightarrow> bool" where
  "delivery xs f d \<longleftrightarrow>
     fw_count f d = length (concat (fe_out (fw_end f (other d)))) \<and>
     (\<exists>lost. concat (arrivals d xs) = concat (fe_out (fw_end f (other d))) @ lost @ concat (fe_in (fw_end f d)) \<and>
        (fw_phase f d = Copying \<longrightarrow> lost = []) \<and>
        (fw_phase f d \<noteq> Copying \<and> fw_phase f (other d) = Copying \<and> \<not> fe_failed (fw_end f (other d)) \<longrightarrow>
           lost = [] \<and> fe_in (fw_end f d) = [] \<and> fe_eof (fw_end f d)))"

lemma write_chunk_sel [simp]:
  "fw_phase (write_chunk d b f) = fw_phase f"
  "fw_end (write_chunk d b f) d = fw_end f d"
  "fw_end (write_chunk d b f) (other d) =
     (fw_end f (other d))\<lparr>fe_out := fe_out (fw_end f (other d)) @ [b]\<rparr>"
  "fw_count (write_chunk d b f) = (fw_count f)(d := fw_count f d + length b)"
  by (simp_all add: write_chunk_def Let_def)

lemma write_chunk_other [simp]:
  "fe_closed (fw_end (write_chunk d b f) d') = fe_closed (fw_end f d')"
  "fe_in (fw_end (write_chunk d b f) d') = fe_in (fw_end f d')"
  "fe_eof (fw_end (write_chunk d b f) d') = fe_eof (fw_end f d')"
  "fe_failed (fw_end (write_chunk d b f) d') = fe_failed (fw_end f d')"
  by (simp_all add: write_chunk_def Let_def)

text \<open>The four ways \<open>copy_chunk\<close> goes; \<open>w\<close> is what a failed write wrote.\<close>

lemma copy_chunk_cases:
  obtains (blocked) "copy_chunk d f = f"
  | (stops) "copy_chunk d f = set_phase d Counted f"
      "fe_closed (fw_end f d) \<or> fe_in (fw_end f d) = [] \<and> fe_eof (fw_end f d)"
  | (drops) b bs where "fe_in (fw_end f d) = b # bs" "fe_closed (fw_end f (other d))"
      "copy_chunk d f = set_phase d Counted (set_end d ((fw_end f d)\<lparr>fe_in := bs\<rparr>) f)"
  | (cuts) b bs k where "fe_in (fw_end f d) = b # bs" "\<not> fe_closed (fw_end f (other d))"
      "fe_failed (fw_end f (other d))"
      "copy_chunk d f =
         set_phase d Counted (write_chunk d (take k b) (set_end d ((fw_end f d)\<lparr>fe_in := bs\<rparr>) f))"
  | (copies) b bs where "fe_in (fw_end f d) = b # bs" "\<not> fe_closed (fw_end f (other d))"
      "copy_chunk d f = write_chunk d b (set_end d ((fw_end f d)\<lparr>fe_in := bs\<rparr>) f)"
proof (cases "fe_closed (fw_end f d)")
  case True
  then show ?thesis by (intro stops) (simp_all add: copy_chunk_def)
next
  case unclosed: False
  show ?thesis
  proof (cases "fe_in (fw_end f d)")
    case Nil
    with unclosed show ?thesis
      by (cases "fe_eof (fw_end f d)") (auto simp: copy_chunk_def intro: blocked stops)
  next
    case (Cons b bs)
    consider "fe_closed (fw_end f (other d))" | "\<not> fe_closed (fw_end f (other d))" "fe_failed (fw_end f (other d))"
      | "\<not> fe_closed (fw_end f (other d))" "\<not> fe_failed (fw_end f (other d))" by blast
    then show ?thesis
    proof cases
      case 1
      with unclosed Cons show ?thesis by (intro drops [of b bs]) (simp_all add: copy_chunk_def Let_def)
    next
      case 2
      with unclosed Cons show ?thesis
        by (intro cuts [of b bs "fe_cut (fw_end f (other d))"]) (simp_all add: copy_chunk_def Let_def)
    next
      case 3
      with unclosed Cons show ?thesis by (intro copies [of b bs]) (simp_all add: copy_chunk_def Let_def)
    qed
  qed
qed

lemma fw_inv_copyIO:
  assumes "fw_inv f"
  shows "fw_inv (copyIO d f)"
proof (cases "fw_phase f d")
  case Copying
  show ?thesis
    by (rule copy_chunk_cases [of d f])
      (use assms Copying in \<open>auto simp: copyIO_def fw_inv_def closes_def elim: sideE [of _ d]\<close>)
qed (use assms in \<open>auto simp: copyIO_def fw_inv_def closes_def close_end_def elim: sideE [of _ d]\<close>)

lemma closed_phase:
  assumes "fw_inv f" "fe_closed (fw_end f d)"
  shows "fw_phase f d = Finished \<or> fw_phase f (other d) \<in> {DstClosed, Finished}"
  using assms by (simp add: fw_inv_def closes_def)

lemma delivery_copy:
  assumes "fw_inv f" "delivery xs f d" "fw_phase f d = Copying"
  shows "delivery (xs @ [Copies d]) (copy_chunk d f) d"
  using assms
proof (cases rule: copy_chunk_cases [of d f])
  case stops
  with assms closed_phase [OF assms(1), of d] show ?thesis by (auto simp: delivery_def)
next
  case (drops b bs)
  with assms closed_phase [OF assms(1), of "other d"] show ?thesis
    by (auto simp: delivery_def intro!: exI [of _ b])
next
  case (cuts b bs k)
  with assms show ?thesis
    by (auto simp: delivery_def intro!: exI [of _ "drop k b"])
qed (use assms in \<open>auto simp: delivery_def\<close>)

lemma delivery_other_copy:
  assumes "fw_inv f" "delivery xs f d" "fw_phase f (other d) = Copying"
  shows "delivery (xs @ [Copies (other d)]) (copy_chunk (other d) f) d"
  using assms by (auto simp: delivery_def intro: copy_chunk_cases [of "other d" f])

lemma delivery_copyIO:
  assumes "fw_inv f" "delivery xs f d"
  shows "delivery (xs @ [Copies d']) (copyIO d' f) d"
proof (cases "fw_phase f d'")
  case Copying
  with delivery_copy [OF assms] delivery_other_copy [OF assms] show ?thesis
    by (cases rule: sideE [of d' d]) (simp_all add: copyIO_def)
qed (use assms in \<open>auto simp: copyIO_def delivery_def close_end_def elim!: sideE [of d' d]\<close>)

interpretation forwarder: history_system fw_guard fw_exec fw_inv "\<lambda>xs f. \<forall>d. delivery xs f d"
proof
  fix x f xs
  assume inv: "fw_inv f"
  show "fw_inv (fw_exec x f)"
    using inv fw_inv_copyIO [OF inv] by (cases x) (auto simp: fw_inv_def closes_def)
  assume deliveries: "\<forall>d. delivery xs f d" and guard: "fw_guard x f"
  have "delivery (xs @ [x]) (fw_exec x f) d" for d
  proof (cases x)
    case (Copies d')
    with deliveries delivery_copyIO [OF inv] show ?thesis by simp
  next
    case (Arrives d' b)
    with deliveries [rule_format, of d] guard show ?thesis
      by (cases rule: sideE [of d' d]) (auto simp: delivery_def)
  next
    case (Ends d')
    with deliveries [rule_format, of d] show ?thesis
      by (cases rule: sideE [of d' d]) (auto simp: delivery_def)
  next
    case (Fails d' k)
    with deliveries [rule_format, of d] show ?thesis
      by (cases rule: sideE [of d' d]) (auto simp: delivery_def)
  qed
  then show "\<forall>d. delivery (xs @ [x]) (fw_exec x f) d" ..
qed

abbreviation forwards :: "fw_op list \<Rightarrow> forwarder" where
  "forwards xs \<equiv> run_ops fw_exec xs conn2stream"

lemma fw_inv_start [simp]: "fw_inv conn2stream"
  by (simp add: conn2stream_def fw_inv_def closes_def fresh_end_def)

lemma forwards_ok:
  assumes "legal_ops fw_guard fw_exec xs conn2stream"
  shows "fw_inv (forwards xs)" "delivery xs (forwards xs) d"
proof -
  have "\<forall>d. delivery [] conn2stream d" by (simp add: delivery_def conn2stream_def fresh_end_def)
  from forwarder.run_hist [OF _ this assms] show "delivery xs (forwards xs) d" by simp
qed (rule forwarder.run_inv [OF fw_inv_start assms])

section \<open>Properties\<close>

text \<open>Forwarding is faithful: in every run, in each direction, what has been written to the far
  end is what arrived, in order and without a gap, up to what has not been read and what a failed
  write did not write of the last chunk that was read; the count the goroutine reports is
  the number of bytes written; and the goroutine that stops first without a failed write has
  seen the end of its source and has written everything.\<close>
theorem forwarder_in_order:
  assumes "legal_ops fw_guard fw_exec xs conn2stream" "f = forwards xs"
  shows "fw_count f d = length (concat (fe_out (fw_end f (other d)))) \<and>
    (\<exists>lost. concat (arrivals d xs) = concat (fe_out (fw_end f (other d))) @ lost @ concat (fe_in (fw_end f d)) \<and>
      (fw_phase f d = Copying \<longrightarrow> lost = [])) \<and>
    (fw_phase f d \<noteq> Copying \<and> fw_phase f (other d) = Copying \<and> \<not> fe_failed (fw_end f (other d)) \<longrightarrow>
      fe_eof (fw_end f d) \<and> concat (fe_out (fw_end f (other d))) = concat (arrivals d xs))"
proof -
  have "delivery xs f d" using forwards_ok(2) [OF assms(1)] assms(2) by simp
  then show ?thesis unfolding delivery_def by auto
qed

definition s_forwarding :: "fw_op list" where
  "s_forwarding = [Arrives ConnEnd [1, 2], Arrives StreamEnd [9], Copies ConnEnd, Arrives ConnEnd [3],
     Ends ConnEnd, Copies ConnEnd, Copies ConnEnd]"

theorem forwarder_in_order_witness:
  "concat (fe_out (fw_end (forwards s_forwarding) StreamEnd)) = [1, 2, 3] \<and>
   fw_count (forwards s_forwarding) ConnEnd = 3"
proof -
  have legal: "legal_ops fw_guard fw_exec s_forwarding conn2stream" by code_simp
  have state: "fw_phase (forwards s_forwarding) ConnEnd = Counted"
    "fw_phase (forwards s_forwarding) StreamEnd = Copying"
    "fe_failed (fw_end (forwards s_forwarding) StreamEnd) = False"
    by code_simp+
  have "arrivals ConnEnd s_forwarding = [[1, 2], [3]]" by code_simp
  with forwarder_in_order [OF legal refl, of ConnEnd] state show ?thesis by simp
qed

lemma same_prefix: "prefix us vs \<Longrightarrow> length us = length vs \<Longrightarrow> us = vs"
  by (auto simp: prefix_def)

text \<open>C37. Tunnelled bytes arrive as they were sent: when the client forwards a connection to a stream, the
  server forwards that stream to a connection, and the multiplexer delivers what was written to
  the stream, in order (it may still be on its way, and cut into other pieces), then whatever
  the two forwarders and their environments do, what the server's connection got is a prefix of
  what the client's connection sent; and it is all of it once both copying goroutines have
  stopped, each as the first of its forwarder and without a failed write, and the stream has
  delivered everything. The same holds for the answers, with the two forwarders exchanged.\<close>
theorem tunnel_end_to_end:
  assumes "legal_ops fw_guard fw_exec xs conn2stream" "f = run_ops fw_exec xs conn2stream"
    and "legal_ops fw_guard fw_exec ys stream2conn" "g = run_ops fw_exec ys stream2conn"
    and "prefix (concat (arrivals StreamEnd ys)) (concat (fe_out (fw_end f StreamEnd)))"
  shows "prefix (concat (fe_out (fw_end g ConnEnd))) (concat (arrivals ConnEnd xs)) \<and>
    (fw_phase f ConnEnd \<noteq> Copying \<and> fw_phase f StreamEnd = Copying \<and> \<not> fe_failed (fw_end f StreamEnd) \<and>
     fw_phase g StreamEnd \<noteq> Copying \<and> fw_phase g ConnEnd = Copying \<and> \<not> fe_failed (fw_end g ConnEnd) \<and>
     length (concat (arrivals StreamEnd ys)) = fw_count f ConnEnd \<longrightarrow>
       concat (fe_out (fw_end g ConnEnd)) = concat (arrivals ConnEnd xs) \<and>
       fw_count g StreamEnd = fw_count f ConnEnd)"
proof -
  note at_f = forwarder_in_order [OF assms(1,2), of ConnEnd, unfolded other.simps]
  note at_g = forwarder_in_order [OF assms(3,4) [unfolded stream2conn_def], of StreamEnd, unfolded other.simps]
  have "prefix (concat (fe_out (fw_end f StreamEnd))) (concat (arrivals ConnEnd xs))"
    using at_f by (metis prefixI)
  moreover have "prefix (concat (fe_out (fw_end g ConnEnd))) (concat (arrivals StreamEnd ys))"
    using at_g by (metis prefixI)
  ultimately have "prefix (concat (fe_out (fw_end g ConnEnd))) (concat (arrivals ConnEnd xs))"
    using assms(5) by (meson prefix_order.trans)
  moreover have "concat (fe_out (fw_end g ConnEnd)) = concat (arrivals ConnEnd xs) \<and>
      fw_count g StreamEnd = fw_count f ConnEnd"
    if f: "fw_phase f ConnEnd \<noteq> Copying" "fw_phase f StreamEnd = Copying" "\<not> fe_failed (fw_end f StreamEnd)"
      and g: "fw_phase g StreamEnd \<noteq> Copying" "fw_phase g ConnEnd = Copying" "\<not> fe_failed (fw_end g ConnEnd)"
      and all: "length (concat (arrivals StreamEnd ys)) = fw_count f ConnEnd"
  proof -
    have "concat (fe_out (fw_end f StreamEnd)) = concat (arrivals ConnEnd xs)"
      "fw_count f ConnEnd = length (concat (fe_out (fw_end f StreamEnd)))"
      "concat (fe_out (fw_end g ConnEnd)) = concat (arrivals StreamEnd ys)"
      "fw_count g StreamEnd = length (concat (fe_out (fw_end g ConnEnd)))"
      using at_f at_g f g by blast+
    moreover from this(2) have "concat (fe_out (fw_end f StreamEnd)) = concat (arrivals StreamEnd ys)"
      using same_prefix [OF assms(5)] all by metis
    ultimately show ?thesis by metis
  qed
  ultimately show ?thesis by blast
qed

definition s_forwarding' :: "fw_op list" where
  "s_forwarding' = [Arrives StreamEnd [1], Copies StreamEnd, Arrives StreamEnd [2, 3], Ends StreamEnd,
     Copies StreamEnd, Copies StreamEnd]"

theorem tunnel_end_to_end_witness:
  "concat (fe_out (fw_end (run_ops fw_exec s_forwarding' stream2conn) ConnEnd)) = [1, 2, 3]"
proof -
  let ?f = "run_ops fw_exec s_forwarding conn2stream" and ?g = "run_ops fw_exec s_forwarding' stream2conn"
  have legal: "legal_ops fw_guard fw_exec s_forwarding conn2stream"
    "legal_ops fw_guard fw_exec s_forwarding' stream2conn"
    "prefix (concat (arrivals StreamEnd s_forwarding')) (concat (fe_out (fw_end ?f StreamEnd)))"
    by code_simp+
  have state: "fw_phase ?f ConnEnd = Counted" "fw_phase ?f StreamEnd = Copying"
    "fe_failed (fw_end ?f StreamEnd) = False" "fw_phase ?g StreamEnd = Counted"
    "fw_phase ?g ConnEnd = Copying" "fe_failed (fw_end ?g ConnEnd) = False"
    "length (concat (arrivals StreamEnd s_forwarding')) = fw_count ?f ConnEnd"
    by code_simp+
  have "concat (arrivals ConnEnd s_forwarding) = [1, 2, 3]" by code_simp
  with tunnel_end_to_end [OF legal(1) refl legal(2) refl legal(3)] state show ?thesis by simp
qed

text \<open>How far a goroutine is.\<close>

fun rank :: "copy_phase \<Rightarrow> nat" where
  "rank Copying = 0"
| "rank Counted = 1"
| "rank DstClosed = 2"
| "rank Finished = 3"

lemma rank_3 [simp]: "3 \<le> rank p \<longleftrightarrow> p = Finished" by (cases p) auto

lemma copyIO_phase:
  "fw_phase f d \<noteq> Copying \<or> fe_closed (fw_end f d) \<Longrightarrow>
     rank (fw_phase (copyIO d f) d) = min 3 (Suc (rank (fw_phase f d)))"
  "fw_phase (copyIO d f) (other d) = fw_phase f (other d)"
  by (auto simp: copyIO_def copy_chunk_def Let_def close_end_def split: copy_phase.split list.split)

lemma copyIO_closed: "fe_closed (fw_end f d') \<Longrightarrow> fe_closed (fw_end (copyIO d f) d')"
  by (auto simp: copyIO_def copy_chunk_def Let_def close_end_def split: copy_phase.split list.split)

definition leaving :: "forwarder \<Rightarrow> side \<Rightarrow> bool" where
  "leaving f d \<longleftrightarrow> fw_phase f d \<noteq> Copying \<or> fe_closed (fw_end f d)"

lemma copyIO_out: "fe_closed (fw_end f d) \<Longrightarrow> fe_out (fw_end (copyIO d' f) d) = fe_out (fw_end f d)"
  by (cases rule: sideE [of d' d])
    (auto simp: copyIO_def copy_chunk_def Let_def close_end_def split: copy_phase.split list.split)

lemma rank_step:
  assumes "leaving f d"
  shows "min 3 (rank (fw_phase f d) + (if x = Copies d then 1 else 0)) \<le> rank (fw_phase (fw_exec x f) d)"
    and "leaving (fw_exec x f) d"
proof -
  have copies: "rank (fw_phase (copyIO d f) d) = min 3 (Suc (rank (fw_phase f d)))"
    using assms copyIO_phase(1) by (simp add: leaving_def)
  have other: "fw_phase (copyIO (other d) f) d = fw_phase f d"
    using copyIO_phase(2) [of "other d" f] by simp
  show "min 3 (rank (fw_phase f d) + (if x = Copies d then 1 else 0)) \<le> rank (fw_phase (fw_exec x f) d)"
  proof (cases x)
    case (Copies d')
    then show ?thesis by (cases rule: sideE [of d' d]) (simp_all add: copies other)
  qed simp_all
  have "rank (fw_phase (copyIO d f) d) \<noteq> 0" by (simp add: copies)
  then have "fw_phase (copyIO d f) d \<noteq> Copying" by auto
  then show "leaving (fw_exec x f) d"
    using assms other copyIO_closed [of f d]
    by (cases x; cases rule: sideE [of "case x of Copies d' \<Rightarrow> d' | Arrives d' _ \<Rightarrow> d' | Ends d' \<Rightarrow> d' | Fails d' _ \<Rightarrow> d'" d])
      (auto simp: leaving_def)
qed

lemma rank_run:
  "leaving f d \<Longrightarrow>
     min 3 (rank (fw_phase f d) + count_list xs (Copies d)) \<le> rank (fw_phase (run_ops fw_exec xs f) d)"
proof (induction xs arbitrary: f)
  case (Cons x xs)
  note step = rank_step [OF Cons.prems, of x]
  from Cons.IH [OF step(2)] step(1) show ?case by (auto simp: min_def split: if_splits)
qed simp

lemma leaving_run: "leaving f d \<Longrightarrow> leaving (run_ops fw_exec xs f) d"
  using rank_step(2) by (induction xs arbitrary: f) auto

text \<open>C38. Forwarding ends: once the goroutine of one direction has stopped copying, for whatever
  reason, then after two more of its steps both ends are closed, and after three more steps of
  the other goroutine, whatever it was doing and whatever else happens, both have finished and
  \<open>conn2stream\<close> has returned: neither an end nor a goroutine is left behind.\<close>
theorem forwarder_returns:
  assumes "legal_ops fw_guard fw_exec (xs @ us @ vs) conn2stream"
    and "fw_phase (forwards xs) d \<noteq> Copying"
    and "2 \<le> count_list us (Copies d)" "3 \<le> count_list vs (Copies (other d))"
  shows "(\<forall>d'. fe_closed (fw_end (forwards (xs @ us)) d')) \<and>
    (\<forall>d'. fw_phase (forwards (xs @ us @ vs)) d' = Finished) \<and> returned (forwards (xs @ us @ vs))"
proof -
  from assms(1) have legal: "legal_ops fw_guard fw_exec (xs @ us) conn2stream"
    by (simp add: legal_ops_append)
  have "rank (fw_phase (forwards xs) d) \<noteq> 0" using assms(2) by (cases "fw_phase (forwards xs) d") auto
  moreover have "leaving (forwards xs) d" using assms(2) by (simp add: leaving_def)
  ultimately have "3 \<le> rank (fw_phase (forwards (xs @ us)) d)"
    using rank_run [of "forwards xs" d us] assms(3) by (simp add: run_ops_append)
  then have d: "fw_phase (forwards (xs @ us)) d = Finished" by simp
  have closed: "fe_closed (fw_end (forwards (xs @ us)) d')" for d'
    using forwards_ok(1) [OF legal] d by (cases rule: sideE [of d' d]) (auto simp: fw_inv_def closes_def)
  then have leaving: "leaving (forwards (xs @ us)) d'" for d' by (simp add: leaving_def)
  have "fw_phase (forwards (xs @ us @ vs)) d' = Finished" for d'
  proof (cases rule: sideE [of d' d])
    case 1
    with rank_run [OF leaving, of d vs] d show ?thesis by (simp add: run_ops_append)
  next
    case 2
    with rank_run [OF leaving, of "other d" vs] assms(4) show ?thesis by (simp add: run_ops_append)
  qed
  with closed show ?thesis by (simp add: returned_def)
qed

theorem forwarder_returns_witness:
  "returned (forwards (s_forwarding @ [Copies ConnEnd, Copies ConnEnd] @ replicate 3 (Copies StreamEnd)))"
proof -
  have "legal_ops fw_guard fw_exec
      (s_forwarding @ [Copies ConnEnd, Copies ConnEnd] @ replicate 3 (Copies StreamEnd)) conn2stream"
    "fw_phase (forwards s_forwarding) ConnEnd \<noteq> Copying"
    "2 \<le> count_list [Copies ConnEnd, Copies ConnEnd] (Copies ConnEnd)"
    "3 \<le> count_list (replicate 3 (Copies StreamEnd)) (Copies (other ConnEnd))"
    by code_simp+
  from forwarder_returns [OF this] show ?thesis by blast
qed

text \<open>A half-closed connection gets no answer: when a client has sent all it has to send and ended
  its direction, then as soon as the goroutine reading from it has noticed (three steps), nothing
  that has arrived for the client, or arrives later, is ever written to it.\<close>
theorem half_close_truncates:
  assumes "fw_phase f d = Copying" "fe_in (fw_end f d) = []" "fe_eof (fw_end f d)"
  shows "fe_out (fw_end (run_ops fw_exec (replicate 3 (Copies d) @ ys) f) d) = fe_out (fw_end f d)"
proof -
  have frozen: "fe_closed (fw_end g d) \<Longrightarrow> fe_out (fw_end (run_ops fw_exec ys g) d) = fe_out (fw_end g d)"
    for g ys
  proof (induction ys arbitrary: g)
    case (Cons y ys)
    have "fe_closed (fw_end (fw_exec y g) d) \<and> fe_out (fw_end (fw_exec y g) d) = fe_out (fw_end g d)"
      using Cons.prems copyIO_closed [OF Cons.prems] copyIO_out [OF Cons.prems] by (cases y) auto
    with Cons.IH show ?case by simp
  qed simp
  let ?g = "copyIO d (copyIO d (copyIO d f))"
  have "copyIO d f = set_phase d Counted f"
    using assms by (simp add: copyIO_def copy_chunk_def Let_def)
  then have "?g = set_phase d Finished (close_end d (set_phase d DstClosed (close_end (other d)
      (set_phase d Counted f))))"
    by (simp add: copyIO_def close_end_def)
  then have "fe_closed (fw_end ?g d) \<and> fe_out (fw_end ?g d) = fe_out (fw_end f d)"
    by (simp add: close_end_def)
  with frozen [of ?g ys] show ?thesis by (simp add: numeral_3_eq_3)
qed

theorem half_close_truncates_witness:
  "fe_in (fw_end (forwards (butlast s_forwarding)) StreamEnd) = [[9]] \<and>
   fe_out (fw_end (run_ops fw_exec (replicate 3 (Copies ConnEnd) @ [Copies StreamEnd, Arrives StreamEnd [8]])
     (forwards (butlast s_forwarding))) ConnEnd) = []"
proof -
  let ?f = "forwards (butlast s_forwarding)"
  have "fw_phase ?f ConnEnd = Copying" "fe_in (fw_end ?f ConnEnd) = []" "fe_eof (fw_end ?f ConnEnd)"
    and rest: "fe_in (fw_end ?f StreamEnd) = [[9]]" "fe_out (fw_end ?f ConnEnd) = []"
    by code_simp+
  from half_close_truncates [OF this(1-3)] rest show ?thesis by simp
qed

end
