(* ===== verification/Session.thy ===== *)
theory Session
  imports Tunnel Forwarder
begin

text \<open>
  The sessions of \<^verbatim>\<open>client.go\<close> and \<^verbatim>\<open>server.go\<close> as what they are, several goroutines:
  the client's accept loop, its watchdog, which closes the listener when it sees that the
  multiplexer session is closed, and the peer, which may close that session at any moment; the
  server's accept loop, which also dials. What a library call returns is part of the step, as
  far as the state leaves it open: a closed listener accepts nothing and a closed session opens
  no stream and receives no further one; the streams that arrived before may still be accepted
  after it, as the library chooses. The actions are those of the functions of \<open>Tunnel\<close>.
\<close>

section \<open>The client\<close>

datatype client_phase = Accepting | Opening nat | CleaningUp "action list"

record client_state =
  cs_alive :: bool             \<comment> \<open>the session is open\<close>
  cs_listening :: bool
  cs_watchdog :: bool          \<comment> \<open>the watchdog is running\<close>
  cs_phase :: client_phase
  cs_acts :: "action list"     \<comment> \<open>what the loop and the clean-up did\<close>
  cs_answers :: "accepted list" \<comment> \<open>history: each accepted connection with the answer of \<open>OpenStream\<close>\<close>

definition client_start :: client_state where
  "client_start = \<lparr>cs_alive = True, cs_listening = True, cs_watchdog = True, cs_phase = Accepting,
     cs_acts = [], cs_answers = []\<rparr>"

datatype client_op = AcceptOp "nat option" | OpenOp "nat option" | CleanOp | WatchOp | SessionDies

fun client_guard :: "client_op \<Rightarrow> client_state \<Rightarrow> bool" where
  "client_guard (AcceptOp r) w \<longleftrightarrow> cs_phase w = Accepting \<and> (r \<noteq> None \<longrightarrow> cs_listening w)"
| "client_guard (OpenOp r) w \<longleftrightarrow>
     (case cs_phase w of Opening c \<Rightarrow> r \<noteq> None \<longrightarrow> cs_alive w | _ \<Rightarrow> False)"
| "client_guard CleanOp w \<longleftrightarrow> (case cs_phase w of CleaningUp (a # as) \<Rightarrow> True | _ \<Rightarrow> False)"
| "client_guard WatchOp w \<longleftrightarrow> cs_watchdog w"
| "client_guard SessionDies w \<longleftrightarrow> True"

definition clean :: "action \<Rightarrow> client_state \<Rightarrow> client_state" where
  "clean a w = w\<lparr>cs_acts := cs_acts w @ [a], cs_alive := (cs_alive w \<and> a \<noteq> CloseSession),
     cs_listening := (cs_listening w \<and> a \<noteq> CloseListener)\<rparr>"

fun client_exec :: "action list \<Rightarrow> client_op \<Rightarrow> client_state \<Rightarrow> client_state" where
  "client_exec cleanup (AcceptOp None) w =
     w\<lparr>cs_phase := CleaningUp cleanup, cs_answers := cs_answers w @ [AcceptFailed]\<rparr>"
| "client_exec cleanup (AcceptOp (Some c)) w = w\<lparr>cs_phase := Opening c\<rparr>"
| "client_exec cleanup (OpenOp r) w =
     (case cs_phase w of
        Opening c \<Rightarrow>
          (case r of
             None \<Rightarrow> w\<lparr>cs_phase := CleaningUp cleanup, cs_acts := cs_acts w @ [CloseConn c],
                       cs_answers := cs_answers w @ [Accepted c None]\<rparr>
           | Some s \<Rightarrow> w\<lparr>cs_phase := Accepting, cs_acts := cs_acts w @ [Forward c s],
                         cs_answers := cs_answers w @ [Accepted c (Some s)]\<rparr>)
      | _ \<Rightarrow> w)"
| "client_exec cleanup CleanOp w =
     (case cs_phase w of CleaningUp (a # as) \<Rightarrow> (clean a w)\<lparr>cs_phase := CleaningUp as\<rparr> | _ \<Rightarrow> w)"
| "client_exec cleanup WatchOp w =
     (if cs_alive w then w else w\<lparr>cs_listening := False, cs_watchdog := False\<rparr>)"
| "client_exec cleanup SessionDies w = w\<lparr>cs_alive := False\<rparr>"

text \<open>What the clean-up of the client consists of, after \<open>CloseSession\<close> and, for KCP, its connection.\<close>

definition client_cleanup :: "bool \<Rightarrow> action list" where
  "client_cleanup kcp = (if kcp then [CloseSession, CloseKcp] else [CloseSession]) @ [CloseTunnel, CloseListener]"

text \<open>The connections a list of actions disposes of.\<close>

definition disposed :: "action list \<Rightarrow> nat list" where
  "disposed acts = concat (map (\<lambda>a. case a of Forward c s \<Rightarrow> [c] | CloseConn c \<Rightarrow> [c] | _ \<Rightarrow> []) acts)"

definition connections :: "accepted list \<Rightarrow> nat list" where
  "connections as = concat (map (\<lambda>a. case a of Accepted c s \<Rightarrow> [c] | AcceptFailed \<Rightarrow> []) as)"

lemma disposed_simps [simp]:
  "disposed [] = []" "disposed (as @ bs) = disposed as @ disposed bs"
  "disposed (Forward c s # as) = c # disposed as" "disposed (CloseConn c # as) = c # disposed as"
  "connections [] = []" "connections (xs @ ys) = connections xs @ connections ys"
  "connections (Accepted c r # xs) = c # connections xs" "connections (AcceptFailed # xs) = connections xs"
  by (simp_all add: disposed_def connections_def)

text \<open>
  The loop agrees with \<open>client_loop\<close> on the answers so far; the listener is closed only by the
  watchdog, which then has ended, or by the clean-up.
\<close>

definition client_inv :: "action list \<Rightarrow> client_state \<Rightarrow> bool" where
  "client_inv cleanup w \<longleftrightarrow>
     (case cs_phase w of
        CleaningUp as \<Rightarrow>
          (\<exists>done. done @ as = cleanup \<and> cs_acts w = fst (client_loop (cs_answers w)) @ done \<and>
             (CloseSession \<in> set done \<longrightarrow> \<not> cs_alive w) \<and> (CloseListener \<in> set done \<longrightarrow> \<not> cs_listening w)) \<and>
          snd (client_loop (cs_answers w))
      | _ \<Rightarrow> client_loop (cs_answers w) = (cs_acts w, False)) \<and>
     (cs_watchdog w \<or> \<not> cs_listening w) \<and>
     connections (cs_answers w) = disposed (fst (client_loop (cs_answers w)))"

lemma client_loop_snoc:
  assumes "\<not> snd (client_loop as)"
  shows "client_loop (as @ bs) =
    (fst (client_loop as) @ fst (client_loop bs), snd (client_loop bs))"
  using assms by (induction as rule: client_loop.induct) (auto split: prod.splits)

lemma client_inv_start [simp]: "client_inv cleanup client_start"
  by (simp add: client_inv_def client_start_def)

lemma client_inv_exec:
  assumes "client_inv cleanup w" "client_guard x w"
  shows "client_inv cleanup (client_exec cleanup x w)"
proof (cases x)
  case (AcceptOp r)
  with assms show ?thesis
    by (cases r) (auto simp: client_inv_def client_loop_snoc)
next
  case (OpenOp r)
  with assms obtain c where "cs_phase w = Opening c" by (auto split: client_phase.splits)
  with assms OpenOp show ?thesis
    by (cases r) (auto simp: client_inv_def client_loop_snoc)
next
  case CleanOp
  with assms(2) obtain a as where phase: "cs_phase w = CleaningUp (a # as)"
    by (auto split: client_phase.splits list.splits)
  with assms(1) obtain before where before: "before @ a # as = cleanup"
    "cs_acts w = fst (client_loop (cs_answers w)) @ before"
    "CloseSession \<in> set before \<longrightarrow> \<not> cs_alive w" "CloseListener \<in> set before \<longrightarrow> \<not> cs_listening w"
    by (auto simp: client_inv_def)
  with assms(1) phase CleanOp show ?thesis
    by (auto simp: client_inv_def clean_def intro!: exI [of _ "before @ [a]"])
qed (use assms in \<open>auto simp: client_inv_def split: client_phase.splits\<close>)

text \<open>
  What the client still has to do once its session is dead: the watchdog its last look, the loop
  at most one connection, and the clean-up. A step is due when it does not wait for anything.
\<close>

fun client_own :: "client_op \<Rightarrow> bool" where
  "client_own SessionDies = False"
| "client_own x = True"

fun client_due :: "client_op \<Rightarrow> client_state \<Rightarrow> bool" where
  "client_due (AcceptOp r) w \<longleftrightarrow> \<not> cs_listening w"
| "client_due (OpenOp r) w \<longleftrightarrow> \<not> cs_alive w"
| "client_due x w \<longleftrightarrow> True"

definition client_left :: "action list \<Rightarrow> client_state \<Rightarrow> nat" where
  "client_left cleanup w = (if cs_watchdog w then 1 else 0) +
     (case cs_phase w of
        Accepting \<Rightarrow> length cleanup + 2
      | Opening c \<Rightarrow> length cleanup + 1
      | CleaningUp as \<Rightarrow> length as)"

interpretation client: draining client_guard "client_exec cleanup" "client_inv cleanup" client_own client_due
  "\<lambda>w. \<not> cs_alive w" "client_left cleanup"
proof
  fix x w
  assume inv: "client_inv cleanup w"
  show "client_guard x w \<Longrightarrow> client_inv cleanup (client_exec cleanup x w)"
    by (rule client_inv_exec [OF inv])
  assume dead: "\<not> cs_alive w"
  show "client_guard x w \<Longrightarrow> \<not> cs_alive (client_exec cleanup x w)"
    using dead by (cases "(cleanup, x, w)" rule: client_exec.cases)
      (auto simp: clean_def split: client_phase.split list.split option.split)
  show "client_guard x w \<Longrightarrow> client_own x \<Longrightarrow>
      client_left cleanup (client_exec cleanup x w) < client_left cleanup w"
    using dead by (cases "(cleanup, x, w)" rule: client_exec.cases)
      (auto simp: client_left_def clean_def split: client_phase.splits list.splits)
  show "client_guard x w \<Longrightarrow> \<not> client_own x \<Longrightarrow>
      client_left cleanup (client_exec cleanup x w) \<le> client_left cleanup w"
    by (cases x) (auto simp: client_left_def)
  assume left: "client_left cleanup w \<noteq> 0"
  show "\<exists>x. client_own x \<and> client_guard x w \<and> client_due x w"
  proof (cases "cs_watchdog w")
    case True
    then show ?thesis by (intro exI [of _ WatchOp]) simp
  next
    case False
    with inv have closed: "\<not> cs_listening w" by (simp add: client_inv_def)
    show ?thesis
    proof (cases "cs_phase w")
      case Accepting
      with closed show ?thesis by (intro exI [of _ "AcceptOp None"]) simp
    next
      case (Opening c)
      with dead show ?thesis by (intro exI [of _ "OpenOp None"]) simp
    next
      case (CleaningUp as)
      with left False show ?thesis
        by (intro exI [of _ CleanOp]) (auto simp: client_left_def split: list.split)
    qed
  qed
qed

abbreviation client_runs :: "bool \<Rightarrow> client_op list \<Rightarrow> client_state" where
  "client_runs kcp xs \<equiv> run_ops (client_exec (client_cleanup kcp)) xs client_start"

abbreviation client_legal :: "bool \<Rightarrow> client_op list \<Rightarrow> bool" where
  "client_legal kcp xs \<equiv> legal_ops client_guard (client_exec (client_cleanup kcp)) xs client_start"

lemma client_runs_inv: "client_legal kcp xs \<Longrightarrow> client_inv (client_cleanup kcp) (client_runs kcp xs)"
  by (rule client.run_inv [OF client_inv_start])

definition s_client_ops :: "client_op list" where
  "s_client_ops = [AcceptOp (Some 3), OpenOp (Some 1), SessionDies, AcceptOp (Some 4), WatchOp, OpenOp None,
     CleanOp, CleanOp, CleanOp]"

lemma s_client_run:
  "client_legal False s_client_ops"
  "client_runs False s_client_ops = \<lparr>cs_alive = False, cs_listening = False, cs_watchdog = False,
     cs_phase = CleaningUp [],
     cs_acts = [Forward 3 1, CloseConn 4, CloseSession, CloseTunnel, CloseListener],
     cs_answers = [Accepted 3 (Some 1), Accepted 4 None]\<rparr>"
  by (simp_all add: s_client_ops_def client_start_def client_cleanup_def clean_def)

text \<open>C39. The client session shuts down and loses no connection: every connection \<open>Accept\<close> returned
  is handed to a forwarder or closed, exactly once and in order, but for one the loop is opening a
  stream for; and once the session is dead, whatever the client was doing and whatever arrives,
  its loop, watchdog and clean-up take at most \<open>length cleanup + 3\<close> more steps, some step is due
  that waits for nobody until all are done, and then the session and the listener are closed.\<close>
theorem client_session_shutdown:
  assumes "client_legal kcp (xs @ ys)" "v = client_runs kcp xs" "w = client_runs kcp (xs @ ys)"
    and "\<not> cs_alive v"
  shows "connections (cs_answers w) = disposed (cs_acts w) \<and>
    length (filter client_own ys) \<le> length (client_cleanup kcp) + 3 \<and>
    (if cs_phase w = CleaningUp [] \<and> \<not> cs_watchdog w then \<not> cs_alive w \<and> \<not> cs_listening w
     else \<exists>x. client_own x \<and> client_guard x w \<and> client_due x w)"
proof -
  have inv: "client_inv (client_cleanup kcp) w"
    using client_runs_inv [OF assms(1)] assms(3) by simp
  from assms(1) have legal: "client_legal kcp xs"
    "legal_ops client_guard (client_exec (client_cleanup kcp)) ys v"
    by (simp_all add: legal_ops_append assms(2))
  have run: "w = run_ops (client_exec (client_cleanup kcp)) ys v"
    by (simp add: assms(2,3) run_ops_append)
  have inv_v: "client_inv (client_cleanup kcp) v" using client_runs_inv [OF legal(1)] assms(2) by simp
  note drained = client.run_drains [OF inv_v assms(4) legal(2), folded run]
  note finish = client.finishes [OF inv_v assms(4) legal(2) run]
  have "length as \<le> length (client_cleanup kcp)" if phase: "cs_phase v = CleaningUp as" for as
  proof -
    obtain before where "before @ as = client_cleanup kcp" using inv_v phase by (auto simp: client_inv_def)
    then show ?thesis by (metis length_append le_add2)
  qed
  then have "client_left (client_cleanup kcp) v \<le> length (client_cleanup kcp) + 3"
    by (auto simp: client_left_def split: client_phase.split)
  moreover have "client_left (client_cleanup kcp) w = 0 \<longleftrightarrow> cs_phase w = CleaningUp [] \<and> \<not> cs_watchdog w"
    by (auto simp: client_left_def split: client_phase.split)
  moreover have "connections (cs_answers w) = disposed (cs_acts w)"
  proof -
    have "disposed (client_cleanup kcp) = []" by (simp add: client_cleanup_def disposed_def)
    then have "done @ as = client_cleanup kcp \<Longrightarrow> disposed done = []" for "done" as
      by (metis disposed_simps(2) append_is_Nil_conv)
    with inv show ?thesis by (auto simp: client_inv_def split: client_phase.splits)
  qed
  moreover have "\<not> cs_watchdog w \<Longrightarrow> \<not> cs_listening w" using inv by (simp add: client_inv_def)
  ultimately show ?thesis using drained finish by auto
qed


theorem client_session_shutdown_witness:
  "connections [Accepted 3 (Some 1), Accepted 4 None] = disposed (cs_acts (client_runs False s_client_ops)) \<and>
   \<not> cs_listening (client_runs False s_client_ops)"
proof -
  let ?xs = "take 3 s_client_ops" and ?ys = "drop 3 s_client_ops"
  have legal: "client_legal False (?xs @ ?ys)" using s_client_run(1) by simp
  have "\<not> cs_alive (client_runs False ?xs)" by (simp add: s_client_ops_def client_start_def)
  from client_session_shutdown [OF legal refl refl this]
  show ?thesis unfolding append_take_drop_id s_client_run(2) by simp
qed

section \<open>The server\<close>

text \<open>
  The server's loop dials in between, when it forwards to an address; \<open>DialTCP\<close> returns when it
  has connected or given up.
\<close>

datatype server_phase = Awaiting | Dialing nat | Cleaning "action list"

record server_state =
  sv_alive :: bool
  sv_queued :: nat         \<comment> \<open>streams that arrived and were not accepted\<close>
  sv_phase :: server_phase
  sv_acts :: "action list"
  sv_answers :: "stream_in list"

definition server_start :: server_state where
  "server_start = \<lparr>sv_alive = True, sv_queued = 0, sv_phase = Awaiting, sv_acts = [], sv_answers = []\<rparr>"

datatype server_op =
    StreamArrives | StreamOp "nat option" | DialOp "nat option" | CleanServer | TunnelDies

fun server_guard :: "server_op \<Rightarrow> server_state \<Rightarrow> bool" where
  "server_guard StreamArrives w \<longleftrightarrow> sv_alive w"
| "server_guard (StreamOp r) w \<longleftrightarrow> sv_phase w = Awaiting \<and> (r \<noteq> None \<longrightarrow> 0 < sv_queued w)"
| "server_guard (DialOp r) w \<longleftrightarrow> (case sv_phase w of Dialing s \<Rightarrow> True | _ \<Rightarrow> False)"
| "server_guard CleanServer w \<longleftrightarrow> (case sv_phase w of Cleaning (a # as) \<Rightarrow> True | _ \<Rightarrow> False)"
| "server_guard TunnelDies w \<longleftrightarrow> True"

text \<open>\<open>mapping\<close>: there is a forward address; otherwise streams are served by SOCKS5. Without one the
  answer recorded for the dial is \<open>None\<close>: \<open>server_loop\<close> does not look at it.\<close>

fun server_exec :: "bool \<Rightarrow> action list \<Rightarrow> server_op \<Rightarrow> server_state \<Rightarrow> server_state" where
  "server_exec mapping cleanup StreamArrives w = w\<lparr>sv_queued := sv_queued w + 1\<rparr>"
| "server_exec mapping cleanup (StreamOp None) w =
     w\<lparr>sv_phase := Cleaning cleanup, sv_answers := sv_answers w @ [StreamFailed]\<rparr>"
| "server_exec mapping cleanup (StreamOp (Some s)) w =
     (if mapping then w\<lparr>sv_queued := sv_queued w - 1, sv_phase := Dialing s\<rparr>
      else w\<lparr>sv_queued := sv_queued w - 1, sv_acts := sv_acts w @ [ServeSocks s], sv_answers := sv_answers w @ [StreamIn s None]\<rparr>)"
| "server_exec mapping cleanup (DialOp r) w =
     (case sv_phase w of
        Dialing s \<Rightarrow> w\<lparr>sv_phase := Awaiting,
          sv_acts := sv_acts w @ [case r of None \<Rightarrow> CloseStream s | Some c \<Rightarrow> Forward c s],
          sv_answers := sv_answers w @ [StreamIn s r]\<rparr>
      | _ \<Rightarrow> w)"
| "server_exec mapping cleanup CleanServer w =
     (case sv_phase w of
        Cleaning (a # as) \<Rightarrow> w\<lparr>sv_acts := sv_acts w @ [a], sv_phase := Cleaning as,
          sv_alive := (sv_alive w \<and> a \<noteq> CloseSession)\<rparr>
      | _ \<Rightarrow> w)"
| "server_exec mapping cleanup TunnelDies w = w\<lparr>sv_alive := False\<rparr>"

definition server_cleanup :: "bool \<Rightarrow> action list" where
  "server_cleanup kcp = (if kcp then [CloseSession, CloseKcp] else [CloseSession]) @ [CloseTunnel]"

text \<open>The streams a list of actions disposes of.\<close>

definition served :: "action list \<Rightarrow> nat list" where
  "served acts = concat (map (\<lambda>a. case a of
     Forward c s \<Rightarrow> [s] | ServeSocks s \<Rightarrow> [s] | CloseStream s \<Rightarrow> [s] | _ \<Rightarrow> []) acts)"

definition streams :: "stream_in list \<Rightarrow> nat list" where
  "streams as = concat (map (\<lambda>a. case a of StreamIn s c \<Rightarrow> [s] | StreamFailed \<Rightarrow> []) as)"

lemma served_simps [simp]:
  "served [] = []" "served (as @ bs) = served as @ served bs" "served (Forward c s # as) = s # served as"
  "served (ServeSocks s # as) = s # served as" "served (CloseStream s # as) = s # served as"
  "served (CloseSession # as) = served as" "served (CloseKcp # as) = served as"
  "served (CloseTunnel # as) = served as"
  "streams [] = []" "streams (xs @ ys) = streams xs @ streams ys"
  "streams (StreamIn s r # xs) = s # streams xs" "streams (StreamFailed # xs) = streams xs"
  by (simp_all add: served_def streams_def)

definition server_inv :: "bool \<Rightarrow> action list \<Rightarrow> server_state \<Rightarrow> bool" where
  "server_inv mapping cleanup w \<longleftrightarrow>
     (case sv_phase w of
        Cleaning as \<Rightarrow>
          (\<exists>done. done @ as = cleanup \<and> sv_acts w = fst (server_loop mapping (sv_answers w)) @ done \<and>
             (CloseSession \<in> set done \<longrightarrow> \<not> sv_alive w)) \<and>
          snd (server_loop mapping (sv_answers w))
      | Awaiting \<Rightarrow> server_loop mapping (sv_answers w) = (sv_acts w, False)
      | Dialing s \<Rightarrow> mapping \<and> server_loop mapping (sv_answers w) = (sv_acts w, False)) \<and>
     streams (sv_answers w) = served (fst (server_loop mapping (sv_answers w)))"

lemma server_loop_snoc:
  assumes "\<not> snd (server_loop mapping as)"
  shows "server_loop mapping (as @ bs) =
    (fst (server_loop mapping as) @ fst (server_loop mapping bs), snd (server_loop mapping bs))"
  using assms by (induction mapping as rule: server_loop.induct) (auto split: prod.splits)

lemma server_inv_exec:
  assumes "server_inv mapping cleanup w" "server_guard x w"
  shows "server_inv mapping cleanup (server_exec mapping cleanup x w)"
proof (cases x)
  case (StreamOp r)
  with assms show ?thesis
    by (cases r) (auto simp: server_inv_def server_loop_snoc)
next
  case (DialOp r)
  with assms obtain s where "sv_phase w = Dialing s" by (auto split: server_phase.splits)
  with assms DialOp show ?thesis
    by (cases r) (auto simp: server_inv_def server_loop_snoc)
next
  case CleanServer
  with assms(2) obtain a as where phase: "sv_phase w = Cleaning (a # as)"
    by (auto split: server_phase.splits list.splits)
  with assms(1) obtain before where "before @ a # as = cleanup"
    "sv_acts w = fst (server_loop mapping (sv_answers w)) @ before"
    "CloseSession \<in> set before \<longrightarrow> \<not> sv_alive w"
    by (auto simp: server_inv_def)
  with assms(1) phase CleanServer show ?thesis
    by (auto simp: server_inv_def intro!: exI [of _ "before @ [a]"])
qed (use assms in \<open>auto simp: server_inv_def split: server_phase.splits\<close>)

fun server_own :: "server_op \<Rightarrow> bool" where
  "server_own TunnelDies = False"
| "server_own StreamArrives = False"
| "server_own x = True"

definition server_left :: "action list \<Rightarrow> server_state \<Rightarrow> nat" where
  "server_left cleanup w =
     (case sv_phase w of
        Awaiting \<Rightarrow> length cleanup + 1 + 2 * sv_queued w
      | Dialing s \<Rightarrow> length cleanup + 2 + 2 * sv_queued w
      | Cleaning as \<Rightarrow> length as)"

text \<open>Every step of the loop is due once the session is dead, but for a stream that arrives.\<close>

fun server_due :: "server_op \<Rightarrow> server_state \<Rightarrow> bool" where
  "server_due (StreamOp r) w \<longleftrightarrow> \<not> sv_alive w"
| "server_due x w \<longleftrightarrow> True"

interpretation server: draining server_guard "server_exec mapping cleanup" "server_inv mapping cleanup"
  server_own server_due "\<lambda>w. \<not> sv_alive w" "server_left cleanup"
proof
  fix x w
  assume inv: "server_inv mapping cleanup w"
  show "server_guard x w \<Longrightarrow> server_inv mapping cleanup (server_exec mapping cleanup x w)"
    by (rule server_inv_exec [OF inv])
  assume dead: "\<not> sv_alive w"
  show "server_guard x w \<Longrightarrow> \<not> sv_alive (server_exec mapping cleanup x w)"
    using dead by (cases "(mapping, cleanup, x, w)" rule: server_exec.cases)
      (auto split: server_phase.split list.split)
  show "server_guard x w \<Longrightarrow> server_own x \<Longrightarrow>
      server_left cleanup (server_exec mapping cleanup x w) < server_left cleanup w"
    using dead by (cases "(mapping, cleanup, x, w)" rule: server_exec.cases)
      (auto simp: server_left_def split: server_phase.splits list.splits)
  show "server_guard x w \<Longrightarrow> \<not> server_own x \<Longrightarrow>
      server_left cleanup (server_exec mapping cleanup x w) \<le> server_left cleanup w"
    using dead by (cases x) (auto simp: server_left_def split: server_phase.split)
  assume left: "server_left cleanup w \<noteq> 0"
  show "\<exists>x. server_own x \<and> server_guard x w \<and> server_due x w"
  proof (cases "sv_phase w")
    case Awaiting
    with dead show ?thesis by (intro exI [of _ "StreamOp None"]) simp
  next
    case (Dialing s)
    then show ?thesis by (intro exI [of _ "DialOp None"]) simp
  next
    case (Cleaning as)
    with left show ?thesis by (intro exI [of _ CleanServer]) (auto simp: server_left_def split: list.split)
  qed
qed

abbreviation server_runs :: "bool \<Rightarrow> bool \<Rightarrow> server_op list \<Rightarrow> server_state" where
  "server_runs mapping kcp xs \<equiv> run_ops (server_exec mapping (server_cleanup kcp)) xs server_start"

abbreviation server_legal :: "bool \<Rightarrow> bool \<Rightarrow> server_op list \<Rightarrow> bool" where
  "server_legal mapping kcp xs \<equiv> legal_ops server_guard (server_exec mapping (server_cleanup kcp)) xs server_start"

lemma server_runs_inv:
  "server_legal mapping kcp xs \<Longrightarrow> server_inv mapping (server_cleanup kcp) (server_runs mapping kcp xs)"
  by (rule server.run_inv) (simp_all add: server_inv_def server_start_def)

text \<open>C40. The server session serves every stream and shuts down: the loop has done what \<open>server_loop\<close>
  does for the answers it got, and then as much of the clean-up as it has come to; every stream
  \<open>AcceptStream\<close> returned is forwarded, served or closed, exactly once and in order, but for one the
  loop is dialing for, and a failed dial does not end the loop; and once the session is dead the
  loop and the clean-up take at most \<open>length cleanup + 2\<close> more steps, and two for every stream that
  was queued then, some step is due until they are done, and the tunnel is then closed.\<close>
theorem server_session_shutdown:
  assumes "server_legal mapping kcp (xs @ ys)" "v = server_runs mapping kcp xs"
    and "w = server_runs mapping kcp (xs @ ys)" "\<not> sv_alive v"
  shows "(case sv_phase w of
        Cleaning as \<Rightarrow> snd (server_loop mapping (sv_answers w)) \<and>
          sv_acts w @ as = fst (server_loop mapping (sv_answers w)) @ server_cleanup kcp
      | _ \<Rightarrow> server_loop mapping (sv_answers w) = (sv_acts w, False)) \<and>
    streams (sv_answers w) = served (sv_acts w) \<and>
    length (filter server_own ys) \<le> length (server_cleanup kcp) + 2 + 2 * sv_queued v \<and>
    (sv_phase w \<noteq> Cleaning [] \<longrightarrow> (\<exists>x. server_own x \<and> server_guard x w \<and> server_due x w))"
proof -
  let ?cleanup = "server_cleanup kcp"
  have inv: "server_inv mapping ?cleanup w" using server_runs_inv [OF assms(1)] assms(3) by simp
  from assms(1) have legal: "server_legal mapping kcp xs"
    "legal_ops server_guard (server_exec mapping ?cleanup) ys v"
    by (simp_all add: legal_ops_append assms(2))
  have run: "w = run_ops (server_exec mapping ?cleanup) ys v"
    by (simp add: assms(2,3) run_ops_append)
  have inv_v: "server_inv mapping ?cleanup v" using server_runs_inv [OF legal(1)] assms(2) by simp
  note finish = server.finishes [OF inv_v assms(4) legal(2) run]
  have "length as \<le> length ?cleanup" if phase: "sv_phase v = Cleaning as" for as
  proof -
    obtain before where "before @ as = ?cleanup" using inv_v phase by (auto simp: server_inv_def)
    then show ?thesis by (metis length_append le_add2)
  qed
  then have "server_left ?cleanup v \<le> length ?cleanup + 2 + 2 * sv_queued v"
    by (fastforce simp: server_left_def split: server_phase.split)
  moreover have "server_left ?cleanup w = 0 \<longleftrightarrow> sv_phase w = Cleaning []"
    by (auto simp: server_left_def split: server_phase.split)
  moreover have "streams (sv_answers w) = served (sv_acts w)"
  proof -
    have "served ?cleanup = []" by (simp add: server_cleanup_def served_def)
    then have "done @ as = ?cleanup \<Longrightarrow> served done = []" for "done" as
      by (metis served_simps(2) append_is_Nil_conv)
    with inv show ?thesis by (auto simp: server_inv_def split: server_phase.splits)
  qed
  moreover have "case sv_phase w of
      Cleaning as \<Rightarrow> snd (server_loop mapping (sv_answers w)) \<and>
        sv_acts w @ as = fst (server_loop mapping (sv_answers w)) @ ?cleanup
    | _ \<Rightarrow> server_loop mapping (sv_answers w) = (sv_acts w, False)"
    using inv by (auto simp: server_inv_def split: server_phase.splits)
  ultimately show ?thesis using finish by simp
qed

definition s_server_ops :: "server_op list" where
  "s_server_ops = [StreamArrives, StreamArrives, StreamArrives, StreamOp (Some 1), DialOp None, TunnelDies,
     StreamOp (Some 3), DialOp (Some 7), StreamOp None, CleanServer, CleanServer, CleanServer]"

lemma s_server_run:
  "server_legal True True s_server_ops"
  "server_runs True True s_server_ops = \<lparr>sv_alive = False, sv_queued = 1, sv_phase = Cleaning [],
     sv_acts = [CloseStream 1, Forward 7 3, CloseSession, CloseKcp, CloseTunnel],
     sv_answers = [StreamIn 1 None, StreamIn 3 (Some 7), StreamFailed]\<rparr>"
  by (simp_all add: s_server_ops_def server_start_def server_cleanup_def)

theorem server_session_shutdown_witness:
  "streams [StreamIn 1 None, StreamIn 3 (Some 7), StreamFailed] =
     served (sv_acts (server_runs True True s_server_ops)) \<and>
   snd (server_loop True [StreamIn 1 None, StreamIn 3 (Some 7), StreamFailed])"
proof -
  let ?xs = "take 6 s_server_ops" and ?ys = "drop 6 s_server_ops"
  have legal: "server_legal True True (?xs @ ?ys)" using s_server_run(1) by simp
  have "\<not> sv_alive (server_runs True True ?xs)" by (simp add: s_server_ops_def server_start_def)
  from server_session_shutdown [OF legal refl refl this]
  show ?thesis unfolding append_take_drop_id s_server_run(2) by (simp add: server_cleanup_def)
qed

end
