(* ===== verification/Udp_Forward.thy ===== *)
theory Udp_Forward
  imports Socks5
begin

text \<open>
  Forwarding of UDP packets, \<open>StartClientUDP\<close> of \<^verbatim>\<open>client.go\<close> and \<open>StartServerUDP\<close> of
  \<^verbatim>\<open>server.go\<close>, each two goroutines that share the client's address and the channel \<open>sent\<close>.
  A step is one iteration of a loop, from a read to the next; the goroutine that delivers to the
  client is two steps, because it waits for \<open>sent\<close> between its read and its write. When a
  goroutine returns it closes both sockets, so that nothing is forwarded afterwards.
\<close>

type_synonym UDPAddr = TCPAddr

text \<open>\<^verbatim>\<open>common.go\<close>\<close>

definition UDPAddrEqual :: "UDPAddr \<Rightarrow> UDPAddr \<Rightarrow> bool" where
  "UDPAddrEqual a b \<longleftrightarrow> ta_Port a = ta_Port b \<and> ta_IP a = ta_IP b \<and> ta_Zone a = ta_Zone b"

section \<open>The client\<close>

record udp_client =
  uc_client_addr :: "UDPAddr option"
  uc_sent_closed :: bool
  uc_held :: "bytes option" \<comment> \<open>read from the tunnel, not yet written\<close>
  uc_open :: bool \<comment> \<open>no goroutine has closed the sockets\<close>
  uc_to_client :: "(UDPAddr \<times> bytes) list"
  uc_to_tunnel :: "bytes list"

definition udp_client_init :: udp_client where
  "udp_client_init = \<lparr>uc_client_addr = None, uc_sent_closed = False, uc_held = None, uc_open = True,
     uc_to_client = [], uc_to_tunnel = []\<rparr>"

text \<open>
  A packet from the tunnel, with the address it came from; the write of the packet held, which
  succeeds or not; a packet from an application, and whether the write to the tunnel succeeds;
  a failed read of either socket.
\<close>

datatype udp_event =
    FromTunnel UDPAddr bytes
  | Deliver bool
  | FromClient UDPAddr bytes bool
  | ReadFails

fun udp_enabled :: "udp_event \<Rightarrow> udp_client \<Rightarrow> bool" where
  "udp_enabled (FromTunnel a d) s \<longleftrightarrow> uc_open s \<and> uc_held s = None"
| "udp_enabled (Deliver ok) s \<longleftrightarrow> uc_open s \<and> uc_held s \<noteq> None \<and> uc_sent_closed s"
| "udp_enabled (FromClient a d ok) s \<longleftrightarrow> uc_open s"
| "udp_enabled ReadFails s \<longleftrightarrow> uc_open s"

definition close_sockets :: "udp_client \<Rightarrow> udp_client" where
  "close_sockets s = s\<lparr>uc_open := False\<rparr>"

text \<open>\<open>use the most recent client address\<close>\<close>

definition note_client :: "UDPAddr \<Rightarrow> udp_client \<Rightarrow> udp_client" where
  "note_client c_addr s =
     (case uc_client_addr s of
        None \<Rightarrow> s\<lparr>uc_client_addr := Some c_addr, uc_sent_closed := True\<rparr>
      | Some a \<Rightarrow> if \<not> UDPAddrEqual c_addr a then s\<lparr>uc_client_addr := Some c_addr\<rparr> else s)"

fun udp_step :: "udp_event \<Rightarrow> udp_client \<Rightarrow> udp_client" where
  "udp_step (FromTunnel a d) s = s\<lparr>uc_held := Some (take 4096 d)\<rparr>"
| "udp_step (Deliver ok) s =
     (case (uc_held s, uc_client_addr s) of
        (Some d, Some a) \<Rightarrow>
          if ok then s\<lparr>uc_held := None, uc_to_client := uc_to_client s @ [(a, d)]\<rparr>
          else close_sockets s
      | _ \<Rightarrow> s)"
| "udp_step (FromClient a d ok) s =
     (let s1 = note_client a s in
      if ok then s1\<lparr>uc_to_tunnel := uc_to_tunnel s1 @ [take 4096 d]\<rparr> else close_sockets s1)"
| "udp_step ReadFails s = close_sockets s"

section \<open>The server\<close>

text \<open>Both directions only copy; the tunnel side is again read from any address.\<close>

record udp_server =
  us_open :: bool
  us_to_fwd :: "bytes list"
  us_to_tunnel :: "bytes list"

datatype udp_server_event =
    TunnelPacket UDPAddr bytes bool
  | FwdPacket bytes bool
  | ServerReadFails

definition udp_server_init :: udp_server where
  "udp_server_init = \<lparr>us_open = True, us_to_fwd = [], us_to_tunnel = []\<rparr>"

fun udp_server_step :: "udp_server_event \<Rightarrow> udp_server \<Rightarrow> udp_server" where
  "udp_server_step (TunnelPacket a d ok) s =
     (if ok then s\<lparr>us_to_fwd := us_to_fwd s @ [take 4096 d]\<rparr> else s\<lparr>us_open := False\<rparr>)"
| "udp_server_step (FwdPacket d ok) s =
     (if ok then s\<lparr>us_to_tunnel := us_to_tunnel s @ [take 4096 d]\<rparr> else s\<lparr>us_open := False\<rparr>)"
| "udp_server_step ServerReadFails s = s\<lparr>us_open := False\<rparr>"

end
