(* ===== verification/Udp_Forward_Props.thy ===== *)
theory Udp_Forward_Props
  imports Udp_Forward
begin

text \<open>
  What the UDP client forwards, over every interleaving of its goroutines, from one history
  lemma; and the same for the server.
\<close>

section \<open>The client\<close>

fun tunnel_payloads :: "udp_event list \<Rightarrow> bytes list" where
  "tunnel_payloads [] = []"
| "tunnel_payloads (FromTunnel a d # xs) = take 4096 d # tunnel_payloads xs"
| "tunnel_payloads (_ # xs) = tunnel_payloads xs"

fun client_payloads :: "udp_event list \<Rightarrow> bytes list" where
  "client_payloads [] = []"
| "client_payloads (FromClient a d True # xs) = take 4096 d # client_payloads xs"
| "client_payloads (_ # xs) = client_payloads xs"

fun client_addrs :: "udp_event list \<Rightarrow> UDPAddr list" where
  "client_addrs [] = []"
| "client_addrs (FromClient a d ok # xs) = a # client_addrs xs"
| "client_addrs (_ # xs) = client_addrs xs"

lemma tunnel_payloads_append [simp]: "tunnel_payloads (xs @ ys) = tunnel_payloads xs @ tunnel_payloads ys"
  by (induction xs rule: tunnel_payloads.induct) auto

lemma client_payloads_append [simp]: "client_payloads (xs @ ys) = client_payloads xs @ client_payloads ys"
  by (induction xs rule: client_payloads.induct) auto

lemma client_addrs_append [simp]: "client_addrs (xs @ ys) = client_addrs xs @ client_addrs ys"
  by (induction xs rule: client_addrs.induct) auto

lemma UDPAddrEqual_eq: "UDPAddrEqual a b \<longleftrightarrow> a = b"
  by (cases a; cases b) (auto simp: UDPAddrEqual_def)

definition last_client :: "udp_event list \<Rightarrow> UDPAddr option" where
  "last_client xs = (if client_addrs xs = [] then None else Some (last (client_addrs xs)))"

definition held_list :: "udp_client \<Rightarrow> bytes list" where
  "held_list s = (case uc_held s of None \<Rightarrow> [] | Some d \<Rightarrow> [d])"

definition udp_inv :: "udp_client \<Rightarrow> bool" where
  "udp_inv s \<longleftrightarrow> uc_sent_closed s = (uc_client_addr s \<noteq> None)"

definition udp_hist :: "udp_event list \<Rightarrow> udp_client \<Rightarrow> bool" where
  "udp_hist xs s \<longleftrightarrow>
     map snd (uc_to_client s) @ held_list s = tunnel_payloads xs \<and>
     uc_to_tunnel s = client_payloads xs \<and>
     uc_client_addr s = last_client xs \<and>
     fst ` set (uc_to_client s) \<subseteq> set (client_addrs xs)"

lemma note_client_fields [simp]:
  "uc_client_addr (note_client a s) = Some a" "uc_held (note_client a s) = uc_held s"
  "uc_to_client (note_client a s) = uc_to_client s" "uc_to_tunnel (note_client a s) = uc_to_tunnel s"
  "uc_open (note_client a s) = uc_open s"
  by (auto simp: note_client_def UDPAddrEqual_eq split: option.split)

lemma note_client_inv: "udp_inv s \<Longrightarrow> udp_inv (note_client a s)"
  by (auto simp: udp_inv_def note_client_def split: option.split)

lemma udp_step_inv: "udp_inv s \<Longrightarrow> udp_enabled x s \<Longrightarrow> udp_inv (udp_step x s)"
  by (cases x)
    (auto simp: udp_inv_def close_sockets_def Let_def note_client_def split: option.split)

lemma last_client_mem: "last_client xs = Some a \<Longrightarrow> a \<in> set (client_addrs xs)"
  by (auto simp: last_client_def split: if_splits)

lemma udp_step_hist:
  assumes "udp_inv s" "udp_hist xs s" "udp_enabled x s"
  shows "udp_hist (xs @ [x]) (udp_step x s)"
proof (cases x)
  case (FromTunnel a d)
  with assms show ?thesis by (simp add: udp_hist_def held_list_def last_client_def)
next
  case (Deliver ok)
  with assms obtain d a where "uc_held s = Some d" "uc_client_addr s = Some a"
    by (auto simp: udp_inv_def)
  moreover from this assms(2) have "a \<in> set (client_addrs xs)"
    by (intro last_client_mem) (simp add: udp_hist_def)
  ultimately show ?thesis
    using Deliver assms(2) by (auto simp: udp_hist_def held_list_def last_client_def close_sockets_def)
next
  case (FromClient a d ok)
  with assms show ?thesis
    by (cases ok) (auto simp: udp_hist_def held_list_def last_client_def close_sockets_def Let_def)
next
  case ReadFails
  with assms show ?thesis by (simp add: udp_hist_def held_list_def last_client_def close_sockets_def)
qed

interpretation udp_forward: history_system udp_enabled udp_step udp_inv udp_hist
  by unfold_locales (use udp_step_inv udp_step_hist in blast)+

definition udp_run :: "udp_event list \<Rightarrow> udp_client option" where
  "udp_run xs = (if legal_ops udp_enabled udp_step xs udp_client_init
                 then Some (run_ops udp_step xs udp_client_init) else None)"

text \<open>C36. UDP forwarding by the client: in every interleaving, what the applications were sent is, in
  order and without loss or duplication, what came through the tunnel (cut to 4096 bytes, and
  from whatever address it came), except for the one packet that may be held back; only addresses
  that have sent something are written to; the next delivery goes to the one that sent last; no
  packet is delivered before somebody has sent; and the tunnel was sent the applications' packets
  in order.\<close>
theorem udp_client_forwards:
  assumes "udp_run xs = Some s"
  shows "map snd (uc_to_client s) @ held_list s = tunnel_payloads xs \<and>
    uc_to_tunnel s = client_payloads xs \<and>
    fst ` set (uc_to_client s) \<subseteq> set (client_addrs xs) \<and>
    (udp_enabled (Deliver True) s \<longrightarrow>
       (\<exists>a d. last_client xs = Some a \<and> held_list s = [d] \<and>
          uc_to_client (udp_step (Deliver True) s) = uc_to_client s @ [(a, d)])) \<and>
    (client_addrs xs = [] \<longrightarrow> \<not> udp_enabled (Deliver True) s \<and> uc_to_client s = [])"
proof -
  have legal: "legal_ops udp_enabled udp_step xs udp_client_init"
    and s: "s = run_ops udp_step xs udp_client_init" using assms by (auto simp: udp_run_def split: if_splits)
  have init: "udp_inv udp_client_init" "udp_hist [] udp_client_init"
    by (simp_all add: udp_inv_def udp_hist_def udp_client_init_def held_list_def last_client_def)
  have inv: "udp_inv s" unfolding s by (rule udp_forward.run_inv [OF init(1) legal])
  have hist: "udp_hist xs s" unfolding s by (rule udp_forward.run_hist [OF init legal])
  have "\<exists>a d. last_client xs = Some a \<and> held_list s = [d] \<and>
      uc_to_client (udp_step (Deliver True) s) = uc_to_client s @ [(a, d)]" if "udp_enabled (Deliver True) s"
    using that inv hist by (auto simp: udp_inv_def udp_hist_def held_list_def)
  moreover have "\<not> udp_enabled (Deliver True) s" if "client_addrs xs = []"
    using that inv hist by (simp add: udp_inv_def udp_hist_def last_client_def)
  ultimately show ?thesis using hist by (auto simp: udp_hist_def)
qed

definition s_app :: UDPAddr where
  "s_app = \<lparr>ta_IP = [127, 0, 0, 1], ta_Port = 9, ta_Zone = []\<rparr>"

theorem udp_client_forwards_witness:
  "\<exists>s. udp_run [FromTunnel s_app [1], FromClient s_app [7] True, Deliver True] = Some s \<and>
     map snd (uc_to_client s) = [[1]] \<and> uc_to_tunnel s = [[7]]"
proof -
  let ?xs = "[FromTunnel s_app [1], FromClient s_app [7] True, Deliver True]"
  obtain s where s: "udp_run ?xs = Some s" "held_list s = []"
    by (simp add: udp_run_def udp_client_init_def note_client_def held_list_def Let_def)
  from udp_client_forwards [OF s(1)] s show ?thesis by simp
qed

section \<open>The server\<close>

fun server_enabled :: "udp_server_event \<Rightarrow> udp_server \<Rightarrow> bool" where
  "server_enabled x s \<longleftrightarrow> us_open s"

fun to_fwd :: "udp_server_event list \<Rightarrow> bytes list" where
  "to_fwd [] = []"
| "to_fwd (TunnelPacket a d True # xs) = take 4096 d # to_fwd xs"
| "to_fwd (_ # xs) = to_fwd xs"

lemma to_fwd_append [simp]: "to_fwd (xs @ ys) = to_fwd xs @ to_fwd ys"
  by (induction xs rule: to_fwd.induct) auto

definition server_hist :: "udp_server_event list \<Rightarrow> udp_server \<Rightarrow> bool" where
  "server_hist xs s \<longleftrightarrow> us_to_fwd s = to_fwd xs"

lemma server_step_hist: "server_hist xs s \<Longrightarrow> server_hist (xs @ [x]) (udp_server_step x s)"
  by (cases x) (auto simp: server_hist_def)

interpretation udp_server: history_system server_enabled udp_server_step "\<lambda>_. True" server_hist
  by unfold_locales (use server_step_hist in blast)+

lemma udp_server_forwards:
  "legal_ops server_enabled udp_server_step xs udp_server_init \<Longrightarrow>
    us_to_fwd (run_ops udp_server_step xs udp_server_init) = to_fwd xs"
  using udp_server.run_hist [of udp_server_init xs] by (simp add: server_hist_def udp_server_init_def)

end
