(* ===== verification/Tunnel_Sockets.thy ===== *)
theory Tunnel_Sockets
  imports Tunnel_Props Udp_Forward
begin

text \<open>
  What the tunnel does with its sockets, around the sessions: the delegation of the encrypted
  connections to the socket below them (\<^verbatim>\<open>crypt.go\<close>), the DSCP mark (\<^verbatim>\<open>common.go\<close>), the
  options KCP is given, the set-up of the UDP tunnels (\<^verbatim>\<open>client.go\<close>, \<^verbatim>\<open>server.go\<close>), the
  dispatch of hole punching (\<^verbatim>\<open>holepunch.go\<close>) and the dialers of the other platforms
  (\<^verbatim>\<open>s5_windows.go\<close>, \<^verbatim>\<open>s5_darwin.go\<close>).
\<close>

section \<open>Encrypted connections and their sockets\<close>

text \<open>
  The dynamic type of the connection below, as far as the code asks: a TCP or a UDP socket of the
  library, or another type that is a \<open>net.Conn\<close> or is not. \<open>r\<close> is what the socket's own method
  returns.
\<close>

datatype socket = TCPSocket | UDPSocket | OtherConn | OtherPacketConn

definition is_net_conn :: "socket \<Rightarrow> bool" where
  "is_net_conn s \<longleftrightarrow> s \<noteq> OtherPacketConn"

definition EConnXor_SetReadBuffer :: "socket \<Rightarrow> io_error option \<Rightarrow> io_error option" where
  "EConnXor_SetReadBuffer s r = (if s = TCPSocket then r else Some not_implemented)"

definition EConnXor_SetWriteBuffer :: "socket \<Rightarrow> io_error option \<Rightarrow> io_error option" where
  "EConnXor_SetWriteBuffer s r = (if s = TCPSocket then r else Some not_implemented)"

definition EConnXor_SyscallConn :: "socket \<Rightarrow> io_error + 'raw \<Rightarrow> io_error + 'raw" where
  "EConnXor_SyscallConn s r = (if s = TCPSocket then r else Inl not_implemented)"

definition EPacketConnXor_Conn :: "socket \<Rightarrow> socket option" where
  "EPacketConnXor_Conn s = (if is_net_conn s then Some s else None)"

definition EPacketConnXor_SetReadBuffer :: "socket \<Rightarrow> io_error option \<Rightarrow> io_error option" where
  "EPacketConnXor_SetReadBuffer s r = (if s = UDPSocket then r else Some not_implemented)"

definition EPacketConnXor_SetWriteBuffer :: "socket \<Rightarrow> io_error option \<Rightarrow> io_error option" where
  "EPacketConnXor_SetWriteBuffer s r = (if s = UDPSocket then r else Some not_implemented)"

definition EPacketConnXor_SyscallConn :: "socket \<Rightarrow> io_error + 'raw \<Rightarrow> io_error + 'raw" where
  "EPacketConnXor_SyscallConn s r = (if s = UDPSocket then r else Inl not_implemented)"

definition EPacketConnXor_RemoteAddr :: "socket \<Rightarrow> 'addr option \<Rightarrow> 'addr option" where
  "EPacketConnXor_RemoteAddr s r = (if is_net_conn s then r else None)"

text \<open>A connection is a socket itself or one of the two wrappers of one.\<close>

datatype wrapped = Bare socket | InEConn socket | InEPacketConn socket

text \<open>\<open>SetTOS\<close> is the library's method; \<open>None\<close> is the nil connection.\<close>

definition SetDSCP :: "(socket option \<Rightarrow> int \<Rightarrow> io_error option) \<Rightarrow> wrapped \<Rightarrow> int \<Rightarrow> io_error option" where
  "SetDSCP SetTOS conn dscp =
     (let tos = wrap64 (push_bit 2 dscp) in
      case conn of
        InEConn s \<Rightarrow> SetTOS (Some s) tos
      | InEPacketConn s \<Rightarrow> SetTOS (EPacketConnXor_Conn s) tos
      | Bare s \<Rightarrow> SetTOS (Some s) tos)"

text \<open>Encryption does not change which socket is marked, nor with what.\<close>

lemma SetDSCP_transparent:
  "is_net_conn s \<Longrightarrow> SetDSCP SetTOS (InEPacketConn s) dscp = SetDSCP SetTOS (Bare s) dscp"
  "SetDSCP SetTOS (InEConn s) dscp = SetDSCP SetTOS (Bare s) dscp"
  by (simp_all add: SetDSCP_def EPacketConnXor_Conn_def)

section \<open>The options of a KCP connection\<close>

text \<open>The setters called, in order; those of the server's listener come before it accepts.\<close>

datatype kcp_option =
    StreamMode bool | WriteDelay bool | NoDelay int int int int | Mtu int | WindowSize int int
  | ACKNoDelay bool | DSCP int | ReadBuffer int | WriteBuffer int

definition kcp_socket_options :: "KCPConfig \<Rightarrow> kcp_option list" where
  "kcp_socket_options k = [DSCP (kc_DSCP k), ReadBuffer (kc_SockBuf k), WriteBuffer (kc_SockBuf k)]"

definition kcp_conn_options :: "KCPConfig \<Rightarrow> kcp_option list" where
  "kcp_conn_options k =
     [StreamMode True, WriteDelay False,
      NoDelay (kc_NoDelay k) (kc_Interval k) (kc_Resend k) (kc_NoCongestion k),
      Mtu (kc_MTU k), WindowSize (kc_SndWnd k) (kc_RcvWnd k), ACKNoDelay (kc_AckNodelay k)]"

definition client_kcp_options :: "KCPConfig \<Rightarrow> kcp_option list" where
  "client_kcp_options k = kcp_conn_options k @ kcp_socket_options k"

definition server_kcp_options :: "KCPConfig \<Rightarrow> kcp_option list" where
  "server_kcp_options k = kcp_socket_options k @ kcp_conn_options k"

lemma kcp_options_agree: "set (client_kcp_options k) = set (server_kcp_options k)"
  by (auto simp: client_kcp_options_def server_kcp_options_def)

section \<open>UDP tunnels\<close>

definition StartClientUDP ::
    "pbkdf2 \<Rightarrow> (TCPAddr option \<Rightarrow> bool) \<Rightarrow> udp_conn \<Rightarrow> UDPConfig \<Rightarrow> udp_conn \<times> udp_client outcome" where
  "StartClientUDP pb ListenUDP conn conf =
     (encrypt_udp pb (udp_Enc conf) (udp_Key conf) conn,
      case assert_addr UDPKind (udp_FwdAddr conf) of
        None \<Rightarrow> Panic
      | Some laddr \<Rightarrow> if \<not> ListenUDP laddr then Exit 1 else Done udp_client_init)"

definition StartServerUDP ::
    "pbkdf2 \<Rightarrow> (TCPAddr option \<Rightarrow> bool) \<Rightarrow> udp_conn \<Rightarrow> UDPConfig \<Rightarrow> udp_conn \<times> udp_server outcome" where
  "StartServerUDP pb DialUDP conn conf =
     (encrypt_udp pb (udp_Enc conf) (udp_Key conf) conn,
      case assert_addr UDPKind (udp_FwdAddr conf) of
        None \<Rightarrow> Panic
      | Some raddr \<Rightarrow> if \<not> DialUDP raddr then Exit 1 else Done udp_server_init)"

text \<open>The UDP tunnels \<open>main\<close> starts do not panic either.\<close>

lemma started_udp_no_panic:
  assumes "config_ok (UDP c)" "udp_Proto c = ''udp''"
  shows "snd (StartClientUDP pb listen conn c) \<noteq> Panic" "snd (StartServerUDP pb dial conn c) \<noteq> Panic"
  using assms by (auto simp: StartClientUDP_def StartServerUDP_def split: if_splits)

section \<open>Hole punching\<close>

datatype puncher = WithTCP TCPConfig | WithUDP UDPConfig

fun Punch :: "Config \<Rightarrow> puncher" where
  "Punch (TCP c) = WithTCP c"
| "Punch (UDP c) = WithUDP c"

section \<open>Dialers of the other platforms\<close>

text \<open>What the control function of \<open>s5_windows.go\<close> sets, and that of \<open>s5_darwin.go\<close>, which has none.\<close>

definition dialer_Control_windows :: "Dialer \<Rightarrow> sockopt list" where
  "dialer_Control_windows d = (if dl_dscp d \<noteq> 0 then [IP_TOS (wrap64 (push_bit 2 (dl_dscp d)))] else [])"

definition dialer_Control_darwin :: "Dialer \<Rightarrow> sockopt list" where
  "dialer_Control_darwin d = []"

lemma dialer_Control_platforms:
  "set (dialer_Control_windows d) \<subseteq> set (dialer_Control d)"
  "set (dialer_Control_darwin d) \<subseteq> set (dialer_Control_windows d)"
  "dl_fwmark d = 0 \<Longrightarrow> dialer_Control_windows d = dialer_Control d"
  by (auto simp: dialer_Control_windows_def dialer_Control_darwin_def dialer_Control_def)

end
