(* ===== verification/Spec2Isabelle.thy ===== *)
theory Spec2Isabelle
  imports Registrar_Props Membership_Refinement Relay_Props Relay_Threads_Props
    Swarm_Relay Controller_Props Discovery_Props Endpoint_Props Endpoint_Monitor Swarm_Config Machine_Id Swarm_Demo
    Crypt_Props Socks5_Props Holepunch_Props Cli Kcp Tunnel_Props Forwarder Session
    Udp_Forward_Props Tunnel_Sockets
begin

text \<open>
  A model of Gole: a tunnel between two hosts behind NATs (package \<open>main\<close> and \<open>s5\<close>) and the
  swarm, an identity, relay and policy layer for such endpoints (package \<open>swarm\<close> and the command
  \<^verbatim>\<open>cmd/swarm\<close>).

  \<^bold>\<open>The swarm.\<close> A registrar enrolls endpoints: an endpoint sends its machine fingerprint and public
  key, signs a challenge, is pre-approved or approved by an administrator, and gets an address
  (domain, group, endpoint number, role) and a signed token. It presents the token to activate
  itself, to a relay, to ask for a brokered hole punch, and with every message to an agent. A
  relay forwards frames between the sessions of authenticated endpoints. A controller decides
  which flow is allowed. Discovery ranks relays by latency and chooses between a relay and the
  peer connection.

  \<^item> \<open>Swarm_Types\<close> (\<^verbatim>\<open>swarm/types.go\<close>), \<open>Base64_Url\<close>, \<open>Paseto\<close> (\<^verbatim>\<open>swarm/paseto.go\<close>): data and tokens.
    A Go struct is a record, its fields prefixed; a machine integer is a word, a duration an
    integer with \<open>wrap64\<close> where arithmetic can overflow; a Go map is an association list with the
    laws of the locale \<open>go_map\<close>, because maps are iterated.
  \<^item> \<open>Registrar\<close> (\<^verbatim>\<open>swarm/registrar.go\<close>): the record \<open>Registrar\<close> and one definition per method,
    which returns a result (\<open>Inl\<close> an error) and the new registrar, also on error paths. Each method
    holds the mutex throughout and is one step; \<open>reg_op\<close> enumerates them and a run is a list of
    them. \<open>Registrar_Lemmas\<close>, \<open>Registrar_Inv\<close> (the invariant \<open>reg_inv\<close> and its preservation by each
    operation), \<open>Registrar_Progress\<close> (what no operation undoes), \<open>Registrar_Alloc\<close> (the endpoint
    numbers), \<open>Registrar_History\<close> (what must have happened before), \<open>Registrar_Samples\<close> (a concrete run
    for the witnesses), \<open>Registrar_Issued\<close> (the tokens signed in a run, each of which is proved to
    stay on record, and what unforgeability means for a run), \<open>Registrar_Props\<close>.
  \<^item> \<open>Membership\<close>, \<open>Membership_Refinement\<close>: what the registrar promises as an abstract machine, a
    ledger with one entry per enrollment and the inductive relation \<open>admission\<close> of what can happen
    to it; the ledger's own invariants; and the proof that every operation of the registrar is a
    step of the ledger under the abstraction \<open>ledger_of\<close>, or none.
  \<^item> \<open>Relay_Wire\<close>, \<open>Relay\<close>, \<open>Relay_Inv\<close>, \<open>Relay_Props\<close> (\<^verbatim>\<open>swarm/relay.go\<close>): frames as the \<open>Write\<close>
    calls that make them, connections with the bytes left to read, \<open>HandleConn\<close> as one step per
    frame, the two routers under the contract \<open>relay_router\<close>. \<open>Relay_Threads\<close> has the same handlers
    as goroutines with program counters, whose single \<open>Write\<close> calls, lock operations and map
    operations interleave, and the invariant of who writes to a connection.
    \<open>Relay_Threads_Props\<close>: where the frames on a connection stay whole in every interleaving, where
    an unlocked reply cuts one, and that a handler which is not interrupted does what the steps of
    \<open>Relay\<close> say. \<open>Swarm_Relay\<close> composes the relay with the registrar: which endpoints it relays for.
  \<^item> \<open>Policy\<close>, \<open>Controller\<close>, \<open>Controller_Props\<close> (\<^verbatim>\<open>swarm/policy.go\<close>, \<^verbatim>\<open>swarm/controller.go\<close>). What
    the controller relies on is the locale \<open>identity_authority\<close>, interpreted on the registrar.
  \<^item> \<open>Discovery\<close>, \<open>Discovery_Props\<close> (\<^verbatim>\<open>swarm/discovery.go\<close>), with \<open>sort.Slice\<close> as a parameter under
    its contract, the locale \<open>slice_sort\<close>.
  \<^item> \<open>Endpoint\<close>, \<open>Endpoint_Props\<close> (\<^verbatim>\<open>swarm/endpoint.go\<close>): the endpoint against the registrar.
    \<open>Endpoint_Monitor\<close>: the endpoint and the goroutine of its transport monitor, which calls back
    into it, in every interleaving; \<open>Discover\<close> is there the composition of its two steps.
  \<^item> \<open>Swarm_Config\<close> (\<^verbatim>\<open>swarm/config.go\<close>), \<open>Machine_Id\<close> (\<^verbatim>\<open>swarm/machineid.go\<close>), \<open>Swarm_Cli\<close>,
    \<open>Swarm_Demo\<close> (\<^verbatim>\<open>cmd/swarm\<close>): configuration, fingerprint, the command, and its demo end to end.

  \<^bold>\<open>The tunnel.\<close> The command line selects TCP or UDP, the two addresses and an operation. The
  program punches a hole; the connection then carries streams through a multiplexer (over TCP,
  or over KCP on UDP), each forwarded to a fixed address or to a SOCKS5 server, or plain packets.
  With a key, everything on the connection is combined with a key stream.

  \<^item> \<open>Crypt\<close>, \<open>Crypt_Props\<close> (\<^verbatim>\<open>crypt.go\<close>): the locale \<open>xor_lib\<close> is the contract of \<open>xor.Bytes\<close>; both
    ends of a connection refine positions in one periodic key stream (\<open>stream_xor\<close>).
  \<^item> \<open>Holepunch\<close>, \<open>Holepunch_Props\<close> (\<^verbatim>\<open>holepunch.go\<close>): \<open>PunchTCP\<close> as a loop over attempts; \<open>PunchUDP\<close>
    as the record \<open>punch\<close> of what its three goroutines share and a guarded step per event, panics
    included. The lemmas relate the wait group to what is outstanding in every interleaving.
  \<^item> \<open>Socks5\<close>, \<open>Socks5_Props\<close> (\<^verbatim>\<open>s5/s5.go\<close>): a stream is a list of segments, what each \<open>Read\<close> can
    return; the lemmas show that the segmentation does not matter to a conforming client. The two
    copies of a piped connection interleave with each other and with the closes; the end of the
    copy from the target closes both ends and so cuts the other copy. The removals from \<open>Conns\<close>
    run beside each other without a lock, one iteration of each loop per step.
  \<^item> \<open>Go_Flag\<close>, \<open>Cli\<close> (\<^verbatim>\<open>cli.go\<close>, \<^verbatim>\<open>s5/s5_linux.go\<close>), \<open>Kcp\<close> (\<^verbatim>\<open>kconfig.go\<close>): the command line, with an
    exit and a panic as results, on a model of Go's \<open>flag\<close> package; the KCP settings.
  \<^item> \<open>Tunnel\<close>, \<open>Tunnel_Props\<close> (\<^verbatim>\<open>client.go\<close>, \<^verbatim>\<open>server.go\<close>, \<^verbatim>\<open>main.go\<close>, \<^verbatim>\<open>common.go\<close>): what the
    starters do for every answer of the libraries, as a list of actions. \<open>Session\<close>: the same
    sessions as concurrent systems (accept loop, watchdog, peer, clean-up), of which the
    lemmas show that they shut down and what becomes of each connection. \<open>Tunnel_Sockets\<close>: the options set on the sockets, the set-up
    of the UDP tunnels, the dialers of the other platforms.
  \<^item> \<open>Forwarder\<close> (\<^verbatim>\<open>common.go\<close>): the two copying goroutines of \<open>conn2stream\<close>, one step per chunk, a
    failing write being one of any part of it; what they deliver, that they end and close both ends, and two of them end to end through the
    multiplexer.
  \<^item> \<open>Udp_Forward\<close>, \<open>Udp_Forward_Props\<close>: the packet forwarders of both sides as step relations.

  \<^bold>\<open>Shared.\<close> \<open>Gole_Prelude\<close> has the integers, strings, byte slices, Go maps, decimal formatting and
  byte orders, the contract of a self-delimiting encoding (\<open>codec\<close>), and the systems of guarded
  operations: \<open>guarded_system\<close> carries an invariant over runs, \<open>progress_system\<close> a relation between
  earlier and later states, \<open>history_system\<close> a relation between the run and the state reached,
  \<open>simulation\<close> an abstraction to a step relation, \<open>draining\<close> a measure of what is left to do. They
  are interpreted on the registrar, the relay, \<open>PunchUDP\<close>, the relay's handlers, the endpoint
  with its monitor, the sessions, the forwarders and the copies of a SOCKS5 connection.

  \<^bold>\<open>Parameters.\<close> Ed25519, JSON marshalling, HMAC-SHA256, PBKDF2, \<open>xor.Bytes\<close>, \<open>sort.Slice\<close>, DNS,
  time and randomness are arguments; what is assumed of them is a hypothesis or a locale, met by
  a concrete function in the witnesses. Unforgeability is a hypothesis about which documents
  verify: those the registrar signed in the run at hand (\<open>unforgeable\<close>). That it still has a record
  of each, and which, is proved.

  \<^bold>\<open>Bounds.\<close> No fuel is used: the ID allocator probes 65534 candidates as the code does, the loop of
  \<open>HandleConn\<close> is bounded by the bytes left to read (\<open>HandleConn_returns\<close>), polling and the
  goroutines follow lists of events of any length, the remaining loops are total functions.

  \<^bold>\<open>Not modelled.\<close> Printing and usage texts; deadlines, other than as reads that fail; the methods
  of \<^verbatim>\<open>crypt.go\<close> that only call the connection below; the unused challenge types of
  \<^verbatim>\<open>swarm/types.go\<close>; the inside of smux and KCP, of which the end-to-end property of the tunnel
  assumes that a stream delivers in order. Data races are modelled where the code's own
  interleaving decides a property: the writes of the relay's handlers, the goroutines of
  \<open>PunchUDP\<close>, of the sessions, of the forwarders and of a SOCKS5 connection, two removals from
  \<open>Conns\<close>, and the monitor of an endpoint. Connections added to
  \<open>Conns\<close> during a removal are left out.

  \<^bold>\<open>Next.\<close> The registrar's operations as they interleave with two endpoints that enroll at the same
  time, and additions to \<open>Conns\<close> beside its removals.
\<close>

end
